(* ===== verification/Prelude.thy ===== *)
theory Prelude
  imports Main "HOL-Library.Word" "HOL-Library.Monad_Syntax"
begin

text \<open>
  The part of the library that knows nothing of the program: the fact collections of the
  development, searches over fixed arrays, the interface of a table of slots, and the interface of a
  transition system with an invariant.

  A C array of slots is a list whose length never changes. A \<open>for\<close> loop that returns at the
  first index with some property is \<open>first_idx\<close>; a table with a \<open>used\<close> flag per slot is an
  instance of the locale \<open>slot_array\<close>.
\<close>

named_theorems layout_simps \<open>field access in byte images of C structs\<close>
named_theorems frame_simps \<open>what an operation leaves unchanged\<close>
named_theorems inv_intros \<open>preservation of the data invariants\<close>

section \<open>Searching an array\<close>

fun first_idx :: "('a \<Rightarrow> bool) \<Rightarrow> 'a list \<Rightarrow> nat option" where
  "first_idx p [] = None"
| "first_idx p (x # xs) = (if p x then Some 0 else map_option Suc (first_idx p xs))"

lemma first_idx_None: "first_idx p xs = None \<longleftrightarrow> (\<forall>x\<in>set xs. \<not> p x)"
  by (induction xs) auto

lemma first_idx_SomeD:
  "first_idx p xs = Some i \<Longrightarrow> i < length xs \<and> p (xs ! i) \<and> (\<forall>j<i. \<not> p (xs ! j))"
proof (induction xs arbitrary: i)
  case (Cons x xs)
  show ?case
  proof (cases "p x")
    case False
    with Cons.prems obtain k where "first_idx p xs = Some k" "i = Suc k" by auto
    with False Cons.IH [of k] show ?thesis by (auto simp: less_Suc_eq_0_disj)
  qed (use Cons.prems in auto)
qed simp

lemma first_idx_SomeI:
  "i < length xs \<Longrightarrow> p (xs ! i) \<Longrightarrow> (\<And>j. j < i \<Longrightarrow> \<not> p (xs ! j)) \<Longrightarrow> first_idx p xs = Some i"
proof (induction xs arbitrary: i)
  case (Cons x xs)
  show ?case
  proof (cases i)
    case 0
    with Cons.prems show ?thesis by simp
  next
    case (Suc k)
    have "\<not> p x" using Cons.prems(3) [of 0] Suc by simp
    moreover have "first_idx p xs = Some k"
    proof (rule Cons.IH)
      show "k < length xs" "p (xs ! k)" using Cons.prems(1,2) Suc by auto
      show "\<not> p (xs ! j)" if "j < k" for j using Cons.prems(3) [of "Suc j"] Suc that by simp
    qed
    ultimately show ?thesis using Suc by simp
  qed
qed simp

lemma first_idx_less: "first_idx p xs = Some i \<Longrightarrow> i < length xs"
  by (simp add: first_idx_SomeD)

lemma first_idx_sat: "first_idx p xs = Some i \<Longrightarrow> p (xs ! i)"
  by (simp add: first_idx_SomeD)

lemma first_idx_ex: "x \<in> set xs \<Longrightarrow> p x \<Longrightarrow> \<exists>i. first_idx p xs = Some i"
  by (cases "first_idx p xs") (auto simp: first_idx_None)

lemma first_idx_cong [fundef_cong]:
  "xs = ys \<Longrightarrow> (\<And>x. x \<in> set ys \<Longrightarrow> p x = q x) \<Longrightarrow> first_idx p xs = first_idx q ys"
  by (induction xs arbitrary: ys) auto

lemma first_idx_update_same:
  "P y = P (xs ! i) \<Longrightarrow> first_idx P (xs[i := y]) = first_idx P xs"
  by (induction xs arbitrary: i) (auto split: nat.split)

lemma first_idx_update_new:
  "first_idx P xs = None \<Longrightarrow> i < length xs \<Longrightarrow> P y \<Longrightarrow> first_idx P (xs[i := y]) = Some i"
  by (rule first_idx_SomeI) (auto simp: first_idx_None nth_list_update)

lemma first_idx_replicate [simp]:
  "first_idx P (replicate n x) = (if P x \<and> 0 < n then Some 0 else None)"
  by (induction n) auto

section \<open>Tables of slots\<close>

definition n_used :: "('a \<Rightarrow> bool) \<Rightarrow> 'a list \<Rightarrow> nat" where
  "n_used u xs = length (filter u xs)"

lemma n_used_le: "n_used u xs \<le> length xs"
  by (simp add: n_used_def)

lemma n_used_zero: "n_used u xs = 0 \<longleftrightarrow> (\<forall>x\<in>set xs. \<not> u x)"
  by (auto simp: n_used_def filter_empty_conv)

lemma n_used_full: "n_used u xs < length xs \<longleftrightarrow> (\<exists>x\<in>set xs. \<not> u x)"
  by (induction xs) (auto simp: n_used_def less_Suc_eq_le)

lemma n_used_update:
  "i < length xs \<Longrightarrow>
   n_used u (xs[i := y]) + (if u (xs ! i) then 1 else 0) = n_used u xs + (if u y then 1 else 0)"
proof (induction xs arbitrary: i)
  case (Cons x xs)
  then show ?case by (cases i) (auto simp: n_used_def)
qed simp

lemma n_used_map: "(\<And>x. u (f x) \<Longrightarrow> u x) \<Longrightarrow> n_used u (map f xs) \<le> n_used u xs"
  unfolding n_used_def by (induction xs) auto

lemma set_update_subset: "x \<in> set (xs[i := y]) \<Longrightarrow> x = y \<or> x \<in> set xs"
  using set_update_subset_insert by fastforce

text \<open>No two slots stand in the relation \<open>R\<close>: the key of a table is unique.\<close>

definition no_clash :: "('a \<Rightarrow> 'a \<Rightarrow> bool) \<Rightarrow> 'a list \<Rightarrow> bool" where
  "no_clash R xs \<longleftrightarrow> (\<forall>i<length xs. \<forall>j<length xs. i \<noteq> j \<longrightarrow> \<not> R (xs ! i) (xs ! j))"

lemma no_clash_update:
  "no_clash R xs \<Longrightarrow> (\<And>j. j < length xs \<Longrightarrow> j \<noteq> i \<Longrightarrow> \<not> R y (xs ! j) \<and> \<not> R (xs ! j) y)
   \<Longrightarrow> no_clash R (xs[i := y])"
  by (cases "i < length xs") (auto simp: no_clash_def nth_list_update)

lemma no_clash_rewrite:
  assumes "no_clash R xs" and "\<And>z. R y z \<Longrightarrow> R (xs ! i) z" and "\<And>z. R z y \<Longrightarrow> R z (xs ! i)"
  shows "no_clash R (xs[i := y])"
proof (cases "i < length xs")
  case True
  show ?thesis
    by (rule no_clash_update) (use assms True in \<open>auto simp: no_clash_def\<close>)
qed (use assms in \<open>simp add: list_update_beyond\<close>)

lemma no_clash_map:
  "no_clash R xs \<Longrightarrow> (\<And>x y. R (f x) (f y) \<Longrightarrow> R x y) \<Longrightarrow> no_clash R (map f xs)"
  by (fastforce simp: no_clash_def)

text \<open>
  The interface: slots carry a flag \<open>used\<close>, and \<open>free\<close> clears the flag (the program
  leaves the rest of the slot as it is). The lemmas count the used slots across the four ways
  the program changes a table: taking a free slot, rewriting a used slot in place, freeing one
  slot, and freeing every slot with some property in one sweep.
\<close>

locale slot_array =
  fixes used :: "'a \<Rightarrow> bool" and free :: "'a \<Rightarrow> 'a"
  assumes not_used_free: "\<not> used (free x)"
begin

lemma take_slot:
  "i < length xs \<Longrightarrow> \<not> used (xs ! i) \<Longrightarrow> used y \<Longrightarrow> n_used used (xs[i := y]) = Suc (n_used used xs)"
  using n_used_update [of i xs used y] by simp

lemma rewrite_slot:
  "i < length xs \<Longrightarrow> used (xs ! i) \<Longrightarrow> used y \<Longrightarrow> n_used used (xs[i := y]) = n_used used xs"
  using n_used_update [of i xs used y] by simp

lemma free_slot:
  "i < length xs \<Longrightarrow> used (xs ! i) \<Longrightarrow> Suc (n_used used (xs[i := free (xs ! i)])) = n_used used xs"
  using n_used_update [of i xs used "free (xs ! i)"] by (simp add: not_used_free)

lemma used_pos: "i < length xs \<Longrightarrow> used (xs ! i) \<Longrightarrow> 0 < n_used used xs"
  using n_used_zero [of used xs] nth_mem [of i xs] by (cases "n_used used xs") auto

lemma filter_free_slot:
  "i < length xs \<Longrightarrow>
   filter used (xs[i := free (xs ! i)]) = filter used (take i xs) @ filter used (drop (Suc i) xs)"
  by (simp add: upd_conv_take_nth_drop not_used_free)

lemma filter_take_slot:
  "i < length xs \<Longrightarrow> \<not> used (xs ! i) \<Longrightarrow> used y \<Longrightarrow>
   filter used (xs[i := y]) = filter used (take i xs) @ y # filter used (drop (Suc i) xs)"
  by (simp add: upd_conv_take_nth_drop)

lemma filter_at:
  "i < length xs \<Longrightarrow> used (xs ! i) \<Longrightarrow>
   filter used xs = filter used (take i xs) @ xs ! i # filter used (drop (Suc i) xs)"
  using id_take_nth_drop [of i xs] by (metis filter.simps(2) filter_append)

lemma filter_sweep:
  "filter used (map (\<lambda>x. if used x \<and> p x then free x else x) xs)
   = filter (\<lambda>x. used x \<and> \<not> p x) xs"
  by (induction xs) (auto simp: not_used_free)

lemma n_used_sweep:
  "n_used used (map (\<lambda>x. if used x \<and> p x then free x else x) xs)
   + n_used (\<lambda>x. used x \<and> p x) xs = n_used used xs"
  unfolding n_used_def filter_sweep by (induction xs) auto

end

section \<open>Transition systems\<close>

text \<open>
  The interface: every step from a state with \<open>inv\<close> leads to one with \<open>inv\<close>. Then so does every run.
\<close>

locale transition_system =
  fixes step :: "'s \<Rightarrow> 's \<Rightarrow> bool" and inv :: "'s \<Rightarrow> bool"
  assumes step_keeps: "step s s' \<Longrightarrow> inv s \<Longrightarrow> inv s'"
begin

lemma run_keeps: "step\<^sup>*\<^sup>* s s' \<Longrightarrow> inv s \<Longrightarrow> inv s'"
  by (induction rule: rtranclp_induct) (auto intro: step_keeps)

end

end
