(* ===== verification/CRuntime.thy ===== *)
theory CRuntime
  imports Prelude
begin

unbundle bit_operations_syntax

text \<open>
  What the program uses of the C language and its library: bytes, the little-endian image of
  integers in memory, \<open>htons\<close>/\<open>htonl\<close>, C strings in fixed arrays with \<open>strncpy\<close>,
  \<open>strncmp\<close>, \<open>strcmp\<close> and \<open>strlen\<close>, \<open>memcpy\<close> into a buffer, and \<open>atoi\<close>.

  The target is the one the repository builds for (Docker images on x86-64 or arm64 Linux):
  8-bit bytes, little-endian integers, 32-bit \<open>int\<close>, 64-bit \<open>size_t\<close>. A \<open>char[n]\<close> is a list
  of \<open>n\<close> bytes. Reading a character past the end of the list reads NUL, so that a HOL
  list without a NUL also stands for an argument string.
\<close>

type_synonym byte = "8 word"
type_synonym u16 = "16 word"
type_synonym u32 = "32 word"
type_synonym size_t = "64 word"
type_synonym bytes = "byte list"

section \<open>Integers in memory and in network byte order\<close>

definition le16 :: "u16 \<Rightarrow> bytes" where
  "le16 x = [ucast x, ucast (drop_bit 8 x)]"

definition le32 :: "u32 \<Rightarrow> bytes" where
  "le32 x = [ucast x, ucast (drop_bit 8 x), ucast (drop_bit 16 x), ucast (drop_bit 24 x)]"

fun of_le16 :: "bytes \<Rightarrow> u16" where
  "of_le16 (a # b # _) = ucast a OR push_bit 8 (ucast b)"
| "of_le16 _ = 0"

fun of_le32 :: "bytes \<Rightarrow> u32" where
  "of_le32 (a # b # c # d # _) =
     ucast a OR push_bit 8 (ucast b) OR push_bit 16 (ucast c) OR push_bit 24 (ucast d)"
| "of_le32 _ = 0"

lemma length_le16 [simp]: "length (le16 x) = 2"
  by (simp add: le16_def)

lemma length_le32 [simp]: "length (le32 x) = 4"
  by (simp add: le32_def)

lemma of_le16_le16 [simp]: "of_le16 (le16 x) = x"
  unfolding le16_def of_le16.simps
  by (rule bit_eqI) (auto simp: bit_simps)

lemma of_le32_le32 [simp]: "of_le32 (le32 x) = x"
proof -
  have *: "\<not> n - 16 < 8 \<Longrightarrow> 24 + (n - 24) = n" for n :: nat by arith
  show ?thesis
    unfolding le32_def of_le32.simps
    by (rule bit_eqI, auto simp: bit_simps, rule ccontr, simp add: *)
qed

lemma le16_of_le16: "le16 (of_le16 [a, b]) = [a, b]"
  unfolding le16_def of_le16.simps list.inject
  by (intro conjI bit_eqI) (auto simp: bit_simps dest: bit_imp_le_length)

lemma le32_of_le32: "le32 (of_le32 [a, b, c, d]) = [a, b, c, d]"
  unfolding le32_def of_le32.simps list.inject
  by (intro conjI bit_eqI) (auto simp: bit_simps dest: bit_imp_le_length)

text \<open>On a little-endian host \<open>htons\<close> and \<open>ntohs\<close> reverse the bytes of their argument.\<close>

definition htons :: "u16 \<Rightarrow> u16" where
  "htons x = of_le16 (rev (le16 x))"

definition htonl :: "u32 \<Rightarrow> u32" where
  "htonl x = of_le32 (rev (le32 x))"

abbreviation ntohs :: "u16 \<Rightarrow> u16" where "ntohs \<equiv> htons"
abbreviation ntohl :: "u32 \<Rightarrow> u32" where "ntohl \<equiv> htonl"

lemma ntohs_htons [simp]: "htons (htons x) = x"
proof -
  obtain a b where x: "le16 x = [a, b]" by (simp add: le16_def)
  have "le16 (htons x) = [b, a]" by (simp only: htons_def x rev.simps append.simps le16_of_le16)
  then show ?thesis by (metis htons_def x of_le16_le16 rev.simps append.simps)
qed

lemma ntohl_htonl [simp]: "htonl (htonl x) = x"
proof -
  obtain a b c d where x: "le32 x = [a, b, c, d]" by (simp add: le32_def)
  have "le32 (htonl x) = [d, c, b, a]" by (simp only: htonl_def x rev.simps append.simps le32_of_le32)
  then show ?thesis by (metis htonl_def x of_le32_le32 rev.simps append.simps)
qed

lemma htons_eq_iff: "htons x = y \<longleftrightarrow> x = htons y"
  by (metis ntohs_htons)

lemma htonl_eq_iff: "htonl x = y \<longleftrightarrow> x = htonl y"
  by (metis ntohl_htonl)

section \<open>Fields of a byte image, memcpy\<close>

definition field :: "nat \<Rightarrow> nat \<Rightarrow> 'a list \<Rightarrow> 'a list" where
  "field off n bs = take n (drop off bs)"

lemma length_field [layout_simps]: "off + n \<le> length bs \<Longrightarrow> length (field off n bs) = n"
  by (simp add: field_def)

lemma field_here [layout_simps]: "length xs = n \<Longrightarrow> field 0 n (xs @ ys) = xs"
  by (simp add: field_def)

lemma field_all [layout_simps]: "length xs = n \<Longrightarrow> field 0 n xs = xs"
  by (simp add: field_def)

lemma field_skip [layout_simps]: "length xs \<le> off \<Longrightarrow> field off n (xs @ ys) = field (off - length xs) n ys"
  by (simp add: field_def)

lemma field_prefix [layout_simps]: "off + n \<le> length xs \<Longrightarrow> field off n (xs @ ys) = field off n xs"
  by (simp add: field_def)

text \<open>\<open>memcpy\<close> of \<open>src\<close> to the front of \<open>dst\<close>.\<close>

definition overlay :: "'a list \<Rightarrow> 'a list \<Rightarrow> 'a list" where
  "overlay dst src = src @ drop (length src) dst"

lemma length_overlay [simp]: "length src \<le> length dst \<Longrightarrow> length (overlay dst src) = length dst"
  by (simp add: overlay_def)

text \<open>
  A local buffer of the program that is not initialised holds arbitrary bytes: it is a function
  from offsets to bytes, and writing a datagram changes its first bytes only.
\<close>

definition buf_write :: "(nat \<Rightarrow> byte) \<Rightarrow> bytes \<Rightarrow> nat \<Rightarrow> byte" where
  "buf_write buf bs i = (if i < length bs then bs ! i else buf i)"

definition buf_read :: "(nat \<Rightarrow> byte) \<Rightarrow> nat \<Rightarrow> nat \<Rightarrow> bytes" where
  "buf_read buf off n = map (\<lambda>i. buf (off + i)) [0..<n]"

lemma length_buf_read [simp]: "length (buf_read buf off n) = n"
  by (simp add: buf_read_def)

lemma buf_read_write: "off + n \<le> length bs \<Longrightarrow> buf_read (buf_write buf bs) off n = field off n bs"
  by (rule nth_equalityI) (auto simp: buf_read_def buf_write_def field_def)

section \<open>C strings\<close>

text \<open>The characters of a C string: everything before the first NUL.\<close>

definition c_str :: "bytes \<Rightarrow> bytes" where
  "c_str xs = takeWhile (\<lambda>b. b \<noteq> 0) xs"

definition char_at :: "bytes \<Rightarrow> byte" where
  "char_at xs = (case xs of [] \<Rightarrow> 0 | x # _ \<Rightarrow> x)"

definition strlen :: "bytes \<Rightarrow> nat" where
  "strlen xs = length (c_str xs)"

primrec strncmp :: "bytes \<Rightarrow> bytes \<Rightarrow> nat \<Rightarrow> int" where
  "strncmp xs ys 0 = 0"
| "strncmp xs ys (Suc n) =
     (if char_at xs \<noteq> char_at ys then uint (char_at xs) - uint (char_at ys)
      else if char_at xs = 0 then 0
      else strncmp (tl xs) (tl ys) n)"

definition strcmp :: "bytes \<Rightarrow> bytes \<Rightarrow> int" where
  "strcmp xs ys = strncmp xs ys (Suc (max (length xs) (length ys)))"

text \<open>\<open>strncpy\<close> writes exactly \<open>n\<close> characters, padding with NUL.\<close>

definition strncpy :: "bytes \<Rightarrow> bytes \<Rightarrow> nat \<Rightarrow> bytes" where
  "strncpy dst src n =
     (let s = take n (c_str src) in s @ replicate (n - length s) 0 @ drop n dst)"

lemma c_str_simps [simp]:
  "c_str [] = []"
  "c_str (x # xs) = (if x = 0 then [] else x # c_str xs)"
  by (simp_all add: c_str_def)

lemma strncmp_zero: "strncmp xs ys n = 0 \<longleftrightarrow> take n (c_str xs) = take n (c_str ys)"
proof (induction n arbitrary: xs ys)
  case (Suc n)
  then show ?case by (cases xs; cases ys) (auto simp: char_at_def uint_0_iff word_uint_eq_iff [symmetric])
qed simp

lemma length_c_str_le: "length (c_str xs) \<le> length xs"
  by (simp add: c_str_def length_takeWhile_le)

lemma strcmp_zero: "strcmp xs ys = 0 \<longleftrightarrow> c_str xs = c_str ys"
proof -
  have "length (c_str xs) \<le> Suc (max (length xs) (length ys))"
    and "length (c_str ys) \<le> Suc (max (length xs) (length ys))"
    using length_c_str_le [of xs] length_c_str_le [of ys] by linarith+
  then show ?thesis by (simp add: strcmp_def strncmp_zero del: strncmp.simps)
qed

lemma c_str_no_nul: "0 \<notin> set (c_str xs)"
  by (auto simp: c_str_def dest: set_takeWhileD)

lemma c_str_id: "0 \<notin> set xs \<Longrightarrow> c_str xs = xs"
  by (induction xs) auto

lemma c_str_append: "c_str (xs @ ys) = (if 0 \<in> set xs then c_str xs else xs @ c_str ys)"
  by (induction xs) auto

lemma c_str_idem [simp]: "c_str (c_str xs) = c_str xs"
  by (simp add: c_str_def)

lemma c_str_replicate: "0 < k \<Longrightarrow> c_str (xs @ replicate k 0 @ ys) = c_str xs"
  by (cases k) (auto simp: c_str_append c_str_id)

lemma c_str_terminated: "i < length xs \<Longrightarrow> xs ! i = 0 \<Longrightarrow> length (c_str xs) \<le> i"
proof (induction xs arbitrary: i)
  case (Cons x xs)
  then show ?case by (cases i) auto
qed simp

lemma c_str_take: "c_str (take n xs) = take n (c_str xs)"
proof (induction xs arbitrary: n)
  case (Cons x xs)
  then show ?case by (cases n) auto
qed simp

lemma length_strncpy [simp]: "n \<le> length dst \<Longrightarrow> length (strncpy dst src n) = length dst"
  by (simp add: strncpy_def Let_def)

section \<open>atoi\<close>

text \<open>
  White space, an optional sign, then decimal digits up to the first other character. Values
  outside the range of \<open>int\<close> are undefined in C; the model keeps them unbounded and the
  callers truncate the result to 16 bits or test it against zero.
\<close>

definition is_space :: "byte \<Rightarrow> bool" where
  "is_space c \<longleftrightarrow> c = 32 \<or> 9 \<le> c \<and> c \<le> 13"

definition is_digit :: "byte \<Rightarrow> bool" where
  "is_digit c \<longleftrightarrow> 48 \<le> c \<and> c \<le> 57"

fun digits_value :: "int \<Rightarrow> bytes \<Rightarrow> int" where
  "digits_value acc [] = acc"
| "digits_value acc (c # cs) =
     (if is_digit c then digits_value (10 * acc + (uint c - 48)) cs else acc)"

definition atoi :: "bytes \<Rightarrow> int" where
  "atoi s =
     (case dropWhile is_space (c_str s) of
        [] \<Rightarrow> 0
      | c # cs \<Rightarrow> if c = 45 then - digits_value 0 cs
                  else if c = 43 then digits_value 0 cs
                  else digits_value 0 (c # cs))"

end
