(* ===== verification/Wire.thy ===== *)
theory Wire
  imports CRuntime
begin

text \<open>
  The program's constants (\<open>include/consts.h\<close>), its message structures (\<open>include/route.h\<close>,
  \<open>token.h\<close>, \<open>join.h\<close>, \<open>unicast_msg.h\<close>) and their images in memory. The code sends a structure
  by copying its bytes, so each structure has an image \<open>bytes_of_...\<close> and a reading
  \<open>..._of_bytes\<close>, with the offsets, sizes and trailing padding of the System V ABI; padding is
  written as zero and never read. The locale \<open>wire_format\<close> states what the code relies on
  (reading back the image gives the structure), \<open>unicast_payload\<close> what the payload field of a
  unicast message adds; both are interpreted for every structure that travels.
\<close>

section \<open>Constants\<close>

abbreviation (input) MAX_DATA_SIZE :: nat where "MAX_DATA_SIZE \<equiv> 256"
abbreviation (input) MAX_NODE_NAME_SIZE :: nat where "MAX_NODE_NAME_SIZE \<equiv> 32"
abbreviation (input) SELECT_TIMEOUT_S :: int where "SELECT_TIMEOUT_S \<equiv> 10"
abbreviation (input) JOIN_MAGIC :: u32 where "JOIN_MAGIC \<equiv> 0xAAAABBBB"
abbreviation (input) MAX_PENDING_JOINS :: nat where "MAX_PENDING_JOINS \<equiv> 32"
abbreviation (input) JOIN_ACCEPT_TIMEOUT_S :: int where "JOIN_ACCEPT_TIMEOUT_S \<equiv> 1"
abbreviation (input) JOIN_ACCEPT_ACK_TIMEOUT_USEC :: int where "JOIN_ACCEPT_ACK_TIMEOUT_USEC \<equiv> 500000"
abbreviation (input) JOIN_ACCEPT_RETRIES :: int where "JOIN_ACCEPT_RETRIES \<equiv> 30"
abbreviation (input) JOIN_ACCEPT_ACK_MAX_ATTEMPTS :: int where "JOIN_ACCEPT_ACK_MAX_ATTEMPTS \<equiv> 2"
abbreviation (input) JOIN_REQUEST_TIMEOUT_S :: int where "JOIN_REQUEST_TIMEOUT_S \<equiv> 10"
abbreviation (input) JOIN_REQUEST_RETRIES :: int where "JOIN_REQUEST_RETRIES \<equiv> 65536"
abbreviation (input) JOIN_ACK_RESEND_S :: int where "JOIN_ACK_RESEND_S \<equiv> 1"
abbreviation (input) JOIN_ACK_MAX_RETRIES :: int where "JOIN_ACK_MAX_RETRIES \<equiv> 30"
abbreviation (input) JOIN_ACK_ACK_SEND_COUNT :: nat where "JOIN_ACK_ACK_SEND_COUNT \<equiv> 3"
abbreviation (input) JOIN_PENDING_TTL_S :: int where "JOIN_PENDING_TTL_S \<equiv> 200"
abbreviation (input) TOKEN_ACK_TIMEOUT_USEC :: int where "TOKEN_ACK_TIMEOUT_USEC \<equiv> 2500000"
abbreviation (input) TOKEN_ACK_MAX_ATTEMPTS :: int where "TOKEN_ACK_MAX_ATTEMPTS \<equiv> 0"
abbreviation (input) MAX_UNICAST_PAYLOAD :: nat where "MAX_UNICAST_PAYLOAD \<equiv> 512"

abbreviation (input) JOIN_REQUEST :: u16 where "JOIN_REQUEST \<equiv> 1"
abbreviation (input) JOIN_ACCEPT :: u16 where "JOIN_ACCEPT \<equiv> 2"
abbreviation (input) JOIN_COMMIT :: u16 where "JOIN_COMMIT \<equiv> 6"

abbreviation (input) UMSG_TOKEN :: u16 where "UMSG_TOKEN \<equiv> 1"
abbreviation (input) UMSG_JOIN_ACCEPT_U :: u16 where "UMSG_JOIN_ACCEPT_U \<equiv> 2"
abbreviation (input) UMSG_JOIN_ACK_U :: u16 where "UMSG_JOIN_ACK_U \<equiv> 4"
abbreviation (input) UMSG_JOIN_ACK_ACK_U :: u16 where "UMSG_JOIN_ACK_ACK_U \<equiv> 5"

section \<open>Node names\<close>

text \<open>
  A node name is a \<open>char[32]\<close>. The idiom of the code, \<open>strncpy(dst, src, 31); dst[31] = 0\<close>, is
  \<open>copy_name\<close>; the comparison \<open>strncmp(a, b, 32) == 0\<close> is \<open>same_name\<close>.
\<close>

type_synonym name = bytes

abbreviation zero_name :: name where "zero_name \<equiv> replicate 32 0"

definition copy_name :: "name \<Rightarrow> bytes \<Rightarrow> name" where
  "copy_name dst src = (strncpy dst src (MAX_NODE_NAME_SIZE - 1))[MAX_NODE_NAME_SIZE - 1 := 0]"

definition same_name :: "bytes \<Rightarrow> bytes \<Rightarrow> bool" where
  "same_name a b \<longleftrightarrow> strncmp a b MAX_NODE_NAME_SIZE = 0"

definition wf_name :: "name \<Rightarrow> bool" where
  "wf_name nm \<longleftrightarrow> length nm = MAX_NODE_NAME_SIZE \<and> nm ! (MAX_NODE_NAME_SIZE - 1) = 0"

definition pad_name :: "bytes \<Rightarrow> name" where
  "pad_name s = take 31 s @ replicate (32 - min 31 (length s)) 0"

lemma same_name_iff: "same_name a b \<longleftrightarrow> take 32 (c_str a) = take 32 (c_str b)"
  by (simp add: same_name_def strncmp_zero)

lemma same_name_refl [simp]: "same_name a a"
  by (simp add: same_name_iff)

lemma same_name_sym: "same_name a b \<Longrightarrow> same_name b a"
  by (simp add: same_name_iff)

lemma same_name_trans: "same_name a b \<Longrightarrow> same_name b c \<Longrightarrow> same_name a c"
  by (simp add: same_name_iff)

lemma wf_name_length: "wf_name nm \<Longrightarrow> length nm = 32"
  by (simp add: wf_name_def)

lemma wf_name_c_str: "wf_name nm \<Longrightarrow> length (c_str nm) \<le> 31"
  using c_str_terminated [of 31 nm] by (simp add: wf_name_def)

lemma same_name_wf: "wf_name a \<Longrightarrow> wf_name b \<Longrightarrow> same_name a b \<longleftrightarrow> c_str a = c_str b"
  using wf_name_c_str [of a] wf_name_c_str [of b] by (simp add: same_name_iff)

lemma copy_name_canon: "length dst = 32 \<Longrightarrow> copy_name dst src = pad_name (c_str src)"
proof -
  assume l: "length dst = 32"
  have d: "drop 31 dst = [dst ! 31]"
    using l by (simp add: Cons_nth_drop_Suc [symmetric])
  let ?s = "take 31 (c_str src)"
  have len: "length (?s @ replicate (31 - length ?s) 0) = 31" by simp
  have "copy_name dst src = (?s @ replicate (31 - length ?s) 0) @ [0]"
    unfolding copy_name_def strncpy_def Let_def
    using len by (simp add: d list_update_append)
  also have "\<dots> = ?s @ replicate (Suc (31 - length ?s)) 0"
    by (simp only: append_assoc replicate_append_same replicate_Suc)
  also have "Suc (31 - length ?s) = 32 - length ?s" by simp
  finally show ?thesis by (simp add: pad_name_def min.commute)
qed

lemma length_pad_name [simp]: "length (pad_name s) = 32"
  by (simp add: pad_name_def)

lemma wf_pad_name [simp, intro]: "wf_name (pad_name s)"
  by (simp add: wf_name_def pad_name_def nth_append)

lemma c_str_pad_name: "0 \<notin> set s \<Longrightarrow> c_str (pad_name s) = take 31 s"
proof -
  assume "0 \<notin> set s"
  then have "c_str (take 31 s) = take 31 s" by (meson in_set_takeD c_str_id)
  then show ?thesis
    using c_str_replicate [of "32 - min 31 (length s)" "take 31 s" "[]"] by (simp add: pad_name_def)
qed

lemma c_str_pad_c_str [simp]: "c_str (pad_name (c_str s)) = take 31 (c_str s)"
  by (simp add: c_str_pad_name c_str_no_nul)

lemma pad_name_c_str_wf: "wf_name nm \<Longrightarrow> c_str (pad_name (c_str nm)) = c_str nm"
  by (simp add: wf_name_c_str)

lemma wf_zero_name [simp]: "wf_name zero_name"
  by (simp add: wf_name_def)

lemma wf_copy_name: "length dst = 32 \<Longrightarrow> wf_name (copy_name dst src)"
  by (simp add: copy_name_canon)

lemma same_name_copy: "length dst = 32 \<Longrightarrow> wf_name src \<Longrightarrow> same_name (copy_name dst src) src"
  by (simp add: copy_name_canon same_name_wf wf_name_c_str)

lemma same_name_pad [simp]: "wf_name b \<Longrightarrow> same_name (pad_name (c_str b)) c = same_name b c"
  by (simp add: same_name_iff wf_name_c_str)

lemma same_name_pad2 [simp]: "wf_name b \<Longrightarrow> same_name c (pad_name (c_str b)) = same_name c b"
  by (simp add: same_name_iff wf_name_c_str)

lemma pad_pad [simp]: "pad_name (take 31 s) = pad_name s"
  by (simp add: pad_name_def min_def)

lemma wf_name_terminated: "length nm = 32 \<Longrightarrow> wf_name (nm[31 := 0])"
  by (simp add: wf_name_def)

section \<open>Structures\<close>

record route =
  node_name :: name
  unicast_port :: u16
  broadcast_port :: u16

record route_config =
  cfg_current :: route
  cfg_prev :: route
  cfg_next :: route

record token =
  tk_data :: bytes
  tk_sender :: name
  tk_receiver :: name
  tk_topo_version :: u32
  tk_is_empty :: bool

record join_message_header =
  magic :: u32
  msg_type :: u16
  reserved :: u16
  request_id :: u32

record join_commit =
  jc_header :: join_message_header
  jc_new_name :: name
  jc_topo_version :: u32

record join_request =
  jr_header :: join_message_header
  jr_node_name :: name
  jr_unicast_port :: u16

record join_accept =
  ja_header :: join_message_header
  ja_new_name :: name
  ja_new_unicast_port :: u16
  ja_before_name :: name
  ja_before_unicast_port :: u16
  ja_prev_name :: name
  ja_prev_unicast_port :: u16

record join_ack =
  jk_header :: join_message_header
  jk_from_name :: name

record join_ack_u =
  au_request_id :: u32
  au_from_name :: name

record join_ack_ack_u =
  aau_request_id :: u32
  aau_to_name :: name

record unicast_msg =
  um_type :: u16
  um_payload_len :: u16
  um_payload :: bytes

definition zero_route :: route where
  "zero_route = \<lparr>node_name = zero_name, unicast_port = 0, broadcast_port = 0\<rparr>"

definition zero_token :: token where
  "zero_token = \<lparr>tk_data = replicate MAX_DATA_SIZE 0, tk_sender = zero_name, tk_receiver = zero_name,
     tk_topo_version = 0, tk_is_empty = False\<rparr>"

definition zero_umsg :: unicast_msg where
  "zero_umsg = \<lparr>um_type = 0, um_payload_len = 0, um_payload = replicate MAX_UNICAST_PAYLOAD 0\<rparr>"

definition wf_route :: "route \<Rightarrow> bool" where
  "wf_route r \<longleftrightarrow> wf_name (node_name r)"

definition wf_token :: "token \<Rightarrow> bool" where
  "wf_token t \<longleftrightarrow> length (tk_data t) = MAX_DATA_SIZE \<and> length (tk_sender t) = MAX_NODE_NAME_SIZE
     \<and> length (tk_receiver t) = MAX_NODE_NAME_SIZE"

definition wf_umsg :: "unicast_msg \<Rightarrow> bool" where
  "wf_umsg m \<longleftrightarrow> length (um_payload m) = MAX_UNICAST_PAYLOAD"

lemma wf_zero [simp]: "wf_route zero_route" "wf_token zero_token" "wf_umsg zero_umsg"
  by (simp_all add: wf_route_def wf_token_def wf_umsg_def zero_route_def zero_token_def zero_umsg_def)

section \<open>Byte images\<close>

definition bytes_of_token :: "token \<Rightarrow> bytes" where
  "bytes_of_token t = tk_data t @ tk_sender t @ tk_receiver t @ le32 (tk_topo_version t)
     @ [if tk_is_empty t then 1 else 0] @ replicate 3 0"

definition token_of_bytes :: "bytes \<Rightarrow> token" where
  "token_of_bytes b = \<lparr>tk_data = field 0 256 b, tk_sender = field 256 32 b,
     tk_receiver = field 288 32 b, tk_topo_version = of_le32 (field 320 4 b),
     tk_is_empty = (field 324 1 b \<noteq> [0])\<rparr>"

definition bytes_of_header :: "join_message_header \<Rightarrow> bytes" where
  "bytes_of_header h = le32 (magic h) @ le16 (msg_type h) @ le16 (reserved h) @ le32 (request_id h)"

definition header_of_bytes :: "bytes \<Rightarrow> join_message_header" where
  "header_of_bytes b = \<lparr>magic = of_le32 (field 0 4 b), msg_type = of_le16 (field 4 2 b),
     reserved = of_le16 (field 6 2 b), request_id = of_le32 (field 8 4 b)\<rparr>"

definition bytes_of_commit :: "join_commit \<Rightarrow> bytes" where
  "bytes_of_commit c = bytes_of_header (jc_header c) @ jc_new_name c @ le32 (jc_topo_version c)"

definition commit_of_bytes :: "bytes \<Rightarrow> join_commit" where
  "commit_of_bytes b = \<lparr>jc_header = header_of_bytes (field 0 12 b), jc_new_name = field 12 32 b,
     jc_topo_version = of_le32 (field 44 4 b)\<rparr>"

definition bytes_of_request :: "join_request \<Rightarrow> bytes" where
  "bytes_of_request r = bytes_of_header (jr_header r) @ jr_node_name r @ le16 (jr_unicast_port r)
     @ replicate 2 0"

definition request_of_bytes :: "bytes \<Rightarrow> join_request" where
  "request_of_bytes b = \<lparr>jr_header = header_of_bytes (field 0 12 b), jr_node_name = field 12 32 b,
     jr_unicast_port = of_le16 (field 44 2 b)\<rparr>"

definition bytes_of_accept :: "join_accept \<Rightarrow> bytes" where
  "bytes_of_accept a = bytes_of_header (ja_header a)
     @ ja_new_name a @ le16 (ja_new_unicast_port a)
     @ ja_before_name a @ le16 (ja_before_unicast_port a)
     @ ja_prev_name a @ le16 (ja_prev_unicast_port a) @ replicate 2 0"

definition accept_of_bytes :: "bytes \<Rightarrow> join_accept" where
  "accept_of_bytes b = \<lparr>ja_header = header_of_bytes (field 0 12 b),
     ja_new_name = field 12 32 b, ja_new_unicast_port = of_le16 (field 44 2 b),
     ja_before_name = field 46 32 b, ja_before_unicast_port = of_le16 (field 78 2 b),
     ja_prev_name = field 80 32 b, ja_prev_unicast_port = of_le16 (field 112 2 b)\<rparr>"

definition bytes_of_ack_u :: "join_ack_u \<Rightarrow> bytes" where
  "bytes_of_ack_u a = le32 (au_request_id a) @ au_from_name a"

definition ack_u_of_bytes :: "bytes \<Rightarrow> join_ack_u" where
  "ack_u_of_bytes b = \<lparr>au_request_id = of_le32 (field 0 4 b), au_from_name = field 4 32 b\<rparr>"

definition bytes_of_ack_ack_u :: "join_ack_ack_u \<Rightarrow> bytes" where
  "bytes_of_ack_ack_u a = le32 (aau_request_id a) @ aau_to_name a"

definition ack_ack_u_of_bytes :: "bytes \<Rightarrow> join_ack_ack_u" where
  "ack_ack_u_of_bytes b = \<lparr>aau_request_id = of_le32 (field 0 4 b), aau_to_name = field 4 32 b\<rparr>"

definition bytes_of_umsg :: "unicast_msg \<Rightarrow> bytes" where
  "bytes_of_umsg m = le16 (um_type m) @ le16 (um_payload_len m) @ um_payload m"

definition umsg_of_bytes :: "bytes \<Rightarrow> unicast_msg" where
  "umsg_of_bytes b = \<lparr>um_type = of_le16 (field 0 2 b), um_payload_len = of_le16 (field 2 2 b),
     um_payload = field 4 512 b\<rparr>"

abbreviation (input) sizeof_token :: nat where "sizeof_token \<equiv> 328"
abbreviation (input) sizeof_join_header :: nat where "sizeof_join_header \<equiv> 12"
abbreviation (input) sizeof_join_commit :: nat where "sizeof_join_commit \<equiv> 48"
abbreviation (input) sizeof_join_request :: nat where "sizeof_join_request \<equiv> 48"
abbreviation (input) sizeof_join_accept :: nat where "sizeof_join_accept \<equiv> 116"
abbreviation (input) sizeof_join_ack_u :: nat where "sizeof_join_ack_u \<equiv> 36"
abbreviation (input) sizeof_join_ack_ack_u :: nat where "sizeof_join_ack_ack_u \<equiv> 36"
abbreviation (input) sizeof_umsg :: nat where "sizeof_umsg \<equiv> 516"

section \<open>The interface of a message structure\<close>

locale wire_format =
  fixes enc :: "'a \<Rightarrow> bytes" and dec :: "bytes \<Rightarrow> 'a" and ok :: "'a \<Rightarrow> bool" and size_of :: nat
  assumes length_enc: "ok x \<Longrightarrow> length (enc x) = size_of"
    and dec_enc: "ok x \<Longrightarrow> dec (enc x @ rest) = x"
begin

lemma dec_enc_exact: "ok x \<Longrightarrow> dec (enc x) = x"
  using dec_enc [of x "[]"] by simp

lemma enc_inject: "ok x \<Longrightarrow> ok y \<Longrightarrow> enc x = enc y \<Longrightarrow> x = y"
  by (metis dec_enc_exact)

lemma dec_overlay: "ok x \<Longrightarrow> dec (overlay buf (enc x)) = x"
  by (simp add: overlay_def dec_enc)

end

text \<open>
  The code puts a structure into a zeroed unicast message with three assignments
  (\<open>msg.type = ...; msg.payload_len = sizeof(x); memcpy(msg.payload, &x, sizeof(x))\<close>).
\<close>

definition mk_umsg :: "u16 \<Rightarrow> bytes \<Rightarrow> unicast_msg" where
  "mk_umsg ty b = zero_umsg\<lparr>um_type := ty, um_payload_len := of_nat (length b),
     um_payload := overlay (um_payload zero_umsg) b\<rparr>"

locale unicast_payload = wire_format +
  assumes fits: "size_of \<le> MAX_UNICAST_PAYLOAD"
begin

lemma umsg_payload: "ok x \<Longrightarrow> dec (um_payload (mk_umsg ty (enc x))) = x"
  by (simp add: mk_umsg_def dec_overlay)

lemma umsg_payload_len: "ok x \<Longrightarrow> unat (um_payload_len (mk_umsg ty (enc x))) = size_of"
  using fits by (simp add: mk_umsg_def length_enc unat_of_nat take_bit_eq_mod)

lemma umsg_wf: "ok x \<Longrightarrow> wf_umsg (mk_umsg ty (enc x))"
  using fits by (simp add: mk_umsg_def wf_umsg_def length_enc zero_umsg_def)

end

lemma umsg_type [simp]: "um_type (mk_umsg ty b) = ty"
  by (simp add: mk_umsg_def)

lemma header_rt [layout_simps]:
  "length (bytes_of_header h) = 12" "header_of_bytes (bytes_of_header h) = h"
  by (simp_all add: bytes_of_header_def header_of_bytes_def layout_simps)

interpretation token_fmt: unicast_payload bytes_of_token token_of_bytes wf_token sizeof_token
  by unfold_locales
    (auto simp: wf_token_def bytes_of_token_def token_of_bytes_def layout_simps field_def [of 0 "Suc 0"])

interpretation header_fmt: wire_format bytes_of_header header_of_bytes "\<lambda>_. True" sizeof_join_header
  by unfold_locales (simp_all add: bytes_of_header_def header_of_bytes_def layout_simps)

interpretation commit_fmt: wire_format bytes_of_commit commit_of_bytes
    "\<lambda>c. length (jc_new_name c) = 32" sizeof_join_commit
  by unfold_locales (simp_all add: bytes_of_commit_def commit_of_bytes_def layout_simps)

interpretation request_fmt: wire_format bytes_of_request request_of_bytes
    "\<lambda>r. length (jr_node_name r) = 32" sizeof_join_request
  by unfold_locales (simp_all add: bytes_of_request_def request_of_bytes_def layout_simps)

definition wf_accept :: "join_accept \<Rightarrow> bool" where
  "wf_accept a \<longleftrightarrow> length (ja_new_name a) = 32 \<and> length (ja_before_name a) = 32
     \<and> length (ja_prev_name a) = 32"

interpretation accept_fmt: unicast_payload bytes_of_accept accept_of_bytes wf_accept sizeof_join_accept
  by unfold_locales
    (simp_all add: wf_accept_def bytes_of_accept_def accept_of_bytes_def layout_simps)

interpretation ack_u_fmt: unicast_payload bytes_of_ack_u ack_u_of_bytes
    "\<lambda>a. length (au_from_name a) = 32" sizeof_join_ack_u
  by unfold_locales (simp_all add: bytes_of_ack_u_def ack_u_of_bytes_def layout_simps)

interpretation ack_ack_u_fmt: unicast_payload bytes_of_ack_ack_u ack_ack_u_of_bytes
    "\<lambda>a. length (aau_to_name a) = 32" sizeof_join_ack_ack_u
  by unfold_locales (simp_all add: bytes_of_ack_ack_u_def ack_ack_u_of_bytes_def layout_simps)

interpretation umsg_fmt: wire_format bytes_of_umsg umsg_of_bytes wf_umsg sizeof_umsg
  by unfold_locales (simp_all add: wf_umsg_def bytes_of_umsg_def umsg_of_bytes_def layout_simps)

lemma wf_of_bytes:
  "328 \<le> length b \<Longrightarrow> wf_token (token_of_bytes b)"
  "114 \<le> length b \<Longrightarrow> wf_accept (accept_of_bytes b)"
  "36 \<le> length b \<Longrightarrow> length (au_from_name (ack_u_of_bytes b)) = 32"
  "36 \<le> length b \<Longrightarrow> length (aau_to_name (ack_ack_u_of_bytes b)) = 32"
  "48 \<le> length b \<Longrightarrow> length (jr_node_name (request_of_bytes b)) = 32"
  "48 \<le> length b \<Longrightarrow> length (jc_new_name (commit_of_bytes b)) = 32"
  "516 \<le> length b \<Longrightarrow> wf_umsg (umsg_of_bytes b)"
  by (simp_all add: wf_token_def wf_accept_def wf_umsg_def token_of_bytes_def accept_of_bytes_def
      ack_u_of_bytes_def ack_ack_u_of_bytes_def request_of_bytes_def commit_of_bytes_def
      umsg_of_bytes_def layout_simps)

end
