(* ===== verification/Node_World.thy ===== *)
theory Node_World
  imports Wire
begin

text \<open>
  Everything a node touches besides its \<open>ring_state_t\<close>: the static tables of \<open>rudp.c\<close>
  (\<open>peers\<close>, \<open>pending_frames\<close>) and of \<open>broadcast.c\<close> (\<open>targets\<close>), and the operating system.

  The operating system is a parameter, carried by the record. Its answers are
  \<^item> \<open>w_script\<close>: what the unicast socket does each time it is polled, in order. An exhausted
    script is a socket on which nothing arrives any more;
  \<^item> \<open>w_clock\<close>, \<open>w_send_ok\<close>, \<open>w_malloc_ok\<close>, \<open>w_stack\<close>, \<open>w_getaddrinfo\<close>: the clock reading, the
    fate of \<open>sendto\<close> and \<open>malloc\<close>, the bytes of an uninitialised local buffer and the answer
    of the name service, each as a function of a counter that every such call advances, so
    that no two calls need to agree;
  \<^item> \<open>w_pton\<close>: \<open>inet_pton\<close>, as return value and address;
  and \<open>w_sent\<close> records every datagram handed to \<open>sendto\<close> successfully. \<open>sleep\<close> and \<open>usleep\<close>
  only let time pass, which the clock function already allows.
\<close>

record sockaddr_in =
  sin_family :: u16
  sin_port :: u16
  sin_addr :: u32

abbreviation (input) AF_INET :: u16 where "AF_INET \<equiv> 2"

datatype sock_event =
    Arrived sockaddr_in bytes \<comment> \<open>a datagram is there to be read\<close>
  | Idle \<comment> \<open>nothing within the timeout: \<open>select\<close> returns 0, \<open>recvfrom\<close> gives \<open>EAGAIN\<close>\<close>
  | Spurious \<comment> \<open>\<open>select\<close> returns without the socket in the ready set\<close>
  | Failed \<comment> \<open>the system call fails\<close>

record rudp_peer =
  rp_used :: bool
  rp_addr :: sockaddr_in
  rp_send_seq :: byte
  rp_expected_seq :: byte

text \<open>\<open>len\<close> of the C structure is the length of \<open>pf_data\<close>.\<close>

record pending_frame =
  pf_used :: bool
  pf_addr :: sockaddr_in
  pf_data :: bytes

record broadcast_target =
  bt_ifname :: bytes
  bt_addr :: sockaddr_in

record world =
  w_peers :: "rudp_peer list"
  w_pending :: "pending_frame list"
  w_targets :: "broadcast_target list"
  w_script :: "sock_event list"
  w_sent :: "(sockaddr_in \<times> bytes) list"
  w_tick :: nat
  w_clock :: "nat \<Rightarrow> int"
  w_send_ok :: "nat \<Rightarrow> bool"
  w_malloc_ok :: "nat \<Rightarrow> bool"
  w_stack :: "nat \<Rightarrow> nat \<Rightarrow> byte"
  w_pton :: "bytes \<Rightarrow> int \<times> u32"
  w_getaddrinfo :: "nat \<Rightarrow> bytes \<Rightarrow> u32 option"

abbreviation tick :: "world \<Rightarrow> world" where
  "tick w \<equiv> w\<lparr>w_tick := Suc (w_tick w)\<rparr>"

definition sendto :: "sockaddr_in \<Rightarrow> bytes \<Rightarrow> world \<Rightarrow> bool \<times> world" where
  "sendto dest b w =
     (if w_send_ok w (w_tick w) then (True, (tick w)\<lparr>w_sent := w_sent w @ [(dest, b)]\<rparr>)
      else (False, tick w))"

definition gettimeofday :: "world \<Rightarrow> int \<times> world" where
  "gettimeofday w = (w_clock w (w_tick w), tick w)"

definition time_now :: "world \<Rightarrow> int \<times> world" where
  "time_now w = (w_clock w (w_tick w) div 1000000, tick w)"

definition malloc :: "world \<Rightarrow> bool \<times> world" where
  "malloc w = (w_malloc_ok w (w_tick w), tick w)"

text \<open>
  An operation on the world keeps the system functions it was given: \<open>same_os\<close>. With
  \<open>same_targets\<close> for the broadcast targets this is the frame of every operation below.
\<close>

definition same_os :: "world \<Rightarrow> world \<Rightarrow> bool" where
  "same_os w w' \<longleftrightarrow> w_clock w' = w_clock w \<and> w_send_ok w' = w_send_ok w
     \<and> w_malloc_ok w' = w_malloc_ok w \<and> w_stack w' = w_stack w \<and> w_pton w' = w_pton w
     \<and> w_getaddrinfo w' = w_getaddrinfo w \<and> w_targets w' = w_targets w"

lemma same_os_refl [simp]: "same_os w w"
  by (simp add: same_os_def)

lemma same_os_trans: "same_os w w' \<Longrightarrow> same_os w' w'' \<Longrightarrow> same_os w w''"
  by (simp add: same_os_def)

lemma sendto_frame [frame_simps]:
  assumes "sendto d b w = (ok, w')"
  shows "w_peers w' = w_peers w" "w_pending w' = w_pending w" "w_script w' = w_script w" "same_os w w'"
    "w_sent w' = (if ok then w_sent w @ [(d, b)] else w_sent w)"
  using assms by (auto simp: sendto_def same_os_def split: if_splits)

lemma gettimeofday_frame [frame_simps]:
  assumes "gettimeofday w = (t, w')"
  shows "w_peers w' = w_peers w" "w_pending w' = w_pending w" "w_script w' = w_script w"
    "same_os w w'" "w_sent w' = w_sent w"
  using assms by (auto simp: gettimeofday_def same_os_def)

lemma time_now_frame [frame_simps]:
  assumes "time_now w = (t, w')"
  shows "w_peers w' = w_peers w" "w_pending w' = w_pending w" "w_script w' = w_script w"
    "same_os w w'" "w_sent w' = w_sent w"
  using assms by (auto simp: time_now_def same_os_def)

end
