(* ===== verification/Rudp.thy ===== *)
theory Rudp
  imports Node_World
begin

text \<open>
  \<open>rudp.c\<close> and \<open>rudp.h\<close>: stop-and-wait with alternating bits over UDP. A message is answered by
  an ACK, the ACK by an ACK_ACK. \<open>peers\<close> holds two bits per remote address, \<open>pending_frames\<close> the
  frames read from the socket while another frame was awaited.
  This theory holds the definitions; their properties are in \<open>Rudp_Props\<close>.
\<close>

abbreviation (input) MAX_FRAME_SIZE :: nat where "MAX_FRAME_SIZE \<equiv> 65535"
abbreviation (input) MAX_TRANSMISION_ATTEMPTS :: nat where "MAX_TRANSMISION_ATTEMPTS \<equiv> 3"
abbreviation (input) TIMEOUT_USEC :: int where "TIMEOUT_USEC \<equiv> 100000"
abbreviation (input) ACK_TIMEOUT_USEC :: int where "ACK_TIMEOUT_USEC \<equiv> 100000"
abbreviation (input) MAX_RUDP_PEERS :: nat where "MAX_RUDP_PEERS \<equiv> 32"
abbreviation (input) MAX_RUDP_PENDING :: nat where "MAX_RUDP_PENDING \<equiv> 256"
abbreviation (input) sizeof_header :: nat where "sizeof_header \<equiv> 8"

datatype frame_type_t = MESSAGE | ACK | ACK_ACK

fun frame_code :: "frame_type_t \<Rightarrow> u32" where
  "frame_code MESSAGE = 0"
| "frame_code ACK = 1"
| "frame_code ACK_ACK = 2"

section \<open>Frames\<close>

text \<open>
  A frame is a header of 8 bytes (the 4 bytes of the enum, \<open>seq_bit\<close>, padding) and its data.
  The type of a received frame can be any 32-bit number.
\<close>

definition frame_type :: "bytes \<Rightarrow> u32" where
  "frame_type f = of_le32 (field 0 4 f)"

definition frame_seq :: "bytes \<Rightarrow> byte" where
  "frame_seq f = f ! 4"

definition mk_frame :: "frame_type_t \<Rightarrow> byte \<Rightarrow> bytes \<Rightarrow> bytes" where
  "mk_frame ty seq payload = le32 (frame_code ty) @ [seq, 0, 0, 0] @ payload"

definition addr_equal :: "sockaddr_in \<Rightarrow> sockaddr_in \<Rightarrow> bool" where
  "addr_equal a b \<longleftrightarrow> sin_family a = sin_family b \<and> sin_port a = sin_port b \<and> sin_addr a = sin_addr b"

section \<open>The peer table\<close>

definition get_peer :: "sockaddr_in \<Rightarrow> bool \<Rightarrow> world \<Rightarrow> nat option \<times> world" where
  "get_peer addr create w =
     (case first_idx (\<lambda>p. rp_used p \<and> addr_equal (rp_addr p) addr) (w_peers w) of
        Some i \<Rightarrow> (Some i, w)
      | None \<Rightarrow>
          if \<not> create then (None, w)
          else (case first_idx (\<lambda>p. \<not> rp_used p) (w_peers w) of
                  Some i \<Rightarrow> (Some i, w\<lparr>w_peers := (w_peers w)[i :=
                     (w_peers w ! i)\<lparr>rp_used := True, rp_addr := addr, rp_send_seq := 0,
                        rp_expected_seq := 0\<rparr>]\<rparr>)
                | None \<Rightarrow> (None, w)))"

section \<open>The buffer of pending frames\<close>

definition pending_take_frame :: "sockaddr_in \<Rightarrow> frame_type_t \<Rightarrow> byte \<Rightarrow> world \<Rightarrow> bool \<times> world" where
  "pending_take_frame addr ty seq w =
     (case first_idx (\<lambda>p. pf_used p \<and> frame_type (pf_data p) = frame_code ty
              \<and> frame_seq (pf_data p) = seq \<and> addr_equal (pf_addr p) addr) (w_pending w) of
        Some i \<Rightarrow> (True, w\<lparr>w_pending := (w_pending w)[i := (w_pending w ! i)\<lparr>pf_used := False\<rparr>]\<rparr>)
      | None \<Rightarrow> (False, w))"

definition pending_take_message_any :: "world \<Rightarrow> (sockaddr_in \<times> bytes) option \<times> world" where
  "pending_take_message_any w =
     (case first_idx (\<lambda>p. pf_used p \<and> frame_type (pf_data p) = frame_code MESSAGE) (w_pending w) of
        Some i \<Rightarrow> (Some (pf_addr (w_pending w ! i), pf_data (w_pending w ! i)),
                   w\<lparr>w_pending := (w_pending w)[i := (w_pending w ! i)\<lparr>pf_used := False\<rparr>]\<rparr>)
      | None \<Rightarrow> (None, w))"

definition pending_store_frame :: "sockaddr_in \<Rightarrow> bytes \<Rightarrow> world \<Rightarrow> bool \<times> world" where
  "pending_store_frame addr f w =
     (if length f > MAX_FRAME_SIZE \<or> length f < sizeof_header then (False, w)
      else
        case (if frame_type f \<noteq> frame_code MESSAGE
              then first_idx (\<lambda>p. pf_used p \<and> addr_equal (pf_addr p) addr
                     \<and> frame_type (pf_data p) = frame_type f
                     \<and> frame_seq (pf_data p) = frame_seq f) (w_pending w)
              else None) of
          Some i \<Rightarrow> (True, w\<lparr>w_pending := (w_pending w)[i := (w_pending w ! i)\<lparr>pf_data := f\<rparr>]\<rparr>)
        | None \<Rightarrow>
            (case first_idx (\<lambda>p. \<not> pf_used p) (w_pending w) of
               Some i \<Rightarrow> (True, w\<lparr>w_pending := (w_pending w)[i :=
                            \<lparr>pf_used = True, pf_addr = addr, pf_data = f\<rparr>]\<rparr>)
             | None \<Rightarrow> (False, w)))"

definition pending_drop_peer_frames :: "sockaddr_in \<Rightarrow> frame_type_t \<Rightarrow> world \<Rightarrow> world" where
  "pending_drop_peer_frames addr ty w =
     w\<lparr>w_pending := map (\<lambda>p. if pf_used p
            \<and> (addr_equal (pf_addr p) addr \<and> frame_type (pf_data p) = frame_code ty)
          then p\<lparr>pf_used := False\<rparr> else p) (w_pending w)\<rparr>"

definition rudp_has_pending :: "world \<Rightarrow> bool" where
  "rudp_has_pending w \<longleftrightarrow>
     (\<exists>p\<in>set (w_pending w). pf_used p \<and> frame_type (pf_data p) = frame_code MESSAGE)"

definition send_ack_frame :: "sockaddr_in \<Rightarrow> byte \<Rightarrow> world \<Rightarrow> int \<times> world" where
  "send_ack_frame to seq w =
     (case sendto to (mk_frame ACK seq []) w of (ok, w') \<Rightarrow> (if ok then 0 else -1, w'))"

section \<open>Waiting for one frame\<close>

text \<open>
  \<open>c_int\<close> is the conversion to a 32-bit \<open>int\<close> of the elapsed time. The loop polls the socket
  once per event of the script. The bytes copied to \<open>out_buf\<close> are left out: both callers pass
  a buffer they never read.
\<close>

definition c_int :: "int \<Rightarrow> int" where
  "c_int x = sint (word_of_int x :: 32 word)"

fun wait_loop :: "sock_event list \<Rightarrow> int \<Rightarrow> sockaddr_in \<Rightarrow> frame_type_t \<Rightarrow> byte \<Rightarrow> int \<Rightarrow> world
    \<Rightarrow> int \<times> world" where
  "wait_loop [] start addr ty seq timeout_us w =
     (case gettimeofday w of (now, w1) \<Rightarrow> (0, w1\<lparr>w_script := []\<rparr>))"
| "wait_loop (ev # evs) start addr ty seq timeout_us w =
     (case gettimeofday w of (now, w1) \<Rightarrow>
        if timeout_us - c_int (now - start) \<le> 0 then (0, w1\<lparr>w_script := ev # evs\<rparr>)
        else
          case ev of
            Failed \<Rightarrow> (-1, w1\<lparr>w_script := evs\<rparr>)
          | Idle \<Rightarrow> (0, w1\<lparr>w_script := evs\<rparr>)
          | Spurious \<Rightarrow> wait_loop evs start addr ty seq timeout_us w1
          | Arrived from dgram \<Rightarrow>
              let f = take MAX_FRAME_SIZE dgram in
              if length f < sizeof_header then wait_loop evs start addr ty seq timeout_us w1
              else if frame_type f = frame_code MESSAGE then
                (case pending_store_frame from f w1 of (stored, w2) \<Rightarrow>
                   wait_loop evs start addr ty seq timeout_us
                     (if stored then snd (send_ack_frame from (frame_seq f) w2) else w2))
              else if addr_equal from addr \<and> frame_type f = frame_code ty \<and> frame_seq f = seq then
                (1, w1\<lparr>w_script := evs\<rparr>)
              else wait_loop evs start addr ty seq timeout_us (snd (pending_store_frame from f w1)))"

definition wait_for_frame :: "sockaddr_in \<Rightarrow> frame_type_t \<Rightarrow> byte \<Rightarrow> int \<Rightarrow> world \<Rightarrow> int \<times> world" where
  "wait_for_frame addr ty seq timeout_us w =
     (case gettimeofday w of (start, w1) \<Rightarrow>
        case pending_take_frame addr ty seq w1 of (taken, w2) \<Rightarrow>
          if taken then (1, w2)
          else wait_loop (w_script w2) start addr ty seq timeout_us w2)"

section \<open>Sending\<close>

text \<open>
  With \<open>max_attempts = 0\<close> the loop retries for ever, so it is a partial function:
  \<open>None\<close> is a call that does not return.
\<close>

partial_function (option) retry_loop ::
    "bytes \<Rightarrow> sockaddr_in \<Rightarrow> byte \<Rightarrow> int \<Rightarrow> int \<Rightarrow> int \<Rightarrow> world \<Rightarrow> (int \<times> world) option" where
  "retry_loop frame dest seq ack_timeout max_retry attempts w =
     (case sendto dest frame w of (ok, w1) \<Rightarrow>
        if \<not> ok then Some (-1, w1)
        else case wait_for_frame dest ACK seq ack_timeout w1 of (r, w2) \<Rightarrow>
          if r < 0 then Some (-1, w2)
          else if r = 0 then
            (if max_retry > 0 \<and> attempts + 1 \<ge> max_retry then Some (-1, w2)
             else retry_loop frame dest seq ack_timeout max_retry (attempts + 1) w2)
          else Some (0, w2))"

fun send_ack_acks :: "nat \<Rightarrow> sockaddr_in \<Rightarrow> byte \<Rightarrow> world \<Rightarrow> int \<times> world" where
  "send_ack_acks 0 dest seq w = (0, w)"
| "send_ack_acks (Suc n) dest seq w =
     (case sendto dest (mk_frame ACK_ACK seq []) w of (ok, w1) \<Rightarrow>
        if \<not> ok then (-1, w1) else send_ack_acks n dest seq w1)"

definition flip_send_bit :: "nat \<Rightarrow> world \<Rightarrow> world" where
  "flip_send_bit i w = w\<lparr>w_peers := (w_peers w)[i :=
     (w_peers w ! i)\<lparr>rp_send_seq := rp_send_seq (w_peers w ! i) XOR 1\<rparr>]\<rparr>"

definition rudp_sendto_with_limits ::
    "bytes \<Rightarrow> sockaddr_in \<Rightarrow> int \<Rightarrow> int \<Rightarrow> world \<Rightarrow> (int \<times> world) option" where
  "rudp_sendto_with_limits buf dest ack_timeout_us max_attempts w =
     (if sizeof_header + length buf > MAX_FRAME_SIZE then Some (-1, w)
      else case get_peer dest True w of
        (None, w1) \<Rightarrow> Some (-1, w1)
      | (Some i, w1) \<Rightarrow>
          (case malloc w1 of (ok, w2) \<Rightarrow>
             if \<not> ok then Some (-1, w2)
             else
               let seq = rp_send_seq (w_peers w2 ! i);
                   w3 = pending_drop_peer_frames dest ACK_ACK (pending_drop_peer_frames dest ACK w2);
                   ack_timeout = (if ack_timeout_us > 0 then ack_timeout_us else ACK_TIMEOUT_USEC)
               in do {
                 (rc, w4) \<leftarrow> retry_loop (mk_frame MESSAGE seq buf) dest seq ack_timeout max_attempts 0 w3;
                 if rc < 0 then Some (-1, w4)
                 else case send_ack_acks MAX_TRANSMISION_ATTEMPTS dest seq w4 of (rc2, w5) \<Rightarrow>
                   if rc2 < 0 then Some (-1, w5) else Some (0, flip_send_bit i w5)
               }))"

definition rudp_sendto :: "bytes \<Rightarrow> sockaddr_in \<Rightarrow> world \<Rightarrow> (int \<times> world) option" where
  "rudp_sendto buf dest w =
     rudp_sendto_with_limits buf dest ACK_TIMEOUT_USEC (int MAX_TRANSMISION_ATTEMPTS) w"

section \<open>Receiving\<close>

fun recv_loop :: "sock_event list \<Rightarrow> sockaddr_in \<Rightarrow> (nat \<Rightarrow> byte) \<Rightarrow> world
    \<Rightarrow> int \<times> sockaddr_in \<times> (nat \<Rightarrow> byte) \<times> world" where
  "recv_loop [] src buf w = (1, src, buf, w\<lparr>w_script := []\<rparr>)"
| "recv_loop (ev # evs) src buf w =
     (case ev of
        Failed \<Rightarrow> (-1, src, buf, w\<lparr>w_script := evs\<rparr>)
      | Idle \<Rightarrow> (1, src, buf, w\<lparr>w_script := evs\<rparr>)
      | Spurious \<Rightarrow> (1, src, buf, w\<lparr>w_script := evs\<rparr>)
      | Arrived from dgram \<Rightarrow>
          let f = take MAX_FRAME_SIZE dgram; buf1 = buf_write buf f in
          if length f < sizeof_header then recv_loop evs src buf1 w
          else if frame_type f \<noteq> frame_code MESSAGE then
            recv_loop evs src buf1 (snd (pending_store_frame from f w))
          else (0, from, buf1, w\<lparr>w_script := evs\<rparr>))"

definition receive_message_frame :: "sockaddr_in \<Rightarrow> (nat \<Rightarrow> byte) \<Rightarrow> world
    \<Rightarrow> int \<times> sockaddr_in \<times> (nat \<Rightarrow> byte) \<times> world" where
  "receive_message_frame src buf w =
     (case pending_take_message_any w of
        (Some (addr, f), w1) \<Rightarrow> (0, addr, buf_write buf f, w1)
      | (None, w1) \<Rightarrow> recv_loop (w_script w1) src buf w1)"

text \<open>The inner loop of \<open>rudp_recvfrom\<close>: ACK until an ACK_ACK comes, at most three times.\<close>

fun ack_loop :: "nat \<Rightarrow> sockaddr_in \<Rightarrow> byte \<Rightarrow> world \<Rightarrow> int \<times> world" where
  "ack_loop 0 src seq w = (0, w)"
| "ack_loop (Suc n) src seq w =
     (case send_ack_frame src seq w of (rc, w1) \<Rightarrow>
        if rc < 0 then (-1, w1)
        else case wait_for_frame src ACK_ACK seq TIMEOUT_USEC w1 of (r, w2) \<Rightarrow>
          if r < 0 then (-1, w2)
          else if r = 0 then ack_loop n src seq w2
          else (1, w2))"

definition flip_expected_bit :: "nat \<Rightarrow> world \<Rightarrow> world" where
  "flip_expected_bit i w = w\<lparr>w_peers := (w_peers w)[i :=
     (w_peers w ! i)\<lparr>rp_expected_seq := rp_expected_seq (w_peers w ! i) XOR 1\<rparr>]\<rparr>"

section \<open>The receive loop terminates\<close>

text \<open>
  Every round of \<open>rudp_recvfrom\<close> takes a message out of the pending buffer or an event out of
  the script, and waiting for an ACK_ACK moves events into the buffer at most: \<open>work\<close> decreases.
\<close>

definition is_message :: "pending_frame \<Rightarrow> bool" where
  "is_message p \<longleftrightarrow> pf_used p \<and> frame_type (pf_data p) = frame_code MESSAGE"

definition work :: "world \<Rightarrow> nat" where
  "work w = n_used is_message (w_pending w) + length (w_script w)"

lemma n_used_drop_slot:
  "i < length ps \<Longrightarrow> \<not> u y \<Longrightarrow> n_used u (ps[i := y]) \<le> n_used u ps"
  using n_used_update [of i ps u y] by simp

lemma n_used_put_slot: "i < length ps \<Longrightarrow> n_used u (ps[i := y]) \<le> Suc (n_used u ps)"
  using n_used_update [of i ps u y] by (auto split: if_splits)

lemma pending_take_frame_work:
  "pending_take_frame a ty s w = (t, w') \<Longrightarrow>
   n_used is_message (w_pending w') \<le> n_used is_message (w_pending w) \<and> w_script w' = w_script w"
  by (auto simp: pending_take_frame_def is_message_def split: option.splits
      intro!: n_used_drop_slot dest: first_idx_less)

lemma pending_store_frame_work:
  "pending_store_frame a f w = (t, w') \<Longrightarrow>
   n_used is_message (w_pending w') \<le> Suc (n_used is_message (w_pending w)) \<and> w_script w' = w_script w"
  by (auto simp: pending_store_frame_def split: option.splits if_splits
      intro!: n_used_put_slot dest!: first_idx_less)

lemma pending_store_frame_work_other:
  assumes "pending_store_frame a f w = (t, w')" and "frame_type f \<noteq> frame_code MESSAGE"
  shows "n_used is_message (w_pending w') \<le> n_used is_message (w_pending w)"
  using assms by (auto simp: pending_store_frame_def is_message_def split: option.splits if_splits
      intro!: n_used_drop_slot dest!: first_idx_less)

lemma send_ack_frame_world [frame_simps]:
  assumes "send_ack_frame a s w = (rc, w')"
  shows "w_peers w' = w_peers w" "w_pending w' = w_pending w" "w_script w' = w_script w" "same_os w w'"
  using assms by (auto simp: send_ack_frame_def frame_simps split: prod.splits)

lemma gettimeofday_split:
  "(case gettimeofday w of (now, w1) \<Rightarrow> P now w1) = P (w_clock w (w_tick w)) (tick w)"
  by (simp add: gettimeofday_def)

lemma wait_loop_work:
  "wait_loop evs st a ty s tmo w = (r, w') \<Longrightarrow>
   work w' \<le> n_used is_message (w_pending w) + length evs"
proof (induction evs arbitrary: w)
  case Nil
  then show ?case by (auto simp: gettimeofday_def work_def)
next
  case (Cons ev evs)
  show ?case
  proof (cases "tmo - c_int (w_clock w (w_tick w) - st) \<le> 0")
    case True
    with Cons.prems show ?thesis by (auto simp: gettimeofday_def work_def)
  next
    case False
    show ?thesis
    proof (cases ev)
      case (Arrived frm dgram)
      let ?f = "take MAX_FRAME_SIZE dgram"
      obtain b w2 where st: "pending_store_frame frm ?f (tick w) = (b, w2)"
        by (cases "pending_store_frame frm ?f (tick w)")
      obtain rc w3 where ack: "send_ack_frame frm (frame_seq ?f) w2 = (rc, w3)"
        by (cases "send_ack_frame frm (frame_seq ?f) w2")
      note [simp] = gettimeofday_def Let_def st ack
      have "n_used is_message (w_pending w2) \<le> Suc (n_used is_message (w_pending w))"
        using pending_store_frame_work [OF st] by simp
      moreover have "w_pending w3 = w_pending w2" by (rule send_ack_frame_world [OF ack])
      ultimately show ?thesis
        using Cons.prems False Arrived Cons.IH [of w2] Cons.IH [of w3] Cons.IH [of "tick w"]
        by (auto simp: work_def split: if_splits)
    qed (use Cons False in \<open>auto simp: gettimeofday_def work_def dest!: Cons.IH\<close>)
  qed
qed

lemma wait_for_frame_work: "wait_for_frame a ty s tmo w = (r, w') \<Longrightarrow> work w' \<le> work w"
  using pending_take_frame_work [of a ty s "tick w"] wait_loop_work
  by (fastforce simp: wait_for_frame_def gettimeofday_def work_def split: prod.splits if_splits)

lemma ack_loop_work: "ack_loop n a s w = (r, w') \<Longrightarrow> work w' \<le> work w"
proof (induction n arbitrary: w)
  case (Suc n)
  obtain rc w1 where a1: "send_ack_frame a s w = (rc, w1)" by (cases "send_ack_frame a s w")
  obtain r2 w2 where a2: "wait_for_frame a ACK_ACK s TIMEOUT_USEC w1 = (r2, w2)"
    by (cases "wait_for_frame a ACK_ACK s TIMEOUT_USEC w1")
  have "work w1 = work w" using send_ack_frame_world [OF a1] by (simp add: work_def)
  then show ?case using Suc.prems Suc.IH [of w2] wait_for_frame_work [OF a2]
    by (auto simp: a1 a2 split: if_splits)
qed simp

lemma recv_loop_work:
  "recv_loop evs src buf w = (rc, src', buf', w') \<Longrightarrow>
   work w' \<le> n_used is_message (w_pending w) + length evs
   \<and> (rc = 0 \<longrightarrow> work w' < n_used is_message (w_pending w) + length evs)"
proof (induction evs arbitrary: buf w)
  case Nil
  then show ?case by (auto simp: work_def)
next
  case (Cons ev evs)
  show ?case
  proof (cases ev)
    case (Arrived frm dgram)
    let ?f = "take MAX_FRAME_SIZE dgram"
    obtain b w2 where st: "pending_store_frame frm ?f w = (b, w2)"
      by (cases "pending_store_frame frm ?f w")
    show ?thesis
    proof (cases "sizeof_header \<le> length ?f \<and> frame_type ?f \<noteq> frame_code MESSAGE")
      case True
      with Cons.prems Arrived have "recv_loop evs src (buf_write buf ?f) w2 = (rc, src', buf', w')"
        by (auto simp: Let_def st split: if_splits)
      from Cons.IH [OF this] pending_store_frame_work_other [OF st] True show ?thesis by auto
    next
      case False
      then show ?thesis using Cons.prems Arrived Cons.IH [of "buf_write buf ?f" w]
        by (auto simp: Let_def work_def split: if_splits)
    qed
  qed (use Cons.prems in \<open>auto simp: work_def\<close>)
qed

lemma receive_message_frame_work:
  assumes "receive_message_frame src buf w = (rc, src', buf', w')"
  shows "work w' \<le> work w" "rc = 0 \<Longrightarrow> work w' < work w"
proof -
  have "work w' \<le> work w \<and> (rc = 0 \<longrightarrow> work w' < work w)"
  proof (cases "first_idx (\<lambda>p. pf_used p \<and> frame_type (pf_data p) = frame_code MESSAGE) (w_pending w)")
    case None
    then have "recv_loop (w_script w) src buf w = (rc, src', buf', w')"
      using assms unfolding receive_message_frame_def pending_take_message_any_def None by simp
    from recv_loop_work [OF this] show ?thesis by (simp add: work_def)
  next
    case (Some i)
    then have i: "i < length (w_pending w)" "is_message (w_pending w ! i)"
      by (auto simp: is_message_def dest: first_idx_SomeD)
    have "w' = w\<lparr>w_pending := (w_pending w)[i := (w_pending w ! i)\<lparr>pf_used := False\<rparr>]\<rparr>"
      using assms unfolding receive_message_frame_def pending_take_message_any_def Some by simp
    then show ?thesis
      using i n_used_update [of i "w_pending w" is_message "(w_pending w ! i)\<lparr>pf_used := False\<rparr>"]
      by (auto simp: work_def is_message_def)
  qed
  then show "work w' \<le> work w" "rc = 0 \<Longrightarrow> work w' < work w" by auto
qed

lemma get_peer_world [frame_simps]:
  assumes "get_peer a c w = (r, w')"
  shows "w_pending w' = w_pending w" "w_script w' = w_script w" "w_sent w' = w_sent w" "same_os w w'"
  using assms by (auto simp: get_peer_def same_os_def split: option.splits if_splits)

lemma work_get_peer: "get_peer a c w = (r, w') \<Longrightarrow> work w' = work w"
  by (simp add: work_def get_peer_world)

lemma recvfrom_step_work:
  assumes "receive_message_frame src buf0 w = (0, src1, buf, w1)"
    and "get_peer src1 True w1 = (Some i, w2)" and "ack_loop n src1 seq w2 = (arc, w3)"
    and "receive_message_frame src1 buf w3 = (0, src2, buf2, w4)"
  shows "work w4 < work w"
  using receive_message_frame_work [OF assms(1)] work_get_peer [OF assms(2)]
    ack_loop_work [OF assms(3)] receive_message_frame_work [OF assms(4)] by simp

section \<open>rudp_recvfrom\<close>

text \<open>
  The bytes handed to the caller are the second component, meaningful when the first, the return
  value, is 0. \<open>len\<close> bytes are copied whatever the length of the frame: what lies behind a short
  frame is what the uninitialised buffer held. After a duplicate one more message is
  received and then dropped by the next round of the loop, as in the source.
\<close>

function recvfrom_loop :: "nat \<Rightarrow> sockaddr_in \<Rightarrow> world \<Rightarrow> int \<times> bytes \<times> sockaddr_in \<times> world" where
  "recvfrom_loop len src w =
     (case receive_message_frame src (w_stack w (w_tick w)) w of (rc, src1, buf, w1) \<Rightarrow>
        if rc \<noteq> 0 then (rc, [], src1, w1)
        else case get_peer src1 True w1 of
          (None, w2) \<Rightarrow> (-1, [], src1, w2)
        | (Some i, w2) \<Rightarrow>
            let seq = buf 4; is_expected = (seq = rp_expected_seq (w_peers w2 ! i)) in
            (case ack_loop MAX_TRANSMISION_ATTEMPTS src1 seq w2 of (arc, w3) \<Rightarrow>
               if arc < 0 then (-1, [], src1, w3)
               else if is_expected then (0, buf_read buf sizeof_header len, src1, flip_expected_bit i w3)
               else (case receive_message_frame src1 buf w3 of (rc2, src2, buf2, w4) \<Rightarrow>
                       if rc2 \<noteq> 0 then (1, [], src2, w4)
                       else recvfrom_loop len src2 w4)))"
  by pat_completeness auto
termination
proof (relation "measure (\<lambda>(len, src, w). work w)", goal_cases)
  case 2
  then show ?case by clarsimp (metis recvfrom_step_work)
qed simp

declare recvfrom_loop.simps [simp del]

definition rudp_recvfrom :: "nat \<Rightarrow> sockaddr_in \<Rightarrow> world \<Rightarrow> int \<times> bytes \<times> sockaddr_in \<times> world" where
  "rudp_recvfrom len src w =
     (if sizeof_header + len > MAX_FRAME_SIZE then (-1, [], src, w) else recvfrom_loop len src w)"

end
