(* ===== verification/Rudp_Props.thy ===== *)
theory Rudp_Props
  imports Rudp
begin

text \<open>
  Properties of the reliable UDP of \<open>Rudp\<close>: the invariant of its two static tables, what sending
  and receiving do to the alternating bits (seen as a map from addresses), the bound on the
  number of transmissions, and where a delivered message comes from.
\<close>

section \<open>The invariant of the tables\<close>

definition peer_clash :: "rudp_peer \<Rightarrow> rudp_peer \<Rightarrow> bool" where
  "peer_clash p q \<longleftrightarrow> rp_used p \<and> rp_used q \<and> addr_equal (rp_addr p) (rp_addr q)"

definition ack_clash :: "pending_frame \<Rightarrow> pending_frame \<Rightarrow> bool" where
  "ack_clash p q \<longleftrightarrow> pf_used p \<and> pf_used q \<and> addr_equal (pf_addr p) (pf_addr q)
     \<and> frame_type (pf_data p) \<noteq> frame_code MESSAGE
     \<and> frame_type (pf_data p) = frame_type (pf_data q) \<and> frame_seq (pf_data p) = frame_seq (pf_data q)"

definition is_bit :: "byte \<Rightarrow> bool" where
  "is_bit b \<longleftrightarrow> b = 0 \<or> b = 1"

definition peers_inv :: "rudp_peer list \<Rightarrow> bool" where
  "peers_inv ps \<longleftrightarrow> length ps = MAX_RUDP_PEERS \<and> no_clash peer_clash ps
     \<and> (\<forall>p\<in>set ps. is_bit (rp_send_seq p) \<and> is_bit (rp_expected_seq p))"

definition pending_inv :: "pending_frame list \<Rightarrow> bool" where
  "pending_inv ps \<longleftrightarrow> length ps = MAX_RUDP_PENDING \<and> no_clash ack_clash ps
     \<and> (\<forall>p\<in>set ps. pf_used p \<longrightarrow> sizeof_header \<le> length (pf_data p) \<and> length (pf_data p) \<le> MAX_FRAME_SIZE)"

definition rudp_inv :: "world \<Rightarrow> bool" where
  "rudp_inv w \<longleftrightarrow> peers_inv (w_peers w) \<and> pending_inv (w_pending w)"

lemma addr_equal_iff [simp]: "addr_equal a b \<longleftrightarrow> a = b"
  by (cases a; cases b) (auto simp: addr_equal_def)

lemma is_bit_flip: "is_bit b \<Longrightarrow> is_bit (b XOR 1)"
  by (auto simp: is_bit_def)

lemma flip_flip [simp]: "(b :: byte) XOR 1 XOR 1 = b"
  by (simp add: xor.assoc)

lemma peers_inv_get_peer:
  assumes "peers_inv (w_peers w)" and "get_peer a c w = (r, w')"
  shows "peers_inv (w_peers w')"
proof (cases "w' = w")
  case False
  then obtain i where none: "first_idx (\<lambda>p. rp_used p \<and> addr_equal (rp_addr p) a) (w_peers w) = None"
    and i: "first_idx (\<lambda>p. \<not> rp_used p) (w_peers w) = Some i"
    and w': "w' = w\<lparr>w_peers := (w_peers w)[i := (w_peers w ! i)\<lparr>rp_used := True, rp_addr := a,
        rp_send_seq := 0, rp_expected_seq := 0\<rparr>]\<rparr>"
    using assms(2) by (auto simp: get_peer_def split: option.splits if_splits)
  have "no_clash peer_clash (w_peers w')"
    using assms(1) none unfolding w' first_idx_None
    by (auto simp: peers_inv_def peer_clash_def intro!: no_clash_update)
  with assms(1) show ?thesis
    by (auto simp: peers_inv_def w' is_bit_def dest!: set_update_subset)
qed (use assms in simp)

lemma peers_inv_update:
  assumes "peers_inv ps" and "rp_used p = rp_used (ps ! i)" "rp_addr p = rp_addr (ps ! i)"
    and "i < length ps \<Longrightarrow> is_bit (rp_send_seq p) \<and> is_bit (rp_expected_seq p)"
  shows "peers_inv (ps[i := p])"
proof -
  have "no_clash peer_clash (ps[i := p])"
    using assms(1-3) by (auto simp: peers_inv_def peer_clash_def intro!: no_clash_rewrite)
  then show ?thesis using assms(1,4)
    by (cases "i < length ps") (auto simp: peers_inv_def list_update_beyond dest!: set_update_subset)
qed

lemma peers_inv_flip:
  assumes "peers_inv (w_peers w)"
  shows "peers_inv (w_peers (flip_send_bit i w))" "peers_inv (w_peers (flip_expected_bit i w))"
proof -
  have b: "is_bit (rp_send_seq (w_peers w ! i)) \<and> is_bit (rp_expected_seq (w_peers w ! i))"
    if "i < length (w_peers w)" using assms that by (auto simp: peers_inv_def)
  show "peers_inv (w_peers (flip_send_bit i w))"
    unfolding flip_send_bit_def using b by (auto intro!: peers_inv_update [OF assms] is_bit_flip)
  show "peers_inv (w_peers (flip_expected_bit i w))"
    unfolding flip_expected_bit_def using b by (auto intro!: peers_inv_update [OF assms] is_bit_flip)
qed

lemma pending_inv_free:
  "pending_inv ps \<Longrightarrow> pending_inv (ps[i := (ps ! i)\<lparr>pf_used := False\<rparr>])"
  by (auto simp: pending_inv_def ack_clash_def intro!: no_clash_update dest!: set_update_subset)

lemma pending_inv_take:
  "pending_inv (w_pending w) \<Longrightarrow> pending_take_frame a ty s w = (t, w') \<Longrightarrow> pending_inv (w_pending w')"
  by (auto simp: pending_take_frame_def pending_inv_free split: option.splits)

lemma pending_inv_take_any:
  "pending_inv (w_pending w) \<Longrightarrow> pending_take_message_any w = (r, w') \<Longrightarrow> pending_inv (w_pending w')"
  by (auto simp: pending_take_message_any_def pending_inv_free split: option.splits)

lemma pending_inv_drop:
  "pending_inv (w_pending w) \<Longrightarrow> pending_inv (w_pending (pending_drop_peer_frames a ty w))"
  by (auto simp: pending_inv_def pending_drop_peer_frames_def ack_clash_def
      intro!: no_clash_map split: if_splits)

lemma pending_store_cases:
  assumes "pending_store_frame a f w = (b, w')"
  obtains "\<not> b" "w' = w"
  | i where "b" "i < length (w_pending w)" "sizeof_header \<le> length f" "length f \<le> MAX_FRAME_SIZE"
      "frame_type f \<noteq> frame_code MESSAGE" "pf_used (w_pending w ! i)" "pf_addr (w_pending w ! i) = a"
      "frame_type (pf_data (w_pending w ! i)) = frame_type f"
      "frame_seq (pf_data (w_pending w ! i)) = frame_seq f"
      "w' = w\<lparr>w_pending := (w_pending w)[i := (w_pending w ! i)\<lparr>pf_data := f\<rparr>]\<rparr>"
  | i where "b" "i < length (w_pending w)" "sizeof_header \<le> length f" "length f \<le> MAX_FRAME_SIZE"
      "\<not> pf_used (w_pending w ! i)"
      "frame_type f \<noteq> frame_code MESSAGE \<longrightarrow>
        (\<forall>p\<in>set (w_pending w). \<not> (pf_used p \<and> pf_addr p = a \<and> frame_type (pf_data p) = frame_type f
          \<and> frame_seq (pf_data p) = frame_seq f))"
      "w' = w\<lparr>w_pending := (w_pending w)[i := \<lparr>pf_used = True, pf_addr = a, pf_data = f\<rparr>]\<rparr>"
proof (cases "length f > MAX_FRAME_SIZE \<or> length f < sizeof_header")
  case True
  with assms show ?thesis by (intro that(1)) (auto simp: pending_store_frame_def)
next
  case False
  let ?dup = "if frame_type f \<noteq> frame_code MESSAGE
              then first_idx (\<lambda>p. pf_used p \<and> addr_equal (pf_addr p) a
                     \<and> frame_type (pf_data p) = frame_type f
                     \<and> frame_seq (pf_data p) = frame_seq f) (w_pending w)
              else None"
  show ?thesis
  proof (cases ?dup)
    case (Some i)
    then have "frame_type f \<noteq> frame_code MESSAGE"
      and d: "first_idx (\<lambda>p. pf_used p \<and> addr_equal (pf_addr p) a
                     \<and> frame_type (pf_data p) = frame_type f
                     \<and> frame_seq (pf_data p) = frame_seq f) (w_pending w) = Some i"
      by (auto split: if_splits)
    with False assms Some first_idx_SomeD [OF d] show ?thesis
      by (intro that(2) [of i]) (auto simp: pending_store_frame_def)
  next
    case None
    then have n: "frame_type f \<noteq> frame_code MESSAGE \<longrightarrow>
        (\<forall>p\<in>set (w_pending w). \<not> (pf_used p \<and> pf_addr p = a \<and> frame_type (pf_data p) = frame_type f
          \<and> frame_seq (pf_data p) = frame_seq f))"
      by (auto simp: first_idx_None split: if_splits)
    have eq: "pending_store_frame a f w = (case first_idx (\<lambda>p. \<not> pf_used p) (w_pending w) of
               Some i \<Rightarrow> (True, w\<lparr>w_pending := (w_pending w)[i :=
                            \<lparr>pf_used = True, pf_addr = a, pf_data = f\<rparr>]\<rparr>)
             | None \<Rightarrow> (False, w))"
      using False unfolding pending_store_frame_def None by simp
    show ?thesis
    proof (cases "first_idx (\<lambda>p. \<not> pf_used p) (w_pending w)")
      case None
      with assms eq show ?thesis by (intro that(1)) auto
    next
      case (Some i)
      with assms eq False n first_idx_SomeD [OF Some] show ?thesis by (intro that(3) [of i]) auto
    qed
  qed
qed

lemma pending_inv_store:
  assumes "pending_inv (w_pending w)" and "pending_store_frame a f w = (b, w')"
  shows "pending_inv (w_pending w')"
  using assms(2)
proof (cases rule: pending_store_cases)
  case (2 i)
  have "no_clash ack_clash ((w_pending w)[i := (w_pending w ! i)\<lparr>pf_data := f\<rparr>])"
    using assms(1) 2 by (intro no_clash_rewrite) (auto simp: pending_inv_def ack_clash_def)
  with assms(1) 2 show ?thesis by (auto simp: pending_inv_def dest!: set_update_subset)
next
  case (3 i)
  have "no_clash ack_clash ((w_pending w)[i := \<lparr>pf_used = True, pf_addr = a, pf_data = f\<rparr>])"
    using assms(1) 3 by (auto simp: pending_inv_def ack_clash_def intro!: no_clash_update)
  with assms(1) 3 show ?thesis by (auto simp: pending_inv_def dest!: set_update_subset)
qed (use assms(1) in simp)

section \<open>Waiting\<close>

text \<open>
  The frame of every operation that touches neither bit: the operating system is the same,
  the peer table is the same, the pending buffer keeps its invariant, and the log of sent
  datagrams has only grown, by datagrams with property \<open>P\<close>.
\<close>

definition quiet :: "(sockaddr_in \<times> bytes \<Rightarrow> bool) \<Rightarrow> world \<Rightarrow> world \<Rightarrow> bool" where
  "quiet P w w' \<longleftrightarrow> same_os w w' \<and> w_peers w' = w_peers w
     \<and> (pending_inv (w_pending w) \<longrightarrow> pending_inv (w_pending w'))
     \<and> (\<exists>xs. w_sent w' = w_sent w @ xs \<and> (\<forall>x\<in>set xs. P x))"

lemma quiet_refl [simp]: "quiet P w w"
  by (simp add: quiet_def)

lemma quiet_trans: "quiet P w w' \<Longrightarrow> quiet P w' w'' \<Longrightarrow> quiet P w w''"
  unfolding quiet_def by (auto intro: same_os_trans)

lemma quiet_mono: "quiet P w w' \<Longrightarrow> (\<And>x. P x \<Longrightarrow> Q x) \<Longrightarrow> quiet Q w w'"
  unfolding quiet_def by blast

lemma quiet_script [simp]: "quiet P w (w'\<lparr>w_script := s\<rparr>) = quiet P w w'"
  by (simp add: quiet_def same_os_def)

lemma quiet_tick: "quiet P w w' \<Longrightarrow> quiet P w (tick w')"
  by (simp add: quiet_def same_os_def)

lemma quiet_rudp_inv: "quiet P w w' \<Longrightarrow> rudp_inv w \<Longrightarrow> rudp_inv w'"
  by (simp add: quiet_def rudp_inv_def)

lemma quiet_peers: "quiet P w w' \<Longrightarrow> w_peers w' = w_peers w"
  by (simp add: quiet_def)

definition is_ack :: "sockaddr_in \<times> bytes \<Rightarrow> bool" where
  "is_ack x \<longleftrightarrow> (\<exists>seq. snd x = mk_frame ACK seq [])"

lemma quiet_sendto: "sendto d b w = (ok, w') \<Longrightarrow> P (d, b) \<Longrightarrow> quiet P w w'"
  using sendto_frame [of d b w ok w'] by (auto simp: quiet_def)

lemma quiet_send_ack:
  assumes "send_ack_frame a s w = (rc, w')" and P: "\<And>x. is_ack x \<Longrightarrow> P x"
  shows "quiet P w w'"
proof -
  have "P (a, mk_frame ACK s [])" by (rule P) (auto simp: is_ack_def)
  with assms(1) show ?thesis
    by (auto simp: send_ack_frame_def split: prod.splits intro!: quiet_sendto)
qed

lemma quiet_store: "pending_store_frame a f w = (b, w') \<Longrightarrow> quiet P w w'"
proof -
  assume s: "pending_store_frame a f w = (b, w')"
  note inv = pending_inv_store [OF _ s]
  from s show ?thesis
    by (cases rule: pending_store_cases) (use inv in \<open>auto simp: quiet_def same_os_def\<close>)
qed

lemma quiet_take: "pending_take_frame a ty s w = (b, w') \<Longrightarrow> quiet P w w'"
  using pending_inv_take [of w a ty s b w']
  by (auto simp: quiet_def same_os_def pending_take_frame_def split: option.splits)

lemma quiet_take_any: "pending_take_message_any w = (b, w') \<Longrightarrow> quiet P w w'"
  using pending_inv_take_any [of w b w']
  by (auto simp: quiet_def same_os_def pending_take_message_any_def split: option.splits)

lemma quiet_drop: "quiet P w (pending_drop_peer_frames a ty w)"
  using pending_inv_drop [of w a ty] by (simp add: quiet_def same_os_def pending_drop_peer_frames_def)

text \<open>One round of the wait loop, with the world it goes on with.\<close>

definition wait_next :: "sockaddr_in \<Rightarrow> bytes \<Rightarrow> world \<Rightarrow> world" where
  "wait_next src f w =
     (if length f < sizeof_header then w
      else if frame_type f = frame_code MESSAGE then
        (case pending_store_frame src f w of (stored, w2) \<Rightarrow>
           if stored then snd (send_ack_frame src (frame_seq f) w2) else w2)
      else snd (pending_store_frame src f w))"

lemma wait_loop_Arrived:
  assumes "f = take MAX_FRAME_SIZE dgram"
  shows "wait_loop (Arrived src dgram # evs) start addr ty seq tmo w =
    (if tmo - c_int (w_clock w (w_tick w) - start) \<le> 0
     then (0, (tick w)\<lparr>w_script := Arrived src dgram # evs\<rparr>)
     else if sizeof_header \<le> length f \<and> frame_type f \<noteq> frame_code MESSAGE
        \<and> src = addr \<and> frame_type f = frame_code ty \<and> frame_seq f = seq
     then (1, (tick w)\<lparr>w_script := evs\<rparr>)
     else wait_loop evs start addr ty seq tmo (wait_next src f (tick w)))"
proof -
  obtain b w2 where st: "pending_store_frame src f (tick w) = (b, w2)" by fastforce
  show ?thesis
    unfolding wait_loop.simps gettimeofday_def prod.case sock_event.case Let_def assms [symmetric]
    by (simp add: wait_next_def st)
qed

lemma quiet_wait_next: "quiet is_ack w (wait_next src f w)"
proof -
  obtain b w2 where s: "pending_store_frame src f w = (b, w2)" by fastforce
  obtain rc w3 where a: "send_ack_frame src (frame_seq f) w2 = (rc, w3)" by fastforce
  from quiet_store [OF s] quiet_send_ack [OF a] have "quiet is_ack w w2" "quiet is_ack w w3"
    by (blast intro: quiet_trans)+
  then show ?thesis by (simp add: wait_next_def s a)
qed

lemma quiet_wait_loop: "wait_loop evs st a ty s tmo w = (r, w') \<Longrightarrow> quiet is_ack w w'"
proof (induction evs arbitrary: w)
  case Nil
  then show ?case by (auto simp: gettimeofday_def quiet_tick)
next
  case (Cons ev evs)
  show ?case
  proof (cases ev)
    case (Arrived src dgram)
    have "quiet is_ack w (wait_next src (take MAX_FRAME_SIZE dgram) (tick w))"
      using quiet_wait_next quiet_tick [OF quiet_refl] quiet_trans by blast
    with Cons Arrived show ?thesis
      by (auto simp: wait_loop_Arrived [OF refl] quiet_tick simp del: wait_loop.simps
          split: if_splits intro: quiet_trans)
  next
    case Spurious
    with Cons show ?thesis
      by (auto simp: gettimeofday_def quiet_tick split: if_splits
          intro: quiet_trans [OF quiet_tick [OF quiet_refl]])
  qed (use Cons.prems in \<open>auto simp: gettimeofday_def quiet_tick split: if_splits\<close>)
qed

lemma quiet_wait:
  assumes "wait_for_frame a ty s tmo w = (r, w')"
  shows "quiet is_ack w w'"
proof -
  obtain b w2 where t: "pending_take_frame a ty s (tick w) = (b, w2)" by fastforce
  have "quiet is_ack w w2" using quiet_tick [OF quiet_refl] quiet_take [OF t] by (rule quiet_trans)
  with assms t show ?thesis
    by (auto simp: wait_for_frame_def gettimeofday_def split: if_splits
        intro: quiet_trans quiet_wait_loop)
qed

text \<open>The return value is 1, 0 or -1.\<close>

lemma wait_loop_rc: "wait_loop evs st a ty s tmo w = (r, w') \<Longrightarrow> r \<in> {0, 1, -1}"
proof (induction evs arbitrary: w)
  case (Cons ev evs)
  then show ?case
    by (cases ev) (auto simp: wait_loop_Arrived [OF refl] gettimeofday_def split: if_splits
        simp del: wait_loop.simps(2), auto simp: gettimeofday_def split: if_splits)
qed (simp add: gettimeofday_def)

lemma wait_rc: "wait_for_frame a ty s tmo w = (r, w') \<Longrightarrow> r \<in> {0, 1, -1}"
  unfolding wait_for_frame_def by (auto split: prod.splits if_splits dest: wait_loop_rc)

section \<open>Where frames come from\<close>

text \<open>
  The frames a world can still give to the program: those in the buffer and those that will
  arrive. No operation invents one: the set only shrinks.
\<close>

definition buffered :: "pending_frame list \<Rightarrow> (sockaddr_in \<times> bytes) set" where
  "buffered ps = {(pf_addr p, pf_data p) | p. p \<in> set ps \<and> pf_used p}"

definition arrivals :: "sock_event list \<Rightarrow> (sockaddr_in \<times> bytes) set" where
  "arrivals evs = {(a, take MAX_FRAME_SIZE d) | a d. Arrived a d \<in> set evs}"

definition frames :: "world \<Rightarrow> (sockaddr_in \<times> bytes) set" where
  "frames w = buffered (w_pending w) \<union> arrivals (w_script w)"

definition matches :: "sockaddr_in \<Rightarrow> frame_type_t \<Rightarrow> byte \<Rightarrow> sockaddr_in \<times> bytes \<Rightarrow> bool" where
  "matches a ty s x \<longleftrightarrow> fst x = a \<and> frame_type (snd x) = frame_code ty \<and> frame_seq (snd x) = s"

lemma arrivals_Cons [simp]:
  "arrivals (Arrived a d # evs) = insert (a, take MAX_FRAME_SIZE d) (arrivals evs)"
  "arrivals (Idle # evs) = arrivals evs" "arrivals (Spurious # evs) = arrivals evs"
  "arrivals (Failed # evs) = arrivals evs" "arrivals [] = {}"
  by (auto simp: arrivals_def)

lemma arrivals_tail: "arrivals evs \<subseteq> arrivals (ev # evs)"
  by (cases ev) auto

lemma buffered_update:
  "buffered (ps[i := p]) \<subseteq> buffered ps \<union> (if pf_used p then {(pf_addr p, pf_data p)} else {})"
  unfolding buffered_def by (auto dest!: set_update_subset)

lemma buffered_take: "pending_take_frame a ty s w = (b, w') \<Longrightarrow> buffered (w_pending w') \<subseteq> buffered (w_pending w)"
  by (auto simp: pending_take_frame_def split: option.splits dest!: subsetD [OF buffered_update])

lemma buffered_store:
  assumes "pending_store_frame a f w = (b, w')"
  shows "buffered (w_pending w') \<subseteq> insert (a, f) (buffered (w_pending w))"
  using assms
  by (cases rule: pending_store_cases) (auto dest!: subsetD [OF buffered_update] split: if_splits)

lemma buffered_drop:
  "buffered (w_pending (pending_drop_peer_frames a ty w)) =
     {x \<in> buffered (w_pending w). \<not> (fst x = a \<and> frame_type (snd x) = frame_code ty)}"
  unfolding buffered_def pending_drop_peer_frames_def by (force split: if_splits)

lemma buffered_wait_next: "buffered (w_pending (wait_next src f w)) \<subseteq> insert (src, f) (buffered (w_pending w))"
proof -
  obtain b w2 where s: "pending_store_frame src f w = (b, w2)" by fastforce
  obtain rc w3 where a: "send_ack_frame src (frame_seq f) w2 = (rc, w3)" by fastforce
  show ?thesis using buffered_store [OF s] send_ack_frame_world [OF a] by (auto simp: wait_next_def s a)
qed

lemma wait_loop_frames:
  "wait_loop evs st a ty s tmo w = (r, w') \<Longrightarrow>
   frames w' \<subseteq> buffered (w_pending w) \<union> arrivals evs
   \<and> (r = 1 \<longrightarrow> (\<exists>x\<in>arrivals evs. matches a ty s x))"
proof (induction evs arbitrary: w)
  case Nil
  then show ?case by (auto simp: gettimeofday_def frames_def)
next
  case (Cons ev evs)
  show ?case
  proof (cases ev)
    case (Arrived src dgram)
    let ?w = "wait_next src (take MAX_FRAME_SIZE dgram) (tick w)"
    have "buffered (w_pending ?w) \<subseteq> insert (src, take MAX_FRAME_SIZE dgram) (buffered (w_pending w))"
      using buffered_wait_next [of src "take MAX_FRAME_SIZE dgram" "tick w"] by simp
    with Cons Arrived show ?thesis
      by (fastforce simp: wait_loop_Arrived [OF refl] frames_def matches_def simp del: wait_loop.simps
          split: if_splits)
  qed (use Cons in \<open>fastforce simp: gettimeofday_def frames_def split: if_splits\<close>)+
qed

lemma wait_frames: "wait_for_frame a ty s tmo w = (r, w') \<Longrightarrow> frames w' \<subseteq> frames w"
proof -
  assume w: "wait_for_frame a ty s tmo w = (r, w')"
  obtain b w2 where t: "pending_take_frame a ty s (tick w) = (b, w2)" by fastforce
  have "buffered (w_pending w2) \<subseteq> buffered (w_pending w)" "w_script w2 = w_script w"
    using buffered_take [OF t] pending_take_frame_work [OF t] by simp_all
  then show ?thesis using w t wait_loop_frames [of "w_script w2" _ a ty s tmo w2 r w']
    by (auto simp: wait_for_frame_def gettimeofday_def frames_def split: if_splits)
qed

lemma wait_found:
  assumes "wait_for_frame a ty s tmo w = (1, w')"
  shows "\<exists>x\<in>frames w. matches a ty s x"
proof (cases "first_idx (\<lambda>p. pf_used p \<and> frame_type (pf_data p) = frame_code ty
              \<and> frame_seq (pf_data p) = s \<and> addr_equal (pf_addr p) a) (w_pending w)")
  case None
  then have "pending_take_frame a ty s (tick w) = (False, tick w)" by (simp add: pending_take_frame_def)
  with assms have "wait_loop (w_script w) (w_clock w (w_tick w)) a ty s tmo (tick w) = (1, w')"
    by (simp add: wait_for_frame_def gettimeofday_def)
  from wait_loop_frames [OF this] show ?thesis by (auto simp: frames_def)
next
  case (Some i)
  let ?p = "w_pending w ! i"
  from first_idx_SomeD [OF Some] have "(pf_addr ?p, pf_data ?p) \<in> buffered (w_pending w)"
    "matches a ty s (pf_addr ?p, pf_data ?p)"
    by (auto simp: buffered_def matches_def)
  then show ?thesis unfolding frames_def by blast
qed

section \<open>Sending\<close>

text \<open>
  The log entries with a given datagram; the three kinds of frames differ, so a message is
  counted by its transmissions only.
\<close>

definition copies :: "bytes \<Rightarrow> world \<Rightarrow> nat" where
  "copies f w = length (filter (\<lambda>x. snd x = f) (w_sent w))"

lemma frame_type_mk [simp]: "frame_type (mk_frame ty s b) = frame_code ty"
  by (simp add: frame_type_def mk_frame_def layout_simps)

lemma frame_seq_mk [simp]: "frame_seq (mk_frame ty s b) = s"
  by (simp add: frame_seq_def mk_frame_def nth_append)

lemma length_mk_frame [simp]: "length (mk_frame ty s b) = 8 + length b"
  by (simp add: mk_frame_def)

lemma frame_code_inject [simp]: "frame_code a = frame_code b \<longleftrightarrow> a = b"
  by (cases a; cases b) auto

lemma mk_frame_differ: "ty \<noteq> ty' \<Longrightarrow> mk_frame ty s b \<noteq> mk_frame ty' s' b'"
  by (metis frame_type_mk frame_code_inject)

lemma copies_quiet:
  "quiet P w w' \<Longrightarrow> (\<And>x. P x \<Longrightarrow> snd x \<noteq> f) \<Longrightarrow> copies f w' = copies f w"
  unfolding quiet_def copies_def by (fastforce simp: filter_empty_conv)

lemma copies_ack: "quiet is_ack w w' \<Longrightarrow> frame_type f = frame_code MESSAGE \<Longrightarrow> copies f w' = copies f w"
  by (erule copies_quiet) (auto simp: is_ack_def simp del: frame_code.simps)

lemma copies_sendto: "sendto d f w = (ok, w') \<Longrightarrow> copies f w' \<le> Suc (copies f w)"
  using sendto_frame(5) [of d f w ok w'] by (auto simp: copies_def split: if_splits)

text \<open>What \<open>retry_loop\<close> does when it returns.\<close>

definition retry_ok :: "bytes \<Rightarrow> sockaddr_in \<Rightarrow> byte \<Rightarrow> world \<Rightarrow> int \<Rightarrow> world \<Rightarrow> bool" where
  "retry_ok frame dest seq w rc w' \<longleftrightarrow> rc \<in> {0, -1}
     \<and> quiet (\<lambda>x. is_ack x \<or> x = (dest, frame)) w w' \<and> work w' \<le> work w \<and> frames w' \<subseteq> frames w
     \<and> (rc = 0 \<longrightarrow> copies frame w < copies frame w' \<and> (\<exists>x\<in>frames w. matches dest ACK seq x))"

lemma copies_mono: "quiet P w w' \<Longrightarrow> copies f w \<le> copies f w'"
  unfolding quiet_def copies_def by auto

lemma retry_round:
  assumes "sendto dest frame w = (ok, w1)" and "wait_for_frame dest ACK seq tmo w1 = (r, w2)"
  shows "quiet (\<lambda>x. is_ack x \<or> x = (dest, frame)) w w1" "quiet (\<lambda>x. is_ack x \<or> x = (dest, frame)) w w2"
    "work w1 = work w" "work w2 \<le> work w" "frames w1 = frames w" "frames w2 \<subseteq> frames w"
    "r = 1 \<Longrightarrow> \<exists>x\<in>frames w. matches dest ACK seq x" "copies frame w \<le> copies frame w2"
    "ok \<Longrightarrow> copies frame w < copies frame w2"
proof -
  show 1: "quiet (\<lambda>x. is_ack x \<or> x = (dest, frame)) w w1" using assms(1) by (rule quiet_sendto) simp
  show "quiet (\<lambda>x. is_ack x \<or> x = (dest, frame)) w w2"
    by (rule quiet_trans [OF 1 quiet_mono [OF quiet_wait [OF assms(2)]]]) simp
  show w: "work w1 = work w" and f: "frames w1 = frames w"
    using sendto_frame(2,3) [OF assms(1)] by (simp_all add: work_def frames_def)
  show "work w2 \<le> work w" "frames w2 \<subseteq> frames w"
    using wait_for_frame_work [OF assms(2)] wait_frames [OF assms(2)] w f by simp_all
  show "\<exists>x\<in>frames w. matches dest ACK seq x" if "r = 1"
    using wait_found [of dest ACK seq tmo w1 w2] assms(2) that f by simp
  note c = copies_mono [OF 1, of frame] copies_mono [OF quiet_wait [OF assms(2)], of frame]
  show "copies frame w \<le> copies frame w2" using c by simp
  show "copies frame w < copies frame w2" if ok
    using c(2) sendto_frame(5) [OF assms(1)] that by (simp add: copies_def)
qed

lemma retry_loop_ok:
  assumes "retry_loop frame dest seq tmo m k w = Some (rc, w')"
  shows "retry_ok frame dest seq w rc w'"
proof -
  have "retry_ok frame dest seq w (fst r) (snd r)"
    if "retry_loop frame dest seq tmo m k w = Some r" for r
  proof (rule retry_loop.raw_induct [where P = "\<lambda>frame dest seq tmo m k w r.
        retry_ok frame dest seq w (fst r) (snd r)", OF _ that], goal_cases)
    case (1 f frame dest seq tmo m k w r)
    obtain ok w1 where s: "sendto dest frame w = (ok, w1)" by fastforce
    obtain v w2 where v: "wait_for_frame dest ACK seq tmo w1 = (v, w2)" by fastforce
    note round = retry_round [OF s v]
    have rec: "retry_ok frame dest seq w (fst r) (snd r)"
      if "f frame dest seq tmo m (k + 1) w2 = Some r"
      using 1(1) [OF that] round(2,4,6,8)
      by (simp add: retry_ok_def) (blast intro: quiet_trans order_trans le_less_trans)
    have r: "if \<not> ok then r = (-1, w1) else if v < 0 then r = (-1, w2)
        else if v = 0 then (if 0 < m \<and> m \<le> k + 1 then r = (-1, w2)
          else f frame dest seq tmo m (k + 1) w2 = Some r) else ok \<and> r = (0, w2)"
      using 1(2) by (auto simp: s v split: if_splits)
    consider "r = (-1, w1)" | "r = (-1, w2)" | "f frame dest seq tmo m (k + 1) w2 = Some r"
      | "ok" "v = 1" "r = (0, w2)"
      using r wait_rc [OF v] by (auto split: if_splits)
    then show ?case by cases (use round rec in \<open>auto simp: retry_ok_def\<close>)
  qed
  from this [OF assms] show ?thesis by simp
qed

text \<open>With a positive limit the loop returns, after at most that many transmissions.\<close>

lemma retry_loop_bounded:
  "0 < m \<Longrightarrow> k < m \<Longrightarrow> frame_type frame = frame_code MESSAGE \<Longrightarrow>
   \<exists>rc w'. retry_loop frame dest seq tmo m k w = Some (rc, w') \<and> copies frame w' \<le> copies frame w + nat (m - k)"
proof (induction "nat (m - k)" arbitrary: k w)
  case (Suc n)
  obtain ok w1 where s: "sendto dest frame w = (ok, w1)" by fastforce
  obtain v w2 where v: "wait_for_frame dest ACK seq tmo w1 = (v, w2)" by fastforce
  have c: "copies frame w1 \<le> Suc (copies frame w)" "copies frame w2 = copies frame w1"
    using copies_sendto [OF s] copies_ack [OF quiet_wait [OF v]] Suc.prems by simp_all
  show ?case
  proof (cases "ok \<and> v = 0 \<and> k + 1 < m")
    case True
    then have "\<exists>rc w'. retry_loop frame dest seq tmo m (k + 1) w2 = Some (rc, w')
        \<and> copies frame w' \<le> copies frame w2 + nat (m - (k + 1))"
      using Suc by (intro Suc.hyps(1)) auto
    then obtain rc w' where "retry_loop frame dest seq tmo m (k + 1) w2 = Some (rc, w')"
        "copies frame w' \<le> copies frame w2 + nat (m - (k + 1))" by blast
    moreover have "retry_loop frame dest seq tmo m k w = retry_loop frame dest seq tmo m (k + 1) w2"
      using True by (subst retry_loop.simps) (simp add: s v)
    ultimately show ?thesis using c True by fastforce
  next
    case False
    have "retry_loop frame dest seq tmo m k w \<in> {Some (-1, w1), Some (-1, w2), Some (0, w2)}"
      using False Suc.prems by (subst retry_loop.simps) (auto simp: s v)
    moreover have "1 \<le> nat (m - k)" using Suc.prems by simp
    ultimately show ?thesis using c by fastforce
  qed
qed simp

section \<open>The alternating bits as maps\<close>

text \<open>
  What the peer table stands for: two bits per address, 0 for an address it does not hold.
  \<open>get_peer\<close> makes an entry of zero bits, so it changes neither map.
\<close>

definition peer_bit :: "(rudp_peer \<Rightarrow> byte) \<Rightarrow> rudp_peer list \<Rightarrow> sockaddr_in \<Rightarrow> byte" where
  "peer_bit sel ps a =
     (case first_idx (\<lambda>p. rp_used p \<and> addr_equal (rp_addr p) a) ps of Some i \<Rightarrow> sel (ps ! i) | None \<Rightarrow> 0)"

definition send_bit :: "world \<Rightarrow> sockaddr_in \<Rightarrow> byte" where
  "send_bit w = peer_bit rp_send_seq (w_peers w)"

definition recv_bit :: "world \<Rightarrow> sockaddr_in \<Rightarrow> byte" where
  "recv_bit w = peer_bit rp_expected_seq (w_peers w)"

lemma peer_bit_update:
  assumes "first_idx (\<lambda>p. rp_used p \<and> addr_equal (rp_addr p) a) ps = Some i"
    and "rp_used p = rp_used (ps ! i)" "rp_addr p = rp_addr (ps ! i)"
  shows "peer_bit sel (ps[i := p]) = (peer_bit sel ps)(a := sel p)"
proof
  fix b
  have "first_idx (\<lambda>p. rp_used p \<and> addr_equal (rp_addr p) b) (ps[i := p])
      = first_idx (\<lambda>p. rp_used p \<and> addr_equal (rp_addr p) b) ps"
    by (rule first_idx_update_same) (simp add: assms)
  with first_idx_SomeD [OF assms(1)]
  show "peer_bit sel (ps[i := p]) b = ((peer_bit sel ps)(a := sel p)) b"
    using assms(1) by (auto simp: peer_bit_def nth_list_update split: option.splits dest: first_idx_SomeD)
qed

lemma peer_bit_new:
  assumes "first_idx (\<lambda>p. rp_used p \<and> addr_equal (rp_addr p) a) ps = None"
    and "i < length ps" "\<not> rp_used (ps ! i)" "rp_used p" "rp_addr p = a" "sel p = 0"
  shows "peer_bit sel (ps[i := p]) = peer_bit sel ps"
proof
  fix b
  show "peer_bit sel (ps[i := p]) b = peer_bit sel ps b"
  proof (cases "b = a")
    case True
    have "first_idx (\<lambda>p. rp_used p \<and> addr_equal (rp_addr p) a) (ps[i := p]) = Some i"
      by (rule first_idx_update_new) (use assms in auto)
    with True assms show ?thesis unfolding peer_bit_def by simp
  next
    case False
    have "first_idx (\<lambda>p. rp_used p \<and> addr_equal (rp_addr p) b) (ps[i := p])
        = first_idx (\<lambda>p. rp_used p \<and> addr_equal (rp_addr p) b) ps"
      by (rule first_idx_update_same) (use False assms in auto)
    then show ?thesis using assms unfolding peer_bit_def
      by (auto simp: nth_list_update split: option.splits dest: first_idx_SomeD)
  qed
qed

lemma get_peer_cases:
  assumes "get_peer a c w = (r, w')"
  obtains i where "r = Some i" "w' = w" "first_idx (\<lambda>p. rp_used p \<and> addr_equal (rp_addr p) a) (w_peers w) = Some i"
  | i where "r = Some i" "c" "first_idx (\<lambda>p. rp_used p \<and> addr_equal (rp_addr p) a) (w_peers w) = None"
      "i < length (w_peers w)" "\<not> rp_used (w_peers w ! i)"
      "w' = w\<lparr>w_peers := (w_peers w)[i := (w_peers w ! i)\<lparr>rp_used := True, rp_addr := a,
         rp_send_seq := 0, rp_expected_seq := 0\<rparr>]\<rparr>"
  | "r = None" "w' = w"
proof (cases "first_idx (\<lambda>p. rp_used p \<and> addr_equal (rp_addr p) a) (w_peers w)")
  case (Some i)
  show ?thesis by (rule that(1) [OF _ _ Some]) (use assms in \<open>simp_all add: get_peer_def Some del: addr_equal_iff\<close>)
next
  case None
  show ?thesis
  proof (cases "c \<and> (\<exists>j. first_idx (\<lambda>p. \<not> rp_used p) (w_peers w) = Some j)")
    case True
    then obtain j where "c" and j: "first_idx (\<lambda>p. \<not> rp_used p) (w_peers w) = Some j" by blast
    with first_idx_SomeD [OF j] assms show ?thesis
      by (intro that(2) [of j, OF _ _ None]) (simp_all add: get_peer_def None j del: addr_equal_iff)
  next
    case False
    then show ?thesis using assms
      by (intro that(3)) (auto simp add: get_peer_def None simp del: addr_equal_iff split: option.splits if_splits)
  qed
qed

lemma get_peer_spec:
  assumes "get_peer a c w = (r, w')"
  shows "send_bit w' = send_bit w" "recv_bit w' = recv_bit w" "w_sent w' = w_sent w" "frames w' = frames w"
    "r = Some i \<Longrightarrow> first_idx (\<lambda>p. rp_used p \<and> addr_equal (rp_addr p) a) (w_peers w') = Some i"
    "r = Some i \<Longrightarrow> rp_send_seq (w_peers w' ! i) = send_bit w a"
    "r = Some i \<Longrightarrow> rp_expected_seq (w_peers w' ! i) = recv_bit w a"
proof -
  show bits: "send_bit w' = send_bit w" "recv_bit w' = recv_bit w"
    using assms by (cases rule: get_peer_cases; simp add: send_bit_def recv_bit_def peer_bit_new)+
  show "w_sent w' = w_sent w" "frames w' = frames w"
    using get_peer_world [OF assms] by (simp_all add: frames_def)
  show idx: "first_idx (\<lambda>p. rp_used p \<and> addr_equal (rp_addr p) a) (w_peers w') = Some i" if "r = Some i"
    using assms
  proof (cases rule: get_peer_cases)
    case (1 j)
    from 1(1) that 1(3) show ?thesis unfolding 1(2) by simp
  next
    case (2 j)
    with that show ?thesis by (simp add: first_idx_update_new)
  qed (use that in simp)
  show "rp_send_seq (w_peers w' ! i) = send_bit w a" "rp_expected_seq (w_peers w' ! i) = recv_bit w a"
    if "r = Some i"
    unfolding bits [symmetric] using idx [OF that] by (simp_all add: send_bit_def recv_bit_def peer_bit_def)
qed

lemma quiet_bits: "quiet P w w' \<Longrightarrow> send_bit w' = send_bit w" "quiet P w w' \<Longrightarrow> recv_bit w' = recv_bit w"
  by (simp_all add: quiet_def send_bit_def recv_bit_def)

lemma flip_bits:
  assumes "first_idx (\<lambda>p. rp_used p \<and> addr_equal (rp_addr p) a) (w_peers w) = Some i"
  shows "send_bit (flip_send_bit i w) = (send_bit w)(a := send_bit w a XOR 1)"
    "recv_bit (flip_send_bit i w) = recv_bit w"
    "recv_bit (flip_expected_bit i w) = (recv_bit w)(a := recv_bit w a XOR 1)"
    "send_bit (flip_expected_bit i w) = send_bit w"
proof -
  have sel: "sel (w_peers w ! i) = peer_bit sel (w_peers w) a" for sel
    using assms by (simp add: peer_bit_def)
  show "send_bit (flip_send_bit i w) = (send_bit w)(a := send_bit w a XOR 1)"
    "recv_bit (flip_expected_bit i w) = (recv_bit w)(a := recv_bit w a XOR 1)"
    by (simp_all add: send_bit_def recv_bit_def flip_send_bit_def flip_expected_bit_def
        peer_bit_update [OF assms] sel)
  show "recv_bit (flip_send_bit i w) = recv_bit w" "send_bit (flip_expected_bit i w) = send_bit w"
    by (simp_all add: send_bit_def recv_bit_def flip_send_bit_def flip_expected_bit_def
        peer_bit_update [OF assms] sel)
qed

section \<open>What a send does\<close>

text \<open>The datagrams a send puts on the wire, apart from the ACKs of messages that come in meanwhile.\<close>

definition send_traffic :: "sockaddr_in \<Rightarrow> bytes \<Rightarrow> byte \<Rightarrow> sockaddr_in \<times> bytes \<Rightarrow> bool" where
  "send_traffic dest buf seq x \<longleftrightarrow>
     is_ack x \<or> x = (dest, mk_frame MESSAGE seq buf) \<or> x = (dest, mk_frame ACK_ACK seq [])"

lemma send_ack_acks_quiet:
  "send_ack_acks n d s w = (rc, w') \<Longrightarrow>
   quiet (\<lambda>x. x = (d, mk_frame ACK_ACK s [])) w w' \<and> rc \<in> {0, -1} \<and> work w' = work w \<and> frames w' = frames w"
proof (induction n arbitrary: w)
  case (Suc n)
  obtain ok w1 where s: "sendto d (mk_frame ACK_ACK s []) w = (ok, w1)" by fastforce
  have 1: "quiet (\<lambda>x. x = (d, mk_frame ACK_ACK s [])) w w1" using s by (rule quiet_sendto) simp
  have 2: "work w1 = work w" "frames w1 = frames w"
    using sendto_frame(2,3) [OF s] by (simp_all add: work_def frames_def)
  show ?case
  proof (cases ok)
    case True
    with Suc.prems s have "send_ack_acks n d s w1 = (rc, w')" by simp
    from Suc.IH [OF this] 1 2 show ?thesis by (auto intro: quiet_trans)
  next
    case False
    with Suc.prems s 1 2 show ?thesis by simp
  qed
qed simp

lemma malloc_frame:
  assumes "malloc w = (ok, w')"
  shows "quiet P w w'" "work w' = work w" "frames w' = frames w" "w_script w' = w_script w"
    "w_pending w' = w_pending w" "w_peers w' = w_peers w" "copies f w' = copies f w"
  using assms by (auto simp: malloc_def quiet_tick work_def frames_def copies_def)

text \<open>Dropping the old ACKs and ACK_ACKs before a send leaves the arrivals as the only source of ACKs.\<close>

lemma drop_acks:
  assumes "w' = pending_drop_peer_frames dest ACK_ACK (pending_drop_peer_frames dest ACK w)"
  shows "quiet P w w'" "work w' \<le> work w" "frames w' \<subseteq> frames w"
    "x \<in> frames w' \<Longrightarrow> matches dest ACK s x \<Longrightarrow> x \<in> arrivals (w_script w)"
    "w_peers w' = w_peers w" "copies f w' = copies f w"
proof -
  have scr: "w_script w' = w_script w" by (simp add: assms pending_drop_peer_frames_def)
  show "quiet P w w'" unfolding assms by (rule quiet_trans [OF quiet_drop quiet_drop])
  have "n_used is_message (w_pending (pending_drop_peer_frames a ty v)) \<le> n_used is_message (w_pending v)" for a ty v
    by (auto simp: pending_drop_peer_frames_def is_message_def intro: n_used_map split: if_splits)
  from this [of dest ACK w] this [of dest ACK_ACK "pending_drop_peer_frames dest ACK w"]
  show "work w' \<le> work w" by (simp add: work_def scr) (simp add: assms)
  show "frames w' \<subseteq> frames w" unfolding frames_def scr by (auto simp: assms buffered_drop)
  show "x \<in> arrivals (w_script w)" if "x \<in> frames w'" "matches dest ACK s x"
    using that unfolding frames_def scr by (auto simp: assms buffered_drop matches_def simp del: frame_code.simps)
  show "w_peers w' = w_peers w" "copies f w' = copies f w"
    by (simp_all add: assms pending_drop_peer_frames_def copies_def)
qed

text \<open>
  The specification of a send. A successful one flips the send bit of the destination and no
  other bit, a failed one flips none; success means that the message went out and that a matching
  ACK arrived during the call.
\<close>

definition send_spec :: "bytes \<Rightarrow> sockaddr_in \<Rightarrow> world \<Rightarrow> int \<Rightarrow> world \<Rightarrow> bool" where
  "send_spec buf dest w rc w' \<longleftrightarrow> rc \<in> {0, -1}
     \<and> send_bit w' = (if rc = 0 then (send_bit w)(dest := send_bit w dest XOR 1) else send_bit w)
     \<and> recv_bit w' = recv_bit w \<and> same_os w w' \<and> work w' \<le> work w \<and> frames w' \<subseteq> frames w
     \<and> (\<exists>xs. w_sent w' = w_sent w @ xs \<and> (\<forall>x\<in>set xs. send_traffic dest buf (send_bit w dest) x))
     \<and> (rc = 0 \<longrightarrow>
          copies (mk_frame MESSAGE (send_bit w dest) buf) w < copies (mk_frame MESSAGE (send_bit w dest) buf) w'
          \<and> (\<exists>x\<in>arrivals (w_script w). matches dest ACK (send_bit w dest) x))
     \<and> (rudp_inv w \<longrightarrow> rudp_inv w')"

lemma send_spec_fail:
  assumes "get_peer dest True w = (r, w1)" and "quiet P w1 w'"
    and "\<And>x. P x \<Longrightarrow> send_traffic dest buf (send_bit w dest) x" and "work w' \<le> work w1" "frames w' \<subseteq> frames w1"
  shows "send_spec buf dest w (-1) w'"
proof -
  note g = get_peer_spec(1-4) [OF assms(1)] get_peer_world [OF assms(1)] work_get_peer [OF assms(1)]
  have "rudp_inv w \<Longrightarrow> rudp_inv w1"
    using peers_inv_get_peer [OF _ assms(1)] g by (simp add: rudp_inv_def)
  with g assms quiet_bits [OF assms(2)] quiet_rudp_inv [OF assms(2)] show ?thesis
    by (auto simp: send_spec_def quiet_def intro: same_os_trans)
qed

lemma rudp_sendto_meets_spec:
  assumes "rudp_sendto_with_limits buf dest tmo m w = Some (rc, w')"
  shows "send_spec buf dest w rc w'"
proof (cases "sizeof_header + length buf > MAX_FRAME_SIZE")
  case True
  with assms show ?thesis by (auto simp: rudp_sendto_with_limits_def send_spec_def)
next
  case False
  obtain r w1 where g: "get_peer dest True w = (r, w1)" by fastforce
  obtain ok w2 where ml: "malloc w1 = (ok, w2)" by fastforce
  show ?thesis
  proof (cases "r = None \<or> \<not> ok")
    case True
    have "rc = -1" "w' = w1 \<or> w' = w2"
      using False assms True g ml by (auto simp: rudp_sendto_with_limits_def split: option.splits)
    then show ?thesis
      using send_spec_fail [OF g, of "\<lambda>_. False" w' buf] malloc_frame [OF ml] by auto
  next
    case False
    then obtain i where i: "r = Some i" and ok: "ok" by auto
    define w3 where "w3 = pending_drop_peer_frames dest ACK_ACK (pending_drop_peer_frames dest ACK w2)"
    define seq where "seq = rp_send_seq (w_peers w2 ! i)"
    define fr where "fr = mk_frame MESSAGE seq buf"
    define t where "t = (if tmo > 0 then tmo else ACK_TIMEOUT_USEC)"
    note gp = get_peer_spec(1-4) [OF g] get_peer_spec(5) [OF g i] get_peer_world [OF g] work_get_peer [OF g]
    note mf = malloc_frame [OF ml]
    note d = drop_acks [OF w3_def]
    have seq: "seq = send_bit w dest"
      using get_peer_spec(6) [OF g i] mf(6) by (simp add: seq_def)
    have run: "do { (rc, w4) \<leftarrow> retry_loop fr dest seq t m 0 w3;
        if rc < 0 then Some (-1, w4)
        else case send_ack_acks MAX_TRANSMISION_ATTEMPTS dest seq w4 of (rc2, w5) \<Rightarrow>
          if rc2 < 0 then Some (-1, w5) else Some (0, flip_send_bit i w5) } = Some (rc, w')"
      using assms \<open>\<not> sizeof_header + length buf > MAX_FRAME_SIZE\<close> ok
      unfolding rudp_sendto_with_limits_def g ml i prod.case option.case Let_def
        w3_def [symmetric] seq_def [symmetric] t_def [symmetric] fr_def [symmetric] by simp
    from run obtain rc1 w4 where rl: "retry_loop fr dest seq t m 0 w3 = Some (rc1, w4)"
      by (cases "retry_loop fr dest seq t m 0 w3") auto
    obtain rc2 w5 where sa: "send_ack_acks MAX_TRANSMISION_ATTEMPTS dest seq w4 = (rc2, w5)" by fastforce
    note rl' = retry_loop_ok [OF rl, unfolded retry_ok_def fr_def seq]
    note sa' = send_ack_acks_quiet [OF sa, unfolded seq]
    let ?P = "send_traffic dest buf (send_bit w dest)"
    have q3: "quiet ?P w1 w3" by (rule quiet_trans [OF mf(1) d(1)])
    have q4: "quiet ?P w1 w4"
      using rl' by (intro quiet_trans [OF q3]) (auto simp: send_traffic_def elim: quiet_mono)
    have q5: "quiet ?P w1 w5"
      using sa' by (intro quiet_trans [OF q4]) (auto simp: send_traffic_def elim: quiet_mono)
    have wf: "work w4 \<le> work w1" "frames w4 \<subseteq> frames w1" "work w5 \<le> work w1" "frames w5 \<subseteq> frames w1"
      using mf(2,3) d(2,3) rl' sa' by auto
    show ?thesis
    proof (cases "rc = 0")
      case False
      with run rl sa have "rc = -1" "w' = w4 \<or> w' = w5" by (auto split: if_splits)
      then show ?thesis using send_spec_fail [OF g q4] send_spec_fail [OF g q5] wf by auto
    next
      case True
      with run rl sa have w': "w' = flip_send_bit i w5" and "rc1 = 0" "rc2 = 0"
        using rl' sa' by (auto split: if_splits)
      have idx: "first_idx (\<lambda>p. rp_used p \<and> addr_equal (rp_addr p) dest) (w_peers w5) = Some i"
        using gp(5) quiet_peers [OF q5] by simp
      have "copies (mk_frame MESSAGE (send_bit w dest) buf) w3 = copies (mk_frame MESSAGE (send_bit w dest) buf) w"
        using d(6) mf(7) gp(3) by (simp add: copies_def)
      moreover have "copies (mk_frame MESSAGE (send_bit w dest) buf) w4 \<le> copies (mk_frame MESSAGE (send_bit w dest) buf) w5"
        using sa' by (blast intro: copies_mono)
      ultimately have cp: "copies (mk_frame MESSAGE (send_bit w dest) buf) w < copies (mk_frame MESSAGE (send_bit w dest) buf) w5"
        using rl' \<open>rc1 = 0\<close> by simp
      have ack: "\<exists>x\<in>arrivals (w_script w). matches dest ACK (send_bit w dest) x"
        using rl' \<open>rc1 = 0\<close> d(4) mf(4) get_peer_world(2) [OF g] by force
      have inv: "rudp_inv w' " if "rudp_inv w"
      proof -
        have "rudp_inv w1" using that peers_inv_get_peer [OF _ g] get_peer_world(1) [OF g]
          by (simp add: rudp_inv_def)
        with quiet_rudp_inv [OF q5] have "rudp_inv w5" by blast
        then show ?thesis using peers_inv_flip(1) [of w5 i]
          by (simp add: rudp_inv_def w' flip_send_bit_def)
      qed
      have same: "w_sent w' = w_sent w5" "w_script w' = w_script w5" "w_pending w' = w_pending w5" "same_os w5 w'"
        "copies f w' = copies f w5" for f
        by (simp_all add: w' flip_send_bit_def same_os_def copies_def)
      show ?thesis
        using True ack inv cp wf(3,4) gp(1-4) gp(10) same quiet_bits [OF q5] flip_bits(1,2) [OF idx]
          get_peer_world(4) [OF g] q5
        unfolding send_spec_def
        by (auto simp: w' [symmetric] quiet_def work_def frames_def intro: same_os_trans)
    qed
  qed
qed

text \<open>A send with a positive limit returns, after at most that many transmissions of the message.\<close>

lemma rudp_sendto_bounded:
  assumes "0 < m"
  shows "\<exists>rc w'. rudp_sendto_with_limits buf dest tmo m w = Some (rc, w')
    \<and> copies (mk_frame MESSAGE (send_bit w dest) buf) w'
        \<le> copies (mk_frame MESSAGE (send_bit w dest) buf) w + nat m"
    (is "\<exists>rc w'. _ \<and> copies ?f w' \<le> copies ?f w + _")
proof (cases "sizeof_header + length buf > MAX_FRAME_SIZE")
  case True
  then show ?thesis by (auto simp: rudp_sendto_with_limits_def)
next
  case False
  obtain r w1 where g: "get_peer dest True w = (r, w1)" by fastforce
  obtain ok w2 where ml: "malloc w1 = (ok, w2)" by fastforce
  have c2: "copies ?f w2 = copies ?f w" "copies ?f w1 = copies ?f w"
    using malloc_frame(7) [OF ml] get_peer_spec(3) [OF g] by (simp_all add: copies_def)
  show ?thesis
  proof (cases "r = None \<or> \<not> ok")
    case True
    with False c2 show ?thesis by (auto simp: rudp_sendto_with_limits_def g ml split: option.splits)
  next
    case r: False
    then obtain i where i: "r = Some i" and ok: "ok" by auto
    define t where "t = (if tmo > 0 then tmo else ACK_TIMEOUT_USEC)"
    define w3 where "w3 = pending_drop_peer_frames dest ACK_ACK (pending_drop_peer_frames dest ACK w2)"
    have seq: "rp_send_seq (w_peers w2 ! i) = send_bit w dest"
      using get_peer_spec(6) [OF g i] malloc_frame(6) [OF ml] by simp
    obtain rc w4 where rl: "retry_loop ?f dest (send_bit w dest) t m 0 w3 = Some (rc, w4)"
      and c4: "copies ?f w4 \<le> copies ?f w3 + nat m"
      using retry_loop_bounded [of m 0 ?f dest "send_bit w dest" t w3] assms by auto
    obtain rc2 w5 where sa: "send_ack_acks MAX_TRANSMISION_ATTEMPTS dest (send_bit w dest) w4 = (rc2, w5)"
      by fastforce
    have "copies ?f w5 = copies ?f w4"
      by (rule copies_quiet [OF conjunct1 [OF send_ack_acks_quiet [OF sa]]])
        (simp add: mk_frame_differ)
    moreover have "copies ?f w3 = copies ?f w" using drop_acks(6) [OF w3_def] c2 by simp
    moreover have "copies ?f (flip_send_bit i w5) = copies ?f w5" by (simp add: copies_def flip_send_bit_def)
    moreover have "rudp_sendto_with_limits buf dest tmo m w \<in>
        {Some (-1, w4), Some (-1, w5), Some (0, flip_send_bit i w5)}"
      using False ok
      unfolding rudp_sendto_with_limits_def g ml i prod.case option.case Let_def seq
        w3_def [symmetric] t_def [symmetric] by (simp add: rl sa)
    ultimately show ?thesis using c4 by fastforce
  qed
qed

section \<open>What a receive does\<close>

lemma recv_loop_spec:
  "recv_loop evs src buf w = (rc, src', buf', w') \<Longrightarrow>
   quiet (\<lambda>_. False) w w' \<and> frames w' \<subseteq> buffered (w_pending w) \<union> arrivals evs \<and> rc \<in> {0, 1, -1}
   \<and> (rc = 0 \<longrightarrow> (\<exists>f b. (src', f) \<in> arrivals evs \<and> buf' = buf_write b f
        \<and> frame_type f = frame_code MESSAGE \<and> sizeof_header \<le> length f))"
proof (induction evs arbitrary: buf w)
  case Nil
  then show ?case by (auto simp: frames_def)
next
  case (Cons ev evs)
  show ?case
  proof (cases ev)
    case (Arrived frm dgram)
    define f where "f = take MAX_FRAME_SIZE dgram"
    note step = Cons.prems [unfolded Arrived recv_loop.simps sock_event.case Let_def, folded f_def]
    obtain b w2 where st: "pending_store_frame frm f w = (b, w2)" by fastforce
    note st' = quiet_store [OF st, of "\<lambda>_. False"] buffered_store [OF st]
    consider "length f < sizeof_header" | "sizeof_header \<le> length f" "frame_type f \<noteq> frame_code MESSAGE"
      | "sizeof_header \<le> length f" "frame_type f = frame_code MESSAGE" by linarith
    then show ?thesis
    proof cases
      case 1
      then have "recv_loop evs src (buf_write buf f) w = (rc, src', buf', w')"
        using step by simp
      from Cons.IH [OF this] Arrived f_def show ?thesis by auto
    next
      case 2
      then have "recv_loop evs src (buf_write buf f) w2 = (rc, src', buf', w')"
        using step by (simp add: st)
      from Cons.IH [OF this] Arrived st' f_def show ?thesis by (auto intro: quiet_trans)
    next
      case 3
      then have "rc = 0" "src' = frm" "buf' = buf_write buf f" "w' = w\<lparr>w_script := evs\<rparr>"
        using step by auto
      with 3 Arrived f_def show ?thesis by (auto simp: frames_def)
    qed
  qed (use Cons.prems in \<open>auto simp: frames_def\<close>)
qed

lemma receive_message_frame_spec:
  assumes "receive_message_frame src buf w = (rc, src', buf', w')"
  shows "quiet (\<lambda>_. False) w w'" "frames w' \<subseteq> frames w" "rc \<in> {0, 1, -1}"
    "rc = 0 \<Longrightarrow> \<exists>f b. (src', f) \<in> frames w \<and> buf' = buf_write b f \<and> frame_type f = frame_code MESSAGE
       \<and> (pending_inv (w_pending w) \<longrightarrow> sizeof_header \<le> length f)"
proof -
  obtain r w1 where t: "pending_take_message_any w = (r, w1)" by fastforce
  have "quiet (\<lambda>_. False) w w' \<and> frames w' \<subseteq> frames w \<and> rc \<in> {0, 1, -1}
    \<and> (rc = 0 \<longrightarrow> (\<exists>f b. (src', f) \<in> frames w \<and> buf' = buf_write b f \<and> frame_type f = frame_code MESSAGE
       \<and> (pending_inv (w_pending w) \<longrightarrow> sizeof_header \<le> length f)))"
  proof (cases "first_idx (\<lambda>p. pf_used p \<and> frame_type (pf_data p) = frame_code MESSAGE) (w_pending w)")
    case None
    then have "w1 = w" "r = None" using t unfolding pending_take_message_any_def None by simp_all
    with assms t have "recv_loop (w_script w) src buf w = (rc, src', buf', w')"
      by (simp add: receive_message_frame_def)
    from recv_loop_spec [OF this] show ?thesis by (auto simp: frames_def)
  next
    case (Some i)
    let ?p = "w_pending w ! i"
    from first_idx_SomeD [OF Some] have p: "?p \<in> set (w_pending w)" "pf_used ?p"
      "frame_type (pf_data ?p) = frame_code MESSAGE" by simp_all
    have e: "rc = 0" "src' = pf_addr ?p" "buf' = buf_write buf (pf_data ?p)" "w' = w1"
      and w1: "w1 = w\<lparr>w_pending := (w_pending w)[i := ?p\<lparr>pf_used := False\<rparr>]\<rparr>"
      using assms t unfolding receive_message_frame_def pending_take_message_any_def Some by simp_all
    have "frames w1 \<subseteq> frames w" unfolding frames_def w1 by (auto dest!: subsetD [OF buffered_update])
    moreover have "(pf_addr ?p, pf_data ?p) \<in> frames w" using p by (auto simp: frames_def buffered_def)
    ultimately show ?thesis using e quiet_take_any [OF t] p by (auto simp: pending_inv_def)
  qed
  then show "quiet (\<lambda>_. False) w w'" "frames w' \<subseteq> frames w" "rc \<in> {0, 1, -1}"
    "rc = 0 \<Longrightarrow> \<exists>f b. (src', f) \<in> frames w \<and> buf' = buf_write b f \<and> frame_type f = frame_code MESSAGE
       \<and> (pending_inv (w_pending w) \<longrightarrow> sizeof_header \<le> length f)" by blast+
qed

lemma send_ack_rc: "send_ack_frame a s w = (rc, w') \<Longrightarrow> rc \<in> {0, -1}"
  by (auto simp: send_ack_frame_def split: prod.splits if_splits)

lemma ack_loop_spec:
  "ack_loop n a s w = (rc, w') \<Longrightarrow>
   quiet is_ack w w' \<and> frames w' \<subseteq> frames w \<and> rc \<in> {0, 1, -1}
   \<and> (0 < n \<and> rc \<noteq> -1 \<longrightarrow> (\<exists>xs. w_sent w' = w_sent w @ (a, mk_frame ACK s []) # xs))"
proof (induction n arbitrary: w)
  case (Suc n)
  obtain r1 w1 where s: "send_ack_frame a s w = (r1, w1)" by fastforce
  obtain r2 w2 where t: "wait_for_frame a ACK_ACK s TIMEOUT_USEC w1 = (r2, w2)" by fastforce
  have q1: "quiet is_ack w w1" by (rule quiet_send_ack [OF s])
  have q2: "quiet is_ack w w2" by (rule quiet_trans [OF q1 quiet_wait [OF t]])
  have f1: "frames w1 = frames w" using send_ack_frame_world(2,3) [OF s] by (simp add: frames_def)
  have f2: "frames w2 \<subseteq> frames w" using wait_frames [OF t] f1 by simp
  show ?case
  proof (cases "r1 < 0")
    case True
    with Suc.prems s q1 f1 show ?thesis by auto
  next
    case False
    have snd: "w_sent w1 = w_sent w @ [(a, mk_frame ACK s [])]"
      using s False sendto_frame(5) [of a "mk_frame ACK s []" w True w1]
      by (auto simp: send_ack_frame_def split: prod.splits if_splits)
    have sent2: "\<exists>xs. w_sent w2 = w_sent w @ (a, mk_frame ACK s []) # xs"
      using quiet_wait [OF t] unfolding quiet_def snd by auto
    show ?thesis
    proof (cases "r2 = 0")
      case True
      with Suc.prems s t False have "ack_loop n a s w2 = (rc, w')" by simp
      from Suc.IH [OF this] q2 f2 sent2 show ?thesis
        by (auto simp: quiet_def intro: same_os_trans)
    next
      case False
      with Suc.prems s t \<open>\<not> r1 < 0\<close> q2 f2 sent2 wait_rc [OF t] show ?thesis by (auto split: if_splits)
    qed
  qed
qed simp

text \<open>
  The specification of a receive. Only a receive that returns 0 changes a bit, and it changes the
  receive bit of the sender alone. What it returns is the payload of a message that was in the
  buffer or on the wire and that carried the bit awaited from its sender; that sender was sent an ACK.
\<close>

definition recv_spec :: "nat \<Rightarrow> world \<Rightarrow> int \<Rightarrow> bytes \<Rightarrow> sockaddr_in \<Rightarrow> world \<Rightarrow> bool" where
  "recv_spec len w rc data src w' \<longleftrightarrow> rc \<in> {0, 1, -1}
     \<and> send_bit w' = send_bit w \<and> same_os w w' \<and> frames w' \<subseteq> frames w
     \<and> recv_bit w' = (if rc = 0 then (recv_bit w)(src := recv_bit w src XOR 1) else recv_bit w)
     \<and> (\<exists>xs. w_sent w' = w_sent w @ xs \<and> (\<forall>x\<in>set xs. is_ack x)
          \<and> (rc = 0 \<longrightarrow> (src, mk_frame ACK (recv_bit w src) []) \<in> set xs))
     \<and> (rudp_inv w \<longrightarrow> rudp_inv w')
     \<and> (rc = 0 \<and> rudp_inv w \<longrightarrow> (\<exists>f. (src, f) \<in> frames w \<and> matches src MESSAGE (recv_bit w src) (src, f)
          \<and> sizeof_header \<le> length f
          \<and> (sizeof_header + len \<le> length f \<longrightarrow> data = field sizeof_header len f)))"

text \<open>A stretch of a receive that delivers nothing, and what may follow it.\<close>

definition undelivered :: "world \<Rightarrow> world \<Rightarrow> bool" where
  "undelivered w w' \<longleftrightarrow> send_bit w' = send_bit w \<and> recv_bit w' = recv_bit w \<and> same_os w w'
     \<and> frames w' \<subseteq> frames w \<and> (\<exists>xs. w_sent w' = w_sent w @ xs \<and> (\<forall>x\<in>set xs. is_ack x))
     \<and> (rudp_inv w \<longrightarrow> rudp_inv w')"

lemma undelivered_trans: "undelivered w w' \<Longrightarrow> undelivered w' w'' \<Longrightarrow> undelivered w w''"
  unfolding undelivered_def by (auto intro: same_os_trans)

lemma undelivered_quiet: "quiet is_ack w w' \<Longrightarrow> frames w' \<subseteq> frames w \<Longrightarrow> undelivered w w'"
  using quiet_bits [of is_ack w w'] quiet_rudp_inv [of is_ack w w']
  by (auto simp: undelivered_def quiet_def)

lemma undelivered_get_peer: "get_peer a c w = (r, w') \<Longrightarrow> undelivered w w'"
  using get_peer_spec(1-4) [of a c w r w'] get_peer_world [of a c w r w'] peers_inv_get_peer [of w a c r w']
  by (simp add: undelivered_def rudp_inv_def)

lemma undelivered_receive:
  "receive_message_frame src buf w = (rc, src', buf', w') \<Longrightarrow> undelivered w w'"
  by (rule undelivered_quiet [OF quiet_mono [OF receive_message_frame_spec(1)] receive_message_frame_spec(2)]) simp_all

lemma recv_spec_nothing: "undelivered w w' \<Longrightarrow> rc \<in> {1, -1} \<Longrightarrow> recv_spec len w rc d src w'"
  by (auto simp: undelivered_def recv_spec_def)

lemma recv_spec_after: "undelivered w w' \<Longrightarrow> recv_spec len w' rc d src w'' \<Longrightarrow> recv_spec len w rc d src w''"
  unfolding undelivered_def recv_spec_def
  by (elim conjE exE, intro conjI) (auto intro: same_os_trans simp: Un_assoc)

lemma recv_spec_deliver:
  assumes rm: "receive_message_frame src0 buf0 w = (0, src, buf, w1)"
    and g: "get_peer src True w1 = (Some i, w2)"
    and exp: "buf 4 = rp_expected_seq (w_peers w2 ! i)"
    and al: "ack_loop MAX_TRANSMISION_ATTEMPTS src (buf 4) w2 = (arc, w3)" "arc \<noteq> -1"
  shows "recv_spec len w 0 (buf_read buf sizeof_header len) src (flip_expected_bit i w3)"
proof -
  have u2: "undelivered w w2"
    by (rule undelivered_trans [OF undelivered_receive [OF rm] undelivered_get_peer [OF g]])
  note al' = ack_loop_spec [OF al(1)]
  have u3: "undelivered w w3" using u2 undelivered_quiet al' by (blast intro: undelivered_trans)
  have bit: "buf 4 = recv_bit w src"
    using get_peer_spec(7) [OF g refl] undelivered_receive [OF rm] exp by (simp add: undelivered_def)
  have idx: "first_idx (\<lambda>p. rp_used p \<and> addr_equal (rp_addr p) src) (w_peers w3) = Some i"
    using get_peer_spec(5) [OF g refl] al' by (simp add: quiet_def)
  have same: "w_sent (flip_expected_bit i w3) = w_sent w3" "frames (flip_expected_bit i w3) = frames w3"
    "same_os w3 (flip_expected_bit i w3)"
    by (simp_all add: flip_expected_bit_def frames_def same_os_def)
  have inv: "rudp_inv (flip_expected_bit i w3)" if "rudp_inv w"
    using u3 that peers_inv_flip(2) [of w3 i] by (simp add: undelivered_def rudp_inv_def flip_expected_bit_def)
  have sent: "\<exists>xs. w_sent w3 = w_sent w @ xs \<and> (\<forall>x\<in>set xs. is_ack x)
      \<and> (src, mk_frame ACK (recv_bit w src) []) \<in> set xs"
  proof -
    obtain ys where ys: "w_sent w3 = w_sent w2 @ (src, mk_frame ACK (recv_bit w src) []) # ys"
      using al' al(2) bit by auto
    obtain xs where xs: "w_sent w3 = w_sent w @ xs" "\<forall>x\<in>set xs. is_ack x"
      using u3 by (auto simp: undelivered_def)
    obtain zs where "w_sent w2 = w_sent w @ zs" using u2 by (auto simp: undelivered_def)
    with xs ys show ?thesis by auto
  qed
  have "\<exists>f. (src, f) \<in> frames w \<and> matches src MESSAGE (recv_bit w src) (src, f) \<and> sizeof_header \<le> length f
      \<and> (sizeof_header + len \<le> length f \<longrightarrow> buf_read buf sizeof_header len = field sizeof_header len f)"
    if iw: "rudp_inv w"
  proof -
    obtain f b where f: "(src, f) \<in> frames w" "buf = buf_write b f" "frame_type f = frame_code MESSAGE"
      "sizeof_header \<le> length f"
      using receive_message_frame_spec(4) [OF rm] iw by (auto simp: rudp_inv_def)
    then have "frame_seq f = recv_bit w src" using bit by (simp add: frame_seq_def buf_write_def)
    with f show ?thesis by (auto simp: matches_def buf_read_write)
  qed
  then show ?thesis
    using u3 inv sent same flip_bits(3,4) [OF idx]
    by (auto simp: recv_spec_def undelivered_def intro: same_os_trans)
qed

lemma recvfrom_loop_meets_spec:
  "recvfrom_loop len src w = (rc, d, src', w') \<Longrightarrow> recv_spec len w rc d src' w'"
proof (induction len src w rule: recvfrom_loop.induct)
  case (1 len src w)
  obtain r1 src1 buf w1 where rm: "receive_message_frame src (w_stack w (w_tick w)) w = (r1, src1, buf, w1)"
    by (metis prod_cases4)
  note u1 = undelivered_receive [OF rm]
  obtain g w2 where g: "get_peer src1 True w1 = (g, w2)" by fastforce
  have u2: "undelivered w w2" by (rule undelivered_trans [OF u1 undelivered_get_peer [OF g]])
  obtain arc w3 where al: "ack_loop MAX_TRANSMISION_ATTEMPTS src1 (buf 4) w2 = (arc, w3)" by fastforce
  have al': "arc \<in> {0, 1, -1}" "undelivered w w3"
    using ack_loop_spec [OF al] u2 undelivered_quiet by (blast intro: undelivered_trans)+
  obtain r2 src2 buf2 w4 where rm2: "receive_message_frame src1 buf w3 = (r2, src2, buf2, w4)"
    by (metis prod_cases4)
  have u4: "undelivered w w4" by (rule undelivered_trans [OF al'(2) undelivered_receive [OF rm2]])
  note res = "1.prems" [unfolded recvfrom_loop.simps [of len src w] rm prod.case g Let_def al rm2]
  show ?case
  proof (cases "r1 = 0 \<and> g \<noteq> None \<and> 0 \<le> arc")
    case False
    then have "rc \<in> {1, -1} \<and> w' \<in> {w1, w2, w3}"
      using res receive_message_frame_spec(3) [OF rm] al'(1) by (auto simp: al split: if_splits option.splits)
    then show ?thesis using u1 u2 al'(2) recv_spec_nothing by auto
  next
    case True
    then obtain i where ok: "r1 = 0" "g = Some i" "\<not> arc < 0" "arc \<noteq> -1" by auto
    show ?thesis
    proof (cases "buf 4 = rp_expected_seq (w_peers w2 ! i)")
      case True
      with res ok have "rc = 0" "d = buf_read buf sizeof_header len" "src' = src1" "w' = flip_expected_bit i w3"
        by (auto simp: al)
      then show ?thesis using recv_spec_deliver [of src _ w src1 buf w1 i w2 arc w3 len] True al rm g ok by simp
    next
      case dup: False
      show ?thesis
      proof (cases "r2 = 0")
        case False
        with res ok dup receive_message_frame_spec(3) [OF rm2] have "rc = 1" "w' = w4"
          by (auto simp: al rm2 split: if_splits)
        with u4 show ?thesis by (simp add: recv_spec_nothing)
      next
        case True
        then have "recvfrom_loop len src2 w4 = (rc, d, src', w')"
          using res ok dup by (simp add: al rm2)
        then have "recv_spec len w4 rc d src' w'"
          using ok dup True
          by (intro "1.IH" [OF rm [symmetric] refl refl _ g [symmetric] _ refl refl al [symmetric]
                _ _ rm2 [symmetric] refl refl]) simp_all
        with u4 show ?thesis by (rule recv_spec_after)
      qed
    qed
  qed
qed

lemma rudp_recvfrom_meets_spec:
  assumes "rudp_recvfrom len src w = (rc, d, src', w')"
  shows "recv_spec len w rc d src' w'"
proof (cases "sizeof_header + len > MAX_FRAME_SIZE")
  case True
  with assms have "rc = -1" "w' = w" by (auto simp: rudp_recvfrom_def)
  then show ?thesis by (simp add: recv_spec_nothing undelivered_def)
next
  case False
  with assms show ?thesis by (simp add: rudp_recvfrom_def recvfrom_loop_meets_spec)
qed

end
