(* ===== verification/Sample_World.thy ===== *)
theory Sample_World
  imports Rudp_Props
begin

text \<open>
  A concrete world on which the properties are applied: empty tables, a system on which every
  call succeeds and whose clock stands still, and a script of arrivals. The first two slots of each table are written
  out, so that a run with two peers and two buffered frames evaluates by rewriting.
\<close>

section \<open>A concrete world\<close>

definition node_addr :: "byte \<Rightarrow> sockaddr_in" where
  "node_addr n = \<lparr>sin_family = AF_INET, sin_port = htons 5000, sin_addr = ucast n\<rparr>"

text \<open>The tables as the program starts with them, and a system on which every call succeeds.\<close>

definition free_peer :: rudp_peer where
  "free_peer = \<lparr>rp_used = False, rp_addr = node_addr 0, rp_send_seq = 0, rp_expected_seq = 0\<rparr>"

definition free_frame :: pending_frame where
  "free_frame = \<lparr>pf_used = False, pf_addr = node_addr 0, pf_data = []\<rparr>"

definition fresh_world :: "sock_event list \<Rightarrow> world" where
  "fresh_world evs = \<lparr>
     w_peers = [free_peer, free_peer] @ replicate (MAX_RUDP_PEERS - 2) free_peer,
     w_pending = [free_frame, free_frame] @ replicate (MAX_RUDP_PENDING - 2) free_frame,
     w_targets = [], w_script = evs, w_sent = [], w_tick = 0,
     w_clock = (\<lambda>_. 0), w_send_ok = (\<lambda>_. True), w_malloc_ok = (\<lambda>_. True), w_stack = (\<lambda>_ _. 0),
     w_pton = (\<lambda>nm. (1, ucast (hd nm))), w_getaddrinfo = (\<lambda>_ _. None)\<rparr>"

lemma free_slots [simp]:
  "rp_used free_peer = False" "rp_addr free_peer = node_addr 0" "rp_send_seq free_peer = 0" "rp_expected_seq free_peer = 0"
  "pf_used free_frame = False"
  by (simp_all add: free_peer_def free_frame_def)

lemma rudp_inv_fresh: "rudp_inv (fresh_world evs)"
proof -
  have *: "[x, x] @ replicate n x = replicate (Suc (Suc n)) x" for x :: 'a and n by simp
  show ?thesis unfolding fresh_world_def * rudp_inv_def peers_inv_def pending_inv_def
    by (simp add: no_clash_def peer_clash_def ack_clash_def is_bit_def)
qed

lemma run_word [simp]:
  "frame_type [t, b, c, d, s, p, q, r] = of_le32 [t,b,c,d]" 
  "frame_type (t # b # c # d # xs) = of_le32 [t,b,c,d]"
  "frame_seq (t # b # c # d # s # xs) = s"
  by (simp_all add: frame_type_def frame_seq_def field_def)

lemma codes [simp]: "le32 0 = [0,0,0,0]" "le32 1 = [1,0,0,0]" "le32 2 = [2,0,0,0]"
   "of_le32 [0,0,0,0] = 0" "of_le32 [1,0,0,0] = 1" "of_le32 [2,0,0,0] = 2"
  by (simp_all add: le32_def)

lemmas run_rudp = Let_def mk_frame_def addr_equal_def get_peer_def
  pending_take_frame_def pending_take_message_any_def pending_store_frame_def pending_drop_peer_frames_def
  send_ack_frame_def sendto_def gettimeofday_def malloc_def wait_for_frame_def receive_message_frame_def
  flip_expected_bit_def flip_send_bit_def rudp_recvfrom_def c_int_def buf_write_def buf_read_def
  numeral_3_eq_3 fresh_world_def node_addr_def upt_rec[of 0 1]


lemma buffered_simps [simp]:
  "buffered [] = {}"
  "buffered (p # ps) = (if pf_used p then insert (pf_addr p, pf_data p) (buffered ps) else buffered ps)"
  "buffered (replicate n free_frame) = {}"
  by (auto simp: buffered_def)

text \<open>A send to the node \<open>n\<close> succeeds in the world where its ACK is the next thing to arrive.\<close>

lemma send_acked:
  assumes "length b \<le> 65527"
  shows "\<exists>w'. rudp_sendto_with_limits b (node_addr n) tmo m (fresh_world (Arrived (node_addr n) (mk_frame ACK 0 []) # evs)) = Some (0, w')"
  using assms by (cases "tmo > 0") (simp_all add: run_rudp rudp_sendto_with_limits_def retry_loop.simps)

end
