(* ===== verification/Rudp_Theorems.thy ===== *)
theory Rudp_Theorems
  imports Sample_World
begin

text \<open>
  The properties of the reliable UDP: what sending and receiving guarantee, and two runs in which a
  message is acknowledged and never delivered.
\<close>

section \<open>Liveness of a receive\<close>

lemma frame_events:
  "wait_loop evs st a ty s tmo w = (r, w') \<Longrightarrow> Failed \<notin> set evs \<Longrightarrow> r \<noteq> -1 \<and> Failed \<notin> set (w_script w')"
proof (induction evs arbitrary: w)
  case (Cons ev evs)
  then show ?case
    by (cases ev) (auto simp: wait_loop_Arrived [OF refl] gettimeofday_def split: if_splits
        simp del: wait_loop.simps(2), auto simp: gettimeofday_def split: if_splits)
qed (auto simp: gettimeofday_def)

lemma wait_alive:
  assumes "wait_for_frame a ty s tmo w = (r, w')" and "Failed \<notin> set (w_script w)"
  shows "r \<noteq> -1 \<and> Failed \<notin> set (w_script w')"
proof -
  obtain b w2 where t: "pending_take_frame a ty s (tick w) = (b, w2)" by fastforce
  have "w_script w2 = w_script w" using pending_take_frame_work [OF t] by simp
  with assms t show ?thesis
    by (auto simp: wait_for_frame_def gettimeofday_def split: if_splits dest: frame_events)
qed

lemma ack_loop_alive:
  "ack_loop n a s w = (rc, w') \<Longrightarrow> Failed \<notin> set (w_script w) \<Longrightarrow> \<forall>k. w_send_ok w k \<Longrightarrow> rc \<noteq> -1"
proof (induction n arbitrary: w)
  case (Suc n)
  obtain r1 w1 where s: "send_ack_frame a s w = (r1, w1)" by fastforce
  obtain r2 w2 where t: "wait_for_frame a ACK_ACK s TIMEOUT_USEC w1 = (r2, w2)" by fastforce
  have w1: "w_script w1 = w_script w" "w_send_ok w1 = w_send_ok w" "r1 = 0"
    using s send_ack_frame_world [OF s] Suc.prems(3)
    by (auto simp: send_ack_frame_def sendto_def same_os_def)
  have w2: "w_send_ok w2 = w_send_ok w" "r2 \<noteq> -1" "Failed \<notin> set (w_script w2)"
    using w1 quiet_wait [OF t] wait_alive [OF t] Suc.prems(2) by (auto simp: quiet_def same_os_def)
  show ?case
  proof (cases "r2 = 0")
    case True
    then have "ack_loop n a s w2 = (rc, w')" using Suc.prems(1) s t w1 by simp
    from Suc.IH [OF this w2(3)] Suc.prems(3) w2(1) show ?thesis by simp
  next
    case False
    with Suc.prems(1) s t w1 w2 wait_rc [OF t] show ?thesis by auto
  qed
qed simp

lemma recvfrom_fresh:
  assumes none: "\<not> rudp_has_pending w" and scr: "w_script w = Arrived a dgram # evs"
    and f: "f = take MAX_FRAME_SIZE dgram" "sizeof_header + len \<le> length f"
    and msg: "frame_type f = frame_code MESSAGE" "frame_seq f = recv_bit w a"
    and room: "fst (get_peer a True w) \<noteq> None" and alive: "Failed \<notin> set evs" "\<forall>k. w_send_ok w k"
  shows "\<exists>w'. rudp_recvfrom len src w = (0, field sizeof_header len f, a, w')"
proof -
  let ?b = "w_stack w (w_tick w)" and ?w1 = "w\<lparr>w_script := evs\<rparr>"
  have fi: "first_idx (\<lambda>p. pf_used p \<and> frame_type (pf_data p) = frame_code MESSAGE) (w_pending w) = None"
    using none by (auto simp: rudp_has_pending_def first_idx_None)
  have len: "sizeof_header \<le> length f" "sizeof_header + len \<le> MAX_FRAME_SIZE" using f by auto
  have rm: "receive_message_frame src ?b w = (0, a, buf_write ?b f, ?w1)"
    unfolding receive_message_frame_def pending_take_message_any_def fi option.case prod.case scr
      recv_loop.simps sock_event.case Let_def f(1) [symmetric] using len(1) msg(1) by simp
  obtain r w2 where g: "get_peer a True ?w1 = (r, w2)" by fastforce
  have "fst (get_peer a True ?w1) = fst (get_peer a True w)"
    by (simp add: get_peer_def split: option.splits)
  with room g obtain i where i: "r = Some i" by auto
  have w2: "w_script w2 = evs" "w_send_ok w2 = w_send_ok w"
    using get_peer_world [OF g] by (simp_all add: same_os_def)
  have seq: "buf_write ?b f 4 = recv_bit w a" using len msg(2) by (simp add: buf_write_def frame_seq_def)
  have exp: "rp_expected_seq (w_peers w2 ! i) = recv_bit w a"
    using get_peer_spec(7) [OF g i] by (simp add: recv_bit_def)
  obtain arc w3 where al: "ack_loop MAX_TRANSMISION_ATTEMPTS a (recv_bit w a) w2 = (arc, w3)" by fastforce
  have "\<not> arc < 0" using ack_loop_alive [OF al] ack_loop_spec [OF al] alive w2 by auto
  then have "recvfrom_loop len src w =
      (0, buf_read (buf_write ?b f) sizeof_header len, a, flip_expected_bit i w3)"
    unfolding recvfrom_loop.simps [of len src w] rm prod.case g i Let_def option.case seq exp al by simp
  with len f(2) show ?thesis by (simp add: rudp_recvfrom_def buf_read_write)
qed

section \<open>Properties\<close>

text \<open>
  C6: Sending flips exactly one alternating bit, and only on success. A call of
  \<open>rudp_sendto_with_limits\<close> that returns 0 flips the send bit of the destination, has transmitted
  the message with the old bit, and a matching ACK of the destination arrived during the call;
  a call that returns -1 leaves every bit as it was. The receive bits are never touched.
\<close>
theorem send_flips_only_on_ack:
  assumes "rudp_sendto_with_limits buf dest tmo m w = Some (rc, w')"
  shows "(rc = 0 \<and> send_bit w' = (send_bit w)(dest := send_bit w dest XOR 1)
            \<and> copies (mk_frame MESSAGE (send_bit w dest) buf) w < copies (mk_frame MESSAGE (send_bit w dest) buf) w'
            \<and> (\<exists>x\<in>arrivals (w_script w). matches dest ACK (send_bit w dest) x)
          \<or> rc = -1 \<and> send_bit w' = send_bit w)
        \<and> recv_bit w' = recv_bit w"
  using rudp_sendto_meets_spec [OF assms] by (auto simp: send_spec_def)

theorem send_flips_only_on_ack_witness:
  "let w = fresh_world [Arrived (node_addr 1) (mk_frame ACK 0 [])] in
   \<exists>w'. rudp_sendto [7] (node_addr 1) w = Some (0, w') \<and> send_bit w' (node_addr 1) = 1"
proof -
  let ?w = "fresh_world [Arrived (node_addr 1) (mk_frame ACK 0 [])]"
  have "\<exists>w'. rudp_sendto_with_limits [7] (node_addr 1) 100000 3 ?w = Some (0, w')"
    by (simp add: run_rudp rudp_sendto_with_limits_def retry_loop.simps)
  then obtain w' where w': "rudp_sendto_with_limits [7] (node_addr 1) 100000 3 ?w = Some (0, w')" by blast
  have "send_bit ?w (node_addr 1) = 0" by (simp add: send_bit_def peer_bit_def run_rudp)
  with send_flips_only_on_ack [OF w'] w' show ?thesis by (auto simp: rudp_sendto_def Let_def)
qed

text \<open>
  C11: A send with a limit of \<open>m > 0\<close> attempts always returns, whatever arrives on the socket, and
  puts the message on the wire at most \<open>m\<close> times (\<open>rudp_sendto\<close> has the limit 3).
\<close>
theorem send_returns_within_limit:
  assumes "0 < m"
  shows "\<exists>rc w'. rudp_sendto_with_limits buf dest tmo m w = Some (rc, w')
    \<and> copies (mk_frame MESSAGE (send_bit w dest) buf) w'
        \<le> copies (mk_frame MESSAGE (send_bit w dest) buf) w + nat m"
  using rudp_sendto_bounded [OF assms] .

theorem send_returns_within_limit_witness:
  "\<exists>rc w'. rudp_sendto [7] (node_addr 1) (fresh_world []) = Some (rc, w')
    \<and> copies (mk_frame MESSAGE 0 [7]) w' \<le> 3"
  using send_returns_within_limit [of 3 "[7]" "node_addr 1" 100000 "fresh_world []"]
  by (simp add: rudp_sendto_def send_bit_def peer_bit_def copies_def run_rudp)

text \<open>
  C7: Only a receive that returns 0 delivers, and what it delivers is new and authentic: the frame
  was in the pending buffer or on the wire, came from the reported source and carried the bit awaited from
  that source; the bit is flipped (so the same frame is not delivered twice), an ACK with the bit
  was sent, and the data is the payload when the frame holds that many bytes. A receive that
  returns anything else changes no bit.
\<close>
theorem receive_delivers_awaited_message:
  assumes "rudp_recvfrom len src0 w = (rc, data, src, w')" and "rudp_inv w"
  shows "if rc = 0
    then recv_bit w' = (recv_bit w)(src := recv_bit w src XOR 1)
      \<and> (src, mk_frame ACK (recv_bit w src) []) \<in> set (w_sent w')
      \<and> (\<exists>f. (src, f) \<in> frames w \<and> matches src MESSAGE (recv_bit w src) (src, f)
            \<and> (sizeof_header + len \<le> length f \<longrightarrow> data = field sizeof_header len f))
    else recv_bit w' = recv_bit w"
  using rudp_recvfrom_meets_spec [OF assms(1)] assms(2) by (auto simp: recv_spec_def)

theorem receive_delivers_awaited_message_witness:
  "let w = fresh_world [Arrived (node_addr 1) (mk_frame MESSAGE 0 [7])] in
   \<exists>w'. rudp_recvfrom 1 (node_addr 0) w = (0, [7], node_addr 1, w') \<and> recv_bit w' (node_addr 1) = 1"
proof -
  let ?w = "fresh_world [Arrived (node_addr 1) (mk_frame MESSAGE 0 [7])]"
  obtain w' where w': "rudp_recvfrom 1 (node_addr 0) ?w = (0, [7], node_addr 1, w')"
    by (simp add: run_rudp recvfrom_loop.simps)
  have "recv_bit ?w (node_addr 1) = 0" by (simp add: recv_bit_def peer_bit_def run_rudp)
  with receive_delivers_awaited_message [OF w' rudp_inv_fresh] w' show ?thesis by (auto simp: Let_def)
qed

text \<open>
  C12: A fresh message is delivered. When no message waits in the buffer, the next datagram is a
  message with the awaited bit and enough bytes, there is an entry for its sender in the peer table or room for one, and the
  system calls succeed, then the receive returns 0, its payload and its source, whatever arrives after it.
\<close>
theorem fresh_message_is_delivered:
  assumes "\<not> rudp_has_pending w" and "w_script w = Arrived a dgram # evs"
    and "f = take MAX_FRAME_SIZE dgram" "sizeof_header + len \<le> length f"
    and "frame_type f = frame_code MESSAGE" "frame_seq f = recv_bit w a"
    and "fst (get_peer a True w) \<noteq> None" and "Failed \<notin> set evs" "\<forall>k. w_send_ok w k"
  shows "\<exists>w'. rudp_recvfrom len src w = (0, field sizeof_header len f, a, w')"
  using recvfrom_fresh [OF assms] .

theorem fresh_message_is_delivered_witness:
  "\<exists>w'. rudp_recvfrom 1 (node_addr 0)
     (fresh_world [Arrived (node_addr 1) (mk_frame MESSAGE 0 [7]), Spurious, Idle]) = (0, [7], node_addr 1, w')"
proof -
  let ?f = "mk_frame MESSAGE 0 [7 :: byte]"
  let ?w = "fresh_world [Arrived (node_addr 1) ?f, Spurious, Idle]"
  have "\<exists>w'. rudp_recvfrom 1 (node_addr 0) ?w = (0, field sizeof_header 1 ?f, node_addr 1, w')"
    by (rule fresh_message_is_delivered [where evs = "[Spurious, Idle]" and dgram = ?f])
      (simp_all add: rudp_has_pending_def recv_bit_def peer_bit_def run_rudp)
  then show ?thesis by (simp add: mk_frame_def field_def)
qed

text \<open>
  C13: The invariant of the two static tables: 32 and 256 slots, no two used slots of \<open>peers\<close> for one
  address, every bit 0 or 1, no two buffered ACKs or ACK_ACKs with the same address and bit, and
  every buffered frame between 8 and 65535 bytes. Sending and receiving preserve it.
\<close>
theorem rudp_tables_invariant:
  assumes "rudp_inv w"
  shows "(case rudp_sendto_with_limits buf dest tmo m w of Some (rc, w') \<Rightarrow> rudp_inv w' | None \<Rightarrow> True)
    \<and> (case rudp_recvfrom len src w of (rc, data, src', w') \<Rightarrow> rudp_inv w')"
proof
  show "case rudp_sendto_with_limits buf dest tmo m w of Some (rc, w') \<Rightarrow> rudp_inv w' | None \<Rightarrow> True"
    using rudp_sendto_meets_spec [of buf dest tmo m w] assms by (auto simp: send_spec_def split: option.splits)
  show "case rudp_recvfrom len src w of (rc, data, src', w') \<Rightarrow> rudp_inv w'"
    using rudp_recvfrom_meets_spec [of len src w] assms by (auto simp: recv_spec_def split: prod.splits)
qed

theorem rudp_tables_invariant_witness:
  "case rudp_recvfrom 1 (node_addr 0) (fresh_world [Arrived (node_addr 1) (mk_frame MESSAGE 0 [7])])
   of (rc, data, src', w') \<Rightarrow> rudp_inv w'"
  by (rule conjunct2 [OF rudp_tables_invariant [OF rudp_inv_fresh]])



end
