(* ===== verification/Unicast.thy ===== *)
theory Unicast
  imports Rudp
begin

text \<open>
  \<open>unicast.c\<close>: unicast messages over the reliable UDP of \<open>Rudp\<close>: address resolution, the change
  of byte order on the way out and in, and the check of the payload length.
\<close>

definition zero_addr :: sockaddr_in where
  "zero_addr = \<lparr>sin_family = 0, sin_port = 0, sin_addr = 0\<rparr>"

text \<open>
  \<open>resolve_next_addr\<close> asks \<open>inet_pton\<close> first and the name service when the name is not a dotted
  address.
\<close>

definition resolve_next_addr :: "route \<Rightarrow> world \<Rightarrow> int \<times> sockaddr_in \<times> world" where
  "resolve_next_addr nxt w =
     (let out = \<lparr>sin_family = AF_INET, sin_port = htons (unicast_port nxt), sin_addr = 0\<rparr>;
          (res, addr) = w_pton w (c_str (node_name nxt)) in
      if res < 0 then (-1, out, w)
      else if res = 0 then
        (case w_getaddrinfo w (w_tick w) (c_str (node_name nxt)) of
           None \<Rightarrow> (-1, out, tick w)
         | Some a \<Rightarrow> (0, out\<lparr>sin_addr := a\<rparr>, tick w))
      else (0, out\<lparr>sin_addr := addr\<rparr>, w))"

definition build_unicast_wire :: "unicast_msg \<Rightarrow> unicast_msg option" where
  "build_unicast_wire msg =
     (if unat (um_payload_len msg) > MAX_UNICAST_PAYLOAD then None
      else Some (zero_umsg\<lparr>um_type := htons (um_type msg), um_payload_len := htons (um_payload_len msg),
             um_payload := overlay (um_payload zero_umsg)
               (take (unat (um_payload_len msg)) (um_payload msg))\<rparr>))"

definition unicast_send_limited ::
    "unicast_msg \<Rightarrow> route \<Rightarrow> int \<Rightarrow> int \<Rightarrow> world \<Rightarrow> (int \<times> world) option" where
  "unicast_send_limited msg nxt ack_timeout_us max_attempts w =
     (case resolve_next_addr nxt w of (rc, addr, w1) \<Rightarrow>
        if rc < 0 then Some (-1, w1)
        else case build_unicast_wire msg of
          None \<Rightarrow> Some (-1, w1)
        | Some wire \<Rightarrow> rudp_sendto_with_limits (bytes_of_umsg wire) addr ack_timeout_us max_attempts w1)"

definition unicast_send :: "unicast_msg \<Rightarrow> route \<Rightarrow> world \<Rightarrow> (int \<times> world) option" where
  "unicast_send msg nxt w =
     (case resolve_next_addr nxt w of (rc, addr, w1) \<Rightarrow>
        if rc < 0 then Some (-1, w1)
        else case build_unicast_wire msg of
          None \<Rightarrow> Some (-1, w1)
        | Some wire \<Rightarrow> rudp_sendto (bytes_of_umsg wire) addr w1)"

text \<open>The reading half of \<open>unicast_recv\<close>: what the bytes of a received frame mean.\<close>

definition read_unicast_wire :: "unicast_msg \<Rightarrow> unicast_msg \<Rightarrow> int \<times> unicast_msg" where
  "read_unicast_wire wire msg =
     (let msg1 = msg\<lparr>um_type := ntohs (um_type wire), um_payload_len := ntohs (um_payload_len wire)\<rparr> in
      if unat (um_payload_len msg1) > MAX_UNICAST_PAYLOAD then (-1, msg1)
      else (0, msg1\<lparr>um_payload := overlay (um_payload msg1)
                     (take (unat (um_payload_len msg1)) (um_payload wire))\<rparr>))"

definition unicast_recv :: "unicast_msg \<Rightarrow> world \<Rightarrow> int \<times> unicast_msg \<times> world" where
  "unicast_recv msg w =
     (case rudp_recvfrom sizeof_umsg zero_addr w of (rc, b, src, w1) \<Rightarrow>
        if rc \<noteq> 0 then (rc, msg, w1)
        else case read_unicast_wire (umsg_of_bytes b) msg of (rc2, msg1) \<Rightarrow> (rc2, msg1, w1))"

section \<open>Properties of the message layer\<close>

lemma build_unicast_wire_Some:
  "unat (um_payload_len msg) \<le> 512 \<Longrightarrow> wf_umsg msg \<Longrightarrow>
   \<exists>wire. build_unicast_wire msg = Some wire \<and> wf_umsg wire"
  by (auto simp: build_unicast_wire_def wf_umsg_def zero_umsg_def)

text \<open>Sender and receiver agree on the part of the payload that is in use; the rest is zero.\<close>

lemma unicast_roundtrip:
  assumes len: "unat (um_payload_len msg) \<le> 512" and wf: "wf_umsg msg"
  shows "\<exists>wire. build_unicast_wire msg = Some wire \<and>
    read_unicast_wire (umsg_of_bytes (bytes_of_umsg wire)) zero_umsg =
      (0, msg\<lparr>um_payload := overlay (replicate 512 0) (take (unat (um_payload_len msg)) (um_payload msg))\<rparr>)"
proof -
  from build_unicast_wire_Some [OF len wf] obtain wire
    where w: "build_unicast_wire msg = Some wire" and ww: "wf_umsg wire" by blast
  let ?n = "unat (um_payload_len msg)"
  have wire: "wire = \<lparr>um_type = htons (um_type msg), um_payload_len = htons (um_payload_len msg),
      um_payload = overlay (replicate 512 0) (take ?n (um_payload msg))\<rparr>"
    using w len by (auto simp: build_unicast_wire_def zero_umsg_def)
  have "take ?n (um_payload wire) = take ?n (um_payload msg)"
    using len wf by (simp add: wire overlay_def wf_umsg_def)
  then have "read_unicast_wire wire zero_umsg =
      (0, msg\<lparr>um_payload := overlay (replicate 512 0) (take ?n (um_payload msg))\<rparr>)"
    using len by (simp add: read_unicast_wire_def wire zero_umsg_def)
  then show ?thesis using w umsg_fmt.dec_enc_exact [OF ww] by simp
qed

lemma mk_umsg_roundtrip:
  assumes "length b \<le> 512"
  shows "\<exists>wire. build_unicast_wire (mk_umsg ty b) = Some wire \<and>
    read_unicast_wire (umsg_of_bytes (bytes_of_umsg wire)) zero_umsg = (0, mk_umsg ty b)"
proof -
  have l: "unat (um_payload_len (mk_umsg ty b)) = length b"
    using assms by (simp add: mk_umsg_def unat_of_nat take_bit_eq_mod)
  have wf: "wf_umsg (mk_umsg ty b)" using assms by (simp add: wf_umsg_def mk_umsg_def zero_umsg_def)
  have "overlay (replicate 512 0) (take (length b) (um_payload (mk_umsg ty b))) = um_payload (mk_umsg ty b)"
    using assms by (simp add: mk_umsg_def zero_umsg_def overlay_def)
  then show ?thesis using unicast_roundtrip [of "mk_umsg ty b"] assms l wf by simp
qed

end
