(* ===== verification/Exchange.thy ===== *)
theory Exchange
  imports Rudp_Theorems Unicast
begin

unbundle bit_operations_syntax

text \<open>
  Two nodes and the reliable UDP between them (\<open>rudp.c\<close> on both sides): a sender whose sends succeed and a receiver that
  empties its buffer, as the loop of \<open>handle_unicast_if_ready\<close> does. Datagrams may be lost, duplicated, reordered and delayed, but not
  beyond the exchange they belong to. Under these conditions the pair implements a queue.
\<close>

section \<open>A sequence of receives\<close>

text \<open>
  \<open>k\<close> calls of \<open>rudp_recvfrom\<close> with room for \<open>len\<close> bytes: what they deliver, with the sources, and whether none of them failed. After a failing one
  there is none.
\<close>

fun receive_calls :: "nat \<Rightarrow> nat \<Rightarrow> world \<Rightarrow> (sockaddr_in \<times> bytes) list \<times> bool \<times> world" where
  "receive_calls 0 len w = ([], True, w)"
| "receive_calls (Suc k) len w =
     (case rudp_recvfrom len zero_addr w of (rc, d, src, w1) \<Rightarrow>
        if rc < 0 then ([], False, w1)
        else case receive_calls k len w1 of (ds, ok, w2) \<Rightarrow> (if rc = 0 then (src, d) # ds else ds, ok, w2))"

lemma flip_differs: "(b :: byte) XOR 1 \<noteq> b"
proof
  assume "b XOR 1 = b"
  then have "bit (b XOR 1) 0 = bit b 0" by simp
  then show False by (simp add: bit_simps)
qed

lemma quiet_silent: "quiet (\<lambda>_. False) w w' \<Longrightarrow> w_sent w' = w_sent w"
proof -
  assume "quiet (\<lambda>_. False) w w'"
  then obtain xs where "w_sent w' = w_sent w @ xs" "\<forall>x\<in>set xs. False" by (auto simp: quiet_def)
  then show ?thesis by (cases xs) auto
qed

text \<open>Every frame that can be received as a message is the message \<open>p\<close> of \<open>a\<close> with the bit \<open>b\<close>.\<close>

definition only_message :: "sockaddr_in \<Rightarrow> byte \<Rightarrow> bytes \<Rightarrow> world \<Rightarrow> bool" where
  "only_message a b p w \<longleftrightarrow>
     (\<forall>x\<in>frames w. frame_type (snd x) = frame_code MESSAGE \<longrightarrow> x = (a, mk_frame MESSAGE b p))"

lemma only_message_mono: "only_message a b p w \<Longrightarrow> frames w' \<subseteq> frames w \<Longrightarrow> only_message a b p w'"
  by (auto simp: only_message_def)

text \<open>A receive that returns 1 while every message is an awaited one has received none, and sends nothing.\<close>

lemma receive_idle:
  assumes "rudp_recvfrom len src w = (1, d, src', w')" and "only_message a b p w" "recv_bit w a = b" "rudp_inv w"
  shows "w_sent w' = w_sent w"
proof -
  have loop: "recvfrom_loop len src w = (1, d, src', w')"
    using assms(1) by (simp add: rudp_recvfrom_def split: if_splits)
  obtain rc src1 buf w1 where rm: "receive_message_frame src (w_stack w (w_tick w)) w = (rc, src1, buf, w1)" by (metis prod_cases4)
  note rm' = receive_message_frame_spec [OF rm]
  show ?thesis
  proof (cases "rc = 0")
    case False
    with loop have "w' = w1" by (simp add: recvfrom_loop.simps [of len src w] rm)
    with rm'(1) show ?thesis by (simp add: quiet_silent)
  next
    case True
    have pend: "pending_inv (w_pending w)" using assms(4) by (simp add: rudp_inv_def)
    with rm'(4) [OF True] assms(2) obtain c where "src1 = a" "buf = buf_write c (mk_frame MESSAGE b p)"
      by (auto simp: only_message_def)
    then have buf: "src1 = a" "buf 4 = b" by (simp_all add: buf_write_def mk_frame_def nth_append)
    obtain g w2 where g: "get_peer src1 True w1 = (g, w2)" by fastforce
    obtain arc w3 where al: "ack_loop MAX_TRANSMISION_ATTEMPTS src1 (buf 4) w2 = (arc, w3)" by fastforce
    have "recv_bit w1 = recv_bit w" by (rule quiet_bits(2) [OF rm'(1)])
    then have "rp_expected_seq (w_peers w2 ! i) = b" if "g = Some i" for i
      using get_peer_spec(7) [OF g that] assms(3) buf by simp
    with loop [unfolded recvfrom_loop.simps [of len src w] rm prod.case g Let_def al] True buf have False
      by (auto simp: al [unfolded buf] split: option.splits if_splits)
    then show ?thesis ..
  qed
qed

text \<open>What one call does then.\<close>

lemma receive_once:
  assumes "rudp_recvfrom len src0 w = (rc, d, src, w1)" and "only_message a b p w" "rudp_inv w" "length p = len"
  shows "rudp_inv w1" "only_message a b p w1" "\<exists>xs. w_sent w1 = w_sent w @ xs \<and> (\<forall>x\<in>set xs. is_ack x)"
    "rc = 0 \<Longrightarrow> src = a \<and> d = p \<and> recv_bit w a = b \<and> recv_bit w1 a = b XOR 1"
    "rc \<noteq> 0 \<Longrightarrow> recv_bit w1 = recv_bit w"
    "rc = 1 \<Longrightarrow> recv_bit w a = b \<Longrightarrow> w_sent w1 = w_sent w" "rc \<in> {0, 1, -1}"
proof -
  note spec = rudp_recvfrom_meets_spec [OF assms(1), unfolded recv_spec_def]
  show "rudp_inv w1" using spec assms(3) by blast
  show "only_message a b p w1" using spec only_message_mono [OF assms(2)] by blast
  show "\<exists>xs. w_sent w1 = w_sent w @ xs \<and> (\<forall>x\<in>set xs. is_ack x)" using spec by blast
  show "rc \<noteq> 0 \<Longrightarrow> recv_bit w1 = recv_bit w" "rc \<in> {0, 1, -1}" using spec by simp_all
  show "src = a \<and> d = p \<and> recv_bit w a = b \<and> recv_bit w1 a = b XOR 1" if "rc = 0"
  proof -
    from spec that assms(3) obtain f where f: "(src, f) \<in> frames w" "matches src MESSAGE (recv_bit w src) (src, f)"
      "sizeof_header + len \<le> length f \<longrightarrow> d = field sizeof_header len f" by blast
    with assms(2) have "(src, f) = (a, mk_frame MESSAGE b p)"
      by (auto simp: only_message_def matches_def simp del: frame_code.simps)
    with f(2,3) assms(4) spec that show ?thesis by (simp add: matches_def mk_frame_def field_def)
  qed
  show "w_sent w1 = w_sent w" if "rc = 1" "recv_bit w a = b"
    using receive_idle [OF assms(1) [unfolded that(1)] assms(2) that(2) assms(3)] .
qed

text \<open>So the calls deliver it once, if at all, and an ACK is sent only after that.\<close>

lemma receive_calls_once:
  assumes "receive_calls k len w = (ds, ok, w')" and "only_message a b p w" "rudp_inv w" "length p = len"
  shows "rudp_inv w' \<and> (\<exists>xs. w_sent w' = w_sent w @ xs \<and> (\<forall>x\<in>set xs. is_ack x))
    \<and> (if recv_bit w a = b
       then ds = [(a, p)] \<and> recv_bit w' a = b XOR 1
         \<or> ds = [] \<and> recv_bit w' a = b \<and> (ok \<longrightarrow> w_sent w' = w_sent w)
       else ds = [] \<and> recv_bit w' a = recv_bit w a)"
  using assms
proof (induction k arbitrary: w ds)
  case (Suc k)
  obtain rc d src w1 where r: "rudp_recvfrom len zero_addr w = (rc, d, src, w1)" by (metis prod_cases4)
  note one = receive_once [OF r Suc.prems(2-4)]
  show ?case
  proof (cases "rc < 0")
    case True
    with Suc.prems(1) r have "ds = []" "\<not> ok" "w' = w1" by auto
    with True one show ?thesis by auto
  next
    case False
    obtain ds1 where c: "receive_calls k len w1 = (ds1, ok, w')" "ds = (if rc = 0 then (src, d) # ds1 else ds1)"
      using Suc.prems(1) r False by (auto split: prod.splits)
    note IH = Suc.IH [OF c(1) one(2,1) Suc.prems(4)]
    have "rc = 0 \<or> rc = 1" using one(7) False by auto
    then show ?thesis
    proof
      assume 0: "rc = 0"
      with IH c(2) one(3) one(4) show ?thesis by (auto simp: flip_differs)
    next
      assume 1: "rc = 1"
      with IH c(2) one(3,5,6) show ?thesis by auto
    qed
  qed
qed simp

section \<open>Exchanges\<close>

text \<open>
  Every datagram that arrives in the script \<open>evs\<close> was sent by \<open>src\<close> to \<open>dst\<close> while the world of \<open>src\<close> went from \<open>w\<close> to \<open>w'\<close>. Nothing is said about the
  order or the number of copies.
\<close>

definition carried :: "sockaddr_in \<Rightarrow> sockaddr_in \<Rightarrow> world \<Rightarrow> world \<Rightarrow> sock_event list \<Rightarrow> bool" where
  "carried src dst w w' evs \<longleftrightarrow>
     (\<forall>ev\<in>set evs. case ev of Arrived a d \<Rightarrow> a = src \<and> (dst, d) \<in> set (drop (length (w_sent w)) (w_sent w')) | _ \<Rightarrow> True)"

lemma carried_arrivals:
  assumes "carried src dst w w' evs" and "w_sent w' = w_sent w @ xs" and "x \<in> arrivals evs"
  shows "fst x = src \<and> (\<exists>d. (dst, d) \<in> set xs \<and> snd x = take MAX_FRAME_SIZE d)"
  using assms by (fastforce simp: carried_def arrivals_def split: sock_event.splits)

text \<open>
  The worlds of a sender at \<open>a\<close> and a receiver at \<open>b\<close>, with the messages sent and delivered so far, all of \<open>len\<close>
  bytes. In an exchange the send returns 0, the receiver makes any number of calls, none fails, and its buffer holds no message at the
  end. In a lost exchange the send gives up and none of its datagrams arrives.
\<close>

inductive stream :: "sockaddr_in \<Rightarrow> sockaddr_in \<Rightarrow> nat \<Rightarrow> world \<Rightarrow> world \<Rightarrow> bytes list \<Rightarrow> (sockaddr_in \<times> bytes) list \<Rightarrow> bool"
  for a b len where
  start: "rudp_inv wa \<Longrightarrow> rudp_inv wb \<Longrightarrow> \<not> rudp_has_pending wb \<Longrightarrow> send_bit wa b = recv_bit wb a \<Longrightarrow>
    stream a b len wa wb [] []"
| exchange: "stream a b len wa wb sent got \<Longrightarrow> length p = len \<Longrightarrow>
    rudp_sendto_with_limits p b tmo m (wa\<lparr>w_script := sa\<rparr>) = Some (0, wa') \<Longrightarrow>
    receive_calls k len (wb\<lparr>w_script := sb\<rparr>) = (ds, True, wb') \<Longrightarrow> \<not> rudp_has_pending wb' \<Longrightarrow>
    carried a b wa wa' sb \<Longrightarrow> carried b a wb wb' sa \<Longrightarrow>
    stream a b len wa' wb' (sent @ [p]) (got @ ds)"
| lost: "stream a b len wa wb sent got \<Longrightarrow>
    rudp_sendto_with_limits p b tmo m (wa\<lparr>w_script := sa\<rparr>) = Some (-1, wa') \<Longrightarrow>
    stream a b len wa' wb sent got"

lemma only_message_carried:
  assumes "\<not> rudp_has_pending wb" and "carried a b wa wa' sb" and "w_sent wa' = w_sent wa @ xs"
    and "\<forall>x\<in>set xs. send_traffic b p s x" and "8 + length p \<le> MAX_FRAME_SIZE"
  shows "only_message a s p (wb\<lparr>w_script := sb\<rparr>)"
  unfolding only_message_def
proof (intro ballI impI)
  fix x assume x: "x \<in> frames (wb\<lparr>w_script := sb\<rparr>)" "frame_type (snd x) = frame_code MESSAGE"
  then have "x \<in> arrivals sb"
    using assms(1) by (auto simp: frames_def buffered_def rudp_has_pending_def)
  from carried_arrivals [OF assms(2,3) this] obtain d where
    d: "fst x = a" "(b, d) \<in> set xs" "snd x = take MAX_FRAME_SIZE d" by blast
  with assms(4) have "is_ack (b, d) \<or> d = mk_frame MESSAGE s p \<or> d = mk_frame ACK_ACK s []"
    by (auto simp: send_traffic_def)
  with d(3) x(2) have "snd x = mk_frame MESSAGE s p" using assms(5) by (auto simp: is_ack_def)
  with d(1) show "x = (a, mk_frame MESSAGE s p)" by (cases x) simp
qed

lemma acked_by:
  assumes "carried b a wb wb' sa" and "w_sent wb' = w_sent wb @ xs" and "x \<in> arrivals sa"
  shows "xs \<noteq> []"
  using carried_arrivals [OF assms] by auto

lemma same_script [simp]:
  "send_bit (w\<lparr>w_script := s\<rparr>) = send_bit w" "recv_bit (w\<lparr>w_script := s\<rparr>) = recv_bit w"
  "rudp_inv (w\<lparr>w_script := s\<rparr>) = rudp_inv w" "rudp_has_pending (w\<lparr>w_script := s\<rparr>) = rudp_has_pending w"
  by (simp_all add: send_bit_def recv_bit_def rudp_inv_def rudp_has_pending_def)

lemma sent_fits: "rudp_sendto_with_limits p b tmo m w = Some (0, w') \<Longrightarrow> 8 + length p \<le> MAX_FRAME_SIZE"
  by (auto simp: rudp_sendto_with_limits_def split: if_splits)

lemma stream_inv:
  "stream a b len wa wb sent got \<Longrightarrow> rudp_inv wa \<and> rudp_inv wb \<and> \<not> rudp_has_pending wb
     \<and> send_bit wa b = recv_bit wb a \<and> got = map (Pair a) sent"
proof (induction rule: stream.induct)
  case (exchange wa wb sent got p tmo m sa wa' k sb ds wb')
  let ?s = "send_bit wa b"
  have spec: "send_spec p b (wa\<lparr>w_script := sa\<rparr>) 0 wa'" by (rule rudp_sendto_meets_spec [OF exchange.hyps(3)])
  then obtain xs where xs: "w_sent wa' = w_sent wa @ xs" "\<forall>x\<in>set xs. send_traffic b p ?s x"
    and bit: "send_bit wa' b = ?s XOR 1" and inv: "rudp_inv wa'" and ack: "arrivals sa \<noteq> {}"
    using exchange.IH by (auto simp: send_spec_def)
  have only: "only_message a ?s p (wb\<lparr>w_script := sb\<rparr>)"
    using only_message_carried [OF _ exchange.hyps(6) xs sent_fits [OF exchange.hyps(3)]] exchange.IH by simp
  from receive_calls_once [OF exchange.hyps(4) only _ exchange.hyps(2)] exchange.IH obtain ys where
    ys: "w_sent wb' = w_sent wb @ ys" and inv': "rudp_inv wb'"
    and ds: "ds = [(a, p)] \<and> recv_bit wb' a = ?s XOR 1 \<or> ds = [] \<and> w_sent wb' = w_sent wb" by auto
  have "ys \<noteq> []" using ack acked_by [OF exchange.hyps(7) ys] by blast
  with ds ys have "ds = [(a, p)]" "recv_bit wb' a = ?s XOR 1" by auto
  with exchange.IH exchange.hyps(5) inv inv' bit show ?case by simp
next
  case (lost wa wb sent got p tmo m sa wa')
  from rudp_sendto_meets_spec [OF lost.hyps(2)] lost.IH show ?case by (auto simp: send_spec_def)
qed auto

text \<open>
  C3: The reliable UDP implements a queue. Over a network that may lose, duplicate and reorder datagrams, as long as none outlives the exchange
  it belongs to, a receiver whose calls do not fail and that leaves no message in its buffer is delivered exactly the messages whose send
  returned 0, each once and in the order of the sends, with the sender as source; and both ends agree on the next bit. Sends that gave up
  do no harm when nothing of them arrived.
\<close>
theorem reliable_udp_is_a_queue:
  assumes "stream a b len wa wb sent got"
  shows "got = map (Pair a) sent \<and> send_bit wa b = recv_bit wb a"
  using stream_inv [OF assms] by simp

theorem reliable_udp_is_a_queue_witness:
  "\<exists>wa wb. stream (node_addr 1) (node_addr 2) 1 wa wb [[7]] [(node_addr 1, [7])]
    \<and> send_bit wa (node_addr 2) = recv_bit wb (node_addr 1)"
proof -
  let ?m = "Arrived (node_addr 1) (mk_frame MESSAGE 0 [7])"
  let ?sa = "[Arrived (node_addr 2) (mk_frame ACK 0 [])]" and ?sb = "[?m, Arrived (node_addr 1) (mk_frame ACK_ACK 0 []), Idle]"
  let ?w = "fresh_world []"
  have bits: "send_bit ?w x = 0" "recv_bit ?w x = 0" for x by (simp_all add: send_bit_def recv_bit_def peer_bit_def run_rudp)
  have np: "\<not> rudp_has_pending ?w" by (simp add: rudp_has_pending_def run_rudp)
  have start: "stream (node_addr 1) (node_addr 2) 1 ?w ?w [] []"
    using rudp_inv_fresh np bits by (intro stream.start) simp_all
  obtain wa where wa: "rudp_sendto_with_limits [7] (node_addr 2) 100000 3 (?w\<lparr>w_script := ?sa\<rparr>) = Some (0, wa)"
    "(node_addr 2, mk_frame MESSAGE 0 [7]) \<in> set (w_sent wa)" "(node_addr 2, mk_frame ACK_ACK 0 []) \<in> set (w_sent wa)"
    by (simp add: run_rudp rudp_sendto_with_limits_def retry_loop.simps)
  obtain wb where wb: "receive_calls (Suc (Suc 0)) 1 (?w\<lparr>w_script := ?sb\<rparr>) = ([(node_addr 1, [7])], True, wb)"
    "(node_addr 1, mk_frame ACK 0 []) \<in> set (w_sent wb)" "\<not> rudp_has_pending wb"
    by (simp add: run_rudp recvfrom_loop.simps rudp_has_pending_def)
  have none: "w_sent ?w = []" by (simp add: fresh_world_def)
  have "stream (node_addr 1) (node_addr 2) 1 wa wb ([] @ [[7]]) ([] @ [(node_addr 1, [7])])"
    by (rule stream.exchange [OF start _ wa(1) wb(1,3)]) (use wa wb none in \<open>simp_all add: carried_def\<close>)
  from reliable_udp_is_a_queue [OF this] this show ?thesis by auto
qed

end
