(* ===== verification/Join_State.thy ===== *)
theory Join_State
  imports Wire
begin

text \<open>
  \<open>join.c\<close> and the state types of \<open>include/join.h\<close>: the table of nodes that asked to join
  (\<open>joins\<close>, 32 slots with a \<open>used\<close> flag and a separate \<open>count\<close>) and the history of nodes that
  have joined (\<open>completed\<close>, the last 32 names).

  The invariant \<open>join_inv\<close> ties \<open>count\<close> to the used slots. \<open>waiting\<close> reads the table as the list
  of waiting nodes and \<open>history\<close> the completed array as a list; every operation is described by
  what it does to these two lists. The interface \<open>join_queue\<close> is what the join state machine
  uses of the table.
\<close>

record pending_join =
  pj_used :: bool
  pj_request_id :: u32
  pj_node_name :: name
  pj_unicast_port :: u16
  pj_ip :: u32
  pj_last_seen :: int

record completed_join =
  cj_request_id :: u32
  cj_node_name :: name

record join_state =
  js_joins :: "pending_join list"
  js_count :: size_t
  js_completed :: "completed_join list"
  js_completed_count :: size_t

definition zero_pending :: pending_join where
  "zero_pending = \<lparr>pj_used = False, pj_request_id = 0, pj_node_name = zero_name,
     pj_unicast_port = 0, pj_ip = 0, pj_last_seen = 0\<rparr>"

definition zero_completed :: completed_join where
  "zero_completed = \<lparr>cj_request_id = 0, cj_node_name = zero_name\<rparr>"

definition zero_join_state :: join_state where
  "zero_join_state = \<lparr>js_joins = replicate MAX_PENDING_JOINS zero_pending, js_count = 0,
     js_completed = replicate MAX_PENDING_JOINS zero_completed, js_completed_count = 0\<rparr>"

section \<open>The operations\<close>

text \<open>The argument \<open>now\<close> is the value of \<open>time(NULL)\<close>.\<close>

definition add_pending_join ::
    "join_state \<Rightarrow> join_request \<Rightarrow> u32 \<Rightarrow> int \<Rightarrow> int \<times> join_state" where
  "add_pending_join st req ip now =
     (if unat (js_count st) \<ge> MAX_PENDING_JOINS then (-1, st)
      else case first_idx (\<lambda>p. (pj_used p \<and> same_name (pj_node_name p) (jr_node_name req)) \<or> \<not> pj_used p)
                  (js_joins st) of
        None \<Rightarrow> (-1, st)
      | Some i \<Rightarrow>
          let p = js_joins st ! i in
          if pj_used p then
            (0, st\<lparr>js_joins := (js_joins st)[i := p\<lparr>pj_request_id := request_id (jr_header req),
                 pj_last_seen := now, pj_ip := ip, pj_unicast_port := jr_unicast_port req\<rparr>]\<rparr>)
          else
            (0, st\<lparr>js_joins := (js_joins st)[i := \<lparr>pj_used = True,
                   pj_request_id = request_id (jr_header req),
                   pj_node_name = copy_name (pj_node_name p) (jr_node_name req),
                   pj_unicast_port = jr_unicast_port req, pj_ip = ip, pj_last_seen = now\<rparr>],
                 js_count := js_count st + 1\<rparr>))"

definition free_pending :: "pending_join \<Rightarrow> pending_join" where
  "free_pending p = p\<lparr>pj_used := False\<rparr>"

definition remove_pending_join :: "join_state \<Rightarrow> name \<Rightarrow> int \<times> join_state" where
  "remove_pending_join st nm =
     (case first_idx (\<lambda>p. pj_used p \<and> same_name (pj_node_name p) nm) (js_joins st) of
        Some i \<Rightarrow> (0, st\<lparr>js_joins := (js_joins st)[i := free_pending (js_joins st ! i)],
                        js_count := js_count st - 1\<rparr>)
      | None \<Rightarrow> (-1, st))"

text \<open>The scan of \<open>pop_oldest_pending_join\<close>: \<open>best\<close> holds \<open>oldest_index\<close> and \<open>oldest_time\<close>.\<close>

fun oldest_scan :: "nat \<Rightarrow> pending_join list \<Rightarrow> (nat \<times> int) option \<Rightarrow> (nat \<times> int) option" where
  "oldest_scan i [] best = best"
| "oldest_scan i (p # ps) best =
     oldest_scan (Suc i) ps
       (if \<not> pj_used p then best
        else case best of
            None \<Rightarrow> Some (i, pj_last_seen p)
          | Some (k, t) \<Rightarrow> if pj_last_seen p < t then Some (i, pj_last_seen p) else best)"

definition pop_oldest_pending_join :: "join_state \<Rightarrow> pending_join option \<times> join_state" where
  "pop_oldest_pending_join st =
     (case oldest_scan 0 (js_joins st) None of
        Some (i, _) \<Rightarrow> (Some (js_joins st ! i),
             st\<lparr>js_joins := (js_joins st)[i := free_pending (js_joins st ! i)],
                js_count := js_count st - 1\<rparr>)
      | None \<Rightarrow> (None, st))"

text \<open>The loop \<open>while (removed < max_remove)\<close>, over the pop operation it calls.\<close>

fun drain :: "('s \<Rightarrow> 'e option \<times> 's) \<Rightarrow> nat \<Rightarrow> 's \<Rightarrow> nat \<times> 's" where
  "drain pop 0 st = (0, st)"
| "drain pop (Suc n) st =
     (case pop st of
        (None, st') \<Rightarrow> (0, st')
      | (Some e, st') \<Rightarrow> (case drain pop n st' of (removed, st'') \<Rightarrow> (Suc removed, st'')))"

definition drop_oldest_pending_joins :: "join_state \<Rightarrow> size_t \<Rightarrow> size_t \<times> join_state" where
  "drop_oldest_pending_joins st max_remove =
     (case drain pop_oldest_pending_join (unat max_remove) st of (removed, st') \<Rightarrow> (of_nat removed, st'))"

definition history :: "join_state \<Rightarrow> completed_join list" where
  "history st = take (unat (js_completed_count st)) (js_completed st)"

definition join_state_is_completed :: "join_state \<Rightarrow> join_request \<Rightarrow> bool" where
  "join_state_is_completed st req \<longleftrightarrow>
     (\<exists>c\<in>set (history st). same_name (cj_node_name c) (jr_node_name req))"

definition shift_down :: "'a list \<Rightarrow> nat \<Rightarrow> 'a list" where
  "shift_down xs n = fold (\<lambda>i ys. ys[i - 1 := ys ! i]) [1..<n] xs"

definition join_state_record_completed :: "join_state \<Rightarrow> pending_join \<Rightarrow> join_state" where
  "join_state_record_completed st j =
     (case first_idx (\<lambda>c. same_name (cj_node_name c) (pj_node_name j)) (history st) of
        Some i \<Rightarrow> st\<lparr>js_completed := (js_completed st)[i :=
                      (js_completed st ! i)\<lparr>cj_request_id := pj_request_id j\<rparr>]\<rparr>
      | None \<Rightarrow>
          let n = unat (js_completed_count st);
              full = (n \<ge> MAX_PENDING_JOINS);
              xs = (if full then shift_down (js_completed st) n else js_completed st);
              idx = (if full then n - 1 else n)
          in st\<lparr>js_completed := xs[idx := \<lparr>cj_request_id = pj_request_id j,
                    cj_node_name = copy_name (cj_node_name (xs ! idx)) (pj_node_name j)\<rparr>],
                js_completed_count := (if full then js_completed_count st
                                       else js_completed_count st + 1)\<rparr>)"

definition expired :: "int \<Rightarrow> int \<Rightarrow> pending_join \<Rightarrow> bool" where
  "expired now ttl p \<longleftrightarrow> now - pj_last_seen p > ttl"

definition prune_joins :: "join_state \<Rightarrow> int \<Rightarrow> int \<Rightarrow> join_state" where
  "prune_joins st now ttl =
     st\<lparr>js_joins := map (\<lambda>p. if pj_used p \<and> expired now ttl p then free_pending p else p) (js_joins st),
        js_count := js_count st - of_nat (n_used (\<lambda>p. pj_used p \<and> expired now ttl p) (js_joins st))\<rparr>"

definition join_state_mark_completed_and_prune_pending ::
    "join_state \<Rightarrow> name \<Rightarrow> u32 \<Rightarrow> join_state" where
  "join_state_mark_completed_and_prune_pending st nm req_id =
     snd (remove_pending_join
       (join_state_record_completed st
          (zero_pending\<lparr>pj_request_id := req_id, pj_node_name := copy_name zero_name nm,
             pj_unicast_port := 0\<rparr>)) nm)"

section \<open>The invariant and the abstract views\<close>

definition waiting :: "join_state \<Rightarrow> pending_join list" where
  "waiting st = filter pj_used (js_joins st)"

definition join_inv :: "join_state \<Rightarrow> bool" where
  "join_inv st \<longleftrightarrow> length (js_joins st) = MAX_PENDING_JOINS
     \<and> unat (js_count st) = n_used pj_used (js_joins st)
     \<and> (\<forall>p\<in>set (js_joins st). wf_name (pj_node_name p))
     \<and> length (js_completed st) = MAX_PENDING_JOINS
     \<and> unat (js_completed_count st) \<le> MAX_PENDING_JOINS
     \<and> (\<forall>c\<in>set (js_completed st). wf_name (cj_node_name c))"

interpretation joins: slot_array pj_used free_pending
  by unfold_locales (simp add: free_pending_def)

lemma free_pending_name [simp]: "pj_node_name (free_pending p) = pj_node_name p"
  by (simp add: free_pending_def)

lemma join_inv_zero: "join_inv zero_join_state"
  by (simp add: join_inv_def zero_join_state_def n_used_def zero_pending_def zero_completed_def)

lemma join_invD:
  assumes "join_inv st"
  shows "length (js_joins st) = 32" "unat (js_count st) = length (waiting st)"
    "\<And>p. p \<in> set (js_joins st) \<Longrightarrow> wf_name (pj_node_name p)"
    "length (js_completed st) = 32" "unat (js_completed_count st) \<le> 32"
    "\<And>c. c \<in> set (js_completed st) \<Longrightarrow> wf_name (cj_node_name c)"
  using assms by (auto simp: join_inv_def waiting_def n_used_def)

lemma unat_inc: "unat (x :: size_t) < 64 \<Longrightarrow> unat (x + 1) = Suc (unat x)"
  by (simp add: unat_word_ariths)

lemma unat_dec: "0 < unat (x :: size_t) \<Longrightarrow> unat (x - 1) = unat x - 1"
  by (metis One_nat_def less_numeral_extra(3) unat_0 unat_minus_one word_neq_0_conv unat_gt_0)

subsection \<open>Adding\<close>

lemma add_pending_join_full:
  "join_inv st \<Longrightarrow> length (waiting st) = 32 \<Longrightarrow> add_pending_join st req ip now = (-1, st)"
  by (simp add: add_pending_join_def join_invD)

lemma add_pending_join_cases:
  assumes inv: "join_inv st" and room: "length (waiting st) < 32"
  obtains i p where "i < 32" "p = js_joins st ! i" "pj_used p" "same_name (pj_node_name p) (jr_node_name req)"
      "\<forall>j<i. pj_used (js_joins st ! j)"
      "add_pending_join st req ip now = (0, st\<lparr>js_joins := (js_joins st)[i :=
          p\<lparr>pj_request_id := request_id (jr_header req), pj_last_seen := now, pj_ip := ip,
            pj_unicast_port := jr_unicast_port req\<rparr>]\<rparr>)"
  | i where "i < 32" "\<not> pj_used (js_joins st ! i)"
      "\<forall>j<i. \<not> same_name (pj_node_name (js_joins st ! j)) (jr_node_name req)"
      "\<forall>j<i. pj_used (js_joins st ! j)"
      "add_pending_join st req ip now = (0, st\<lparr>js_joins := (js_joins st)[i :=
          \<lparr>pj_used = True, pj_request_id = request_id (jr_header req),
            pj_node_name = pad_name (c_str (jr_node_name req)),
            pj_unicast_port = jr_unicast_port req, pj_ip = ip, pj_last_seen = now\<rparr>],
          js_count := js_count st + 1\<rparr>)"
proof -
  let ?P = "\<lambda>p. (pj_used p \<and> same_name (pj_node_name p) (jr_node_name req)) \<or> \<not> pj_used p"
  from room have "n_used pj_used (js_joins st) < length (js_joins st)"
    using inv by (simp add: waiting_def n_used_def join_invD)
  then obtain i where i: "first_idx ?P (js_joins st) = Some i"
    using first_idx_ex [of _ "js_joins st" ?P] by (auto simp: n_used_full)
  note d = first_idx_SomeD [OF i]
  have len: "length (js_joins st) = 32" by (rule join_invD [OF inv])
  have nm: "length (pj_node_name (js_joins st ! i)) = 32"
    using d len by (auto intro!: wf_name_length join_invD [OF inv])
  show ?thesis
  proof (cases "pj_used (js_joins st ! i)")
    case True
    with d i len room inv show ?thesis
      by (intro that(1) [OF _ refl]) (auto simp: add_pending_join_def join_invD)
  next
    case False
    with d i len room inv nm show ?thesis
      by (intro that(2)) (auto simp: add_pending_join_def join_invD copy_name_canon)
  qed
qed

lemma join_inv_add [inv_intros]:
  assumes "join_inv st" and "add_pending_join st req ip now = (rc, st')"
  shows "join_inv st'"
proof (cases "length (waiting st) < 32")
  case False
  then have "length (waiting st) = 32"
    using assms(1) n_used_le [of pj_used "js_joins st"] by (simp add: waiting_def n_used_def join_invD)
  with assms show ?thesis by (simp add: add_pending_join_full)
next
  case True
  have cnt: "unat (js_count st) = n_used pj_used (js_joins st)" using assms(1) by (simp add: join_inv_def)
  show ?thesis
  proof (rule add_pending_join_cases [OF assms(1) True, of req ip now], goal_cases)
    case (1 i p)
    with assms cnt joins.rewrite_slot [of i "js_joins st"] show ?thesis
      by (auto simp: join_inv_def dest!: set_update_subset)
  next
    case (2 i)
    have "unat (js_count st + 1) = Suc (unat (js_count st))"
      using True cnt by (intro unat_inc) (simp add: waiting_def n_used_def)
    with 2 assms cnt joins.take_slot [of i "js_joins st"] show ?thesis
      by (auto simp: join_inv_def dest!: set_update_subset)
  qed
qed

subsection \<open>Removing\<close>

lemma free_slot_inv:
  assumes "join_inv st" and "i < 32" and "pj_used (js_joins st ! i)"
  shows "join_inv (st\<lparr>js_joins := (js_joins st)[i := free_pending (js_joins st ! i)],
                     js_count := js_count st - 1\<rparr>)"
proof -
  have len: "length (js_joins st) = 32" and cnt: "unat (js_count st) = n_used pj_used (js_joins st)"
    using assms(1) by (simp_all add: join_inv_def)
  have "0 < n_used pj_used (js_joins st)" using assms(2,3) len by (intro joins.used_pos) auto
  moreover have "Suc (n_used pj_used ((js_joins st)[i := free_pending (js_joins st ! i)]))
      = n_used pj_used (js_joins st)"
    using assms(2,3) len by (intro joins.free_slot) auto
  ultimately show ?thesis using assms len
    by (auto simp: join_inv_def cnt unat_dec dest!: set_update_subset)
qed

lemma waiting_free_slot:
  assumes "join_inv st" and "i < 32" and "pj_used (js_joins st ! i)"
  shows "waiting st = filter pj_used (take i (js_joins st)) @ js_joins st ! i
           # filter pj_used (drop (Suc i) (js_joins st))"
    and "waiting (st\<lparr>js_joins := (js_joins st)[i := free_pending (js_joins st ! i)],
                     js_count := js_count st - 1\<rparr>)
         = filter pj_used (take i (js_joins st)) @ filter pj_used (drop (Suc i) (js_joins st))"
  using assms joins.filter_at [of i "js_joins st"] joins.filter_free_slot [of i "js_joins st"]
  by (simp_all add: waiting_def join_invD)

lemma remove_pending_join_cases:
  assumes "join_inv st"
  obtains "\<forall>p\<in>set (waiting st). \<not> same_name (pj_node_name p) nm"
      "remove_pending_join st nm = (-1, st)"
  | st' xs p ys where "remove_pending_join st nm = (0, st')" "join_inv st'"
      "waiting st = xs @ p # ys" "waiting st' = xs @ ys" "same_name (pj_node_name p) nm"
      "\<forall>q\<in>set xs. \<not> same_name (pj_node_name q) nm"
      "js_completed st' = js_completed st" "js_completed_count st' = js_completed_count st"
proof (cases "first_idx (\<lambda>p. pj_used p \<and> same_name (pj_node_name p) nm) (js_joins st)")
  case None
  show ?thesis
  proof (rule that(1))
    show "\<forall>p\<in>set (waiting st). \<not> same_name (pj_node_name p) nm"
      using None by (simp add: waiting_def first_idx_None)
  qed (simp add: remove_pending_join_def None)
next
  case (Some i)
  note d = first_idx_SomeD [OF Some]
  with assms have i: "i < 32" "pj_used (js_joins st ! i)" by (auto simp: join_invD)
  let ?st' = "st\<lparr>js_joins := (js_joins st)[i := free_pending (js_joins st ! i)], js_count := js_count st - 1\<rparr>"
  show ?thesis
  proof (rule that(2))
    show "remove_pending_join st nm = (0, ?st')" using Some by (simp add: remove_pending_join_def)
    show "join_inv ?st'" using assms i by (rule free_slot_inv)
    show "waiting st = filter pj_used (take i (js_joins st)) @ js_joins st ! i
        # filter pj_used (drop (Suc i) (js_joins st))"
      and "waiting ?st' = filter pj_used (take i (js_joins st)) @ filter pj_used (drop (Suc i) (js_joins st))"
      using assms i by (rule waiting_free_slot)+
    show "same_name (pj_node_name (js_joins st ! i)) nm" using d by simp
    show "\<forall>q\<in>set (filter pj_used (take i (js_joins st))). \<not> same_name (pj_node_name q) nm"
      using d by (auto simp: in_set_conv_nth)
  qed simp_all
qed

lemma join_inv_remove [inv_intros]:
  "join_inv st \<Longrightarrow> remove_pending_join st nm = (rc, st') \<Longrightarrow> join_inv st'"
  by (rule remove_pending_join_cases [of st nm]) auto

lemma remove_pending_join_completed [frame_simps]:
  assumes "remove_pending_join st nm = (rc, st')"
  shows "js_completed st' = js_completed st" "js_completed_count st' = js_completed_count st"
  using assms by (auto simp: remove_pending_join_def split: option.splits)

subsection \<open>Taking the oldest\<close>

text \<open>
  What the scan has found after the slots before \<open>i\<close>: the first of the used slots with the
  least \<open>last_seen\<close>.
\<close>

definition is_oldest :: "pending_join list \<Rightarrow> nat \<Rightarrow> bool" where
  "is_oldest ps k \<longleftrightarrow> k < length ps \<and> pj_used (ps ! k)
     \<and> (\<forall>j<k. pj_used (ps ! j) \<longrightarrow> pj_last_seen (ps ! k) < pj_last_seen (ps ! j))
     \<and> (\<forall>j<length ps. k < j \<longrightarrow> pj_used (ps ! j) \<longrightarrow> pj_last_seen (ps ! k) \<le> pj_last_seen (ps ! j))"

definition scanned :: "pending_join list \<Rightarrow> (nat \<times> int) option \<Rightarrow> bool" where
  "scanned ps best \<longleftrightarrow> (case best of
      None \<Rightarrow> \<forall>p\<in>set ps. \<not> pj_used p
    | Some (k, t) \<Rightarrow> is_oldest ps k \<and> t = pj_last_seen (ps ! k))"

lemma nth_snoc: "j < length ps \<Longrightarrow> (ps @ [p]) ! j = ps ! j"
  by (simp add: nth_append)

lemma is_oldest_keep:
  "is_oldest ps k \<Longrightarrow> \<not> pj_used p \<or> pj_last_seen (ps ! k) \<le> pj_last_seen p \<Longrightarrow> is_oldest (ps @ [p]) k"
  by (auto simp: is_oldest_def nth_append less_Suc_eq)

lemma is_oldest_new:
  "\<forall>q\<in>set ps. pj_used q \<longrightarrow> pj_last_seen p < pj_last_seen q \<Longrightarrow> pj_used p \<Longrightarrow> is_oldest (ps @ [p]) (length ps)"
  by (auto simp: is_oldest_def nth_append)

lemma is_oldest_min:
  assumes "is_oldest ps k" and "q \<in> set ps" and "pj_used q"
  shows "pj_last_seen (ps ! k) \<le> pj_last_seen q"
proof -
  obtain j where j: "j < length ps" "q = ps ! j" using assms(2) by (auto simp: in_set_conv_nth)
  then show ?thesis using assms by (cases "j < k"; cases "j = k") (auto simp: is_oldest_def)
qed

lemma oldest_scan_scanned:
  "scanned ps best \<Longrightarrow> scanned (ps @ qs) (oldest_scan (length ps) qs best)"
proof (induction qs arbitrary: ps best)
  case (Cons p qs)
  let ?best = "if \<not> pj_used p then best else case best of None \<Rightarrow> Some (length ps, pj_last_seen p)
      | Some (k, t) \<Rightarrow> if pj_last_seen p < t then Some (length ps, pj_last_seen p) else best"
  have "scanned (ps @ [p]) ?best"
  proof (cases best)
    case None
    with Cons.prems show ?thesis by (auto simp: scanned_def intro!: is_oldest_new)
  next
    case (Some kt)
    then obtain k t where b: "best = Some (k, t)" by (cases kt) auto
    with Cons.prems have k: "is_oldest ps k" "t = pj_last_seen (ps ! k)" "k < length ps"
      by (auto simp: scanned_def is_oldest_def)
    then show ?thesis using b
      by (fastforce simp: scanned_def nth_snoc intro: is_oldest_keep is_oldest_new dest: is_oldest_min)
  qed
  from Cons.IH [OF this] show ?case by simp
qed simp

lemma oldest_scan_all: "scanned ps (oldest_scan 0 ps None)"
  using oldest_scan_scanned [of "[]" None ps] by (simp add: scanned_def)

text \<open>The interface of the queue, as the join state machine uses it.\<close>

locale join_queue =
  fixes inv :: "'s \<Rightarrow> bool" and queue :: "'s \<Rightarrow> 'e list" and size_of :: "'s \<Rightarrow> nat"
    and stamp :: "'e \<Rightarrow> int" and pop :: "'s \<Rightarrow> 'e option \<times> 's"
  assumes size_queue: "inv s \<Longrightarrow> size_of s = length (queue s)"
    and pop_empty: "inv s \<Longrightarrow> queue s = [] \<Longrightarrow> pop s = (None, s)"
    and pop_oldest: "inv s \<Longrightarrow> queue s \<noteq> [] \<Longrightarrow>
      \<exists>xs e ys s'. pop s = (Some e, s') \<and> inv s' \<and> queue s = xs @ e # ys \<and> queue s' = xs @ ys
        \<and> (\<forall>x\<in>set xs. stamp e < stamp x) \<and> (\<forall>y\<in>set ys. stamp e \<le> stamp y)"
begin

lemma pop_least:
  assumes "inv s" and "pop s = (Some e, s')"
  shows "e \<in> set (queue s)" "\<forall>x\<in>set (queue s). stamp e \<le> stamp x" "inv s'"
    "length (queue s) = Suc (length (queue s'))" "set (queue s') \<subseteq> set (queue s)"
proof -
  have "queue s \<noteq> []" using assms pop_empty by fastforce
  from pop_oldest [OF assms(1) this] assms(2) obtain xs ys where
    "queue s = xs @ e # ys" "queue s' = xs @ ys" "inv s'"
    "\<forall>x\<in>set xs. stamp e < stamp x" "\<forall>y\<in>set ys. stamp e \<le> stamp y" by auto
  then show "e \<in> set (queue s)" "\<forall>x\<in>set (queue s). stamp e \<le> stamp x" "inv s'"
    "length (queue s) = Suc (length (queue s'))" "set (queue s') \<subseteq> set (queue s)"
    by (auto intro: less_imp_le)
qed

lemma pop_some: "inv s \<Longrightarrow> queue s \<noteq> [] \<Longrightarrow> \<exists>e s'. pop s = (Some e, s')"
  using pop_oldest by blast

lemma drain_props:
  assumes "inv s" and "drain pop n s = (r, s')"
  shows "inv s'" "r = min n (length (queue s))" "length (queue s') = length (queue s) - r"
    "set (queue s') \<subseteq> set (queue s)"
proof -
  from assms have "inv s' \<and> r = min n (length (queue s)) \<and> length (queue s') = length (queue s) - r
    \<and> set (queue s') \<subseteq> set (queue s)"
  proof (induction n arbitrary: s r s')
    case (Suc n)
    show ?case
    proof (cases "queue s = []")
      case True
      with Suc.prems pop_empty show ?thesis by auto
    next
      case False
      then obtain e t where p: "pop s = (Some e, t)" using Suc.prems(1) pop_some by blast
      obtain r' where d: "drain pop n t = (r', s')" "r = Suc r'"
        using Suc.prems(2) p by (auto split: prod.splits)
      with pop_least [OF Suc.prems(1) p] Suc.IH [OF _ d(1)] show ?thesis by auto
    qed
  qed auto
  then show "inv s'" "r = min n (length (queue s))" "length (queue s') = length (queue s) - r"
    "set (queue s') \<subseteq> set (queue s)" by auto
qed

lemma drain_size: "inv s \<Longrightarrow> drain pop (size_of s) s = (r, s') \<Longrightarrow> inv s' \<and> r = size_of s \<and> queue s' = []"
  using drain_props [of s "size_of s" r s'] by (simp add: size_queue)

end

lemma pop_oldest_unfold:
  assumes "join_inv st" "waiting st \<noteq> []"
  obtains k where "is_oldest (js_joins st) k" "k < 32" "pj_used (js_joins st ! k)"
    "pop_oldest_pending_join st = (Some (js_joins st ! k),
       st\<lparr>js_joins := (js_joins st)[k := free_pending (js_joins st ! k)], js_count := js_count st - 1\<rparr>)"
proof -
  from assms(2) obtain p where "p \<in> set (js_joins st)" "pj_used p"
    by (auto simp: waiting_def filter_empty_conv)
  with oldest_scan_all [of "js_joins st"] obtain k t
    where k: "oldest_scan 0 (js_joins st) None = Some (k, t)" "is_oldest (js_joins st) k"
    by (auto simp: scanned_def split: option.splits)
  moreover from k(2) assms(1) have "k < 32" "pj_used (js_joins st ! k)"
    by (auto simp: is_oldest_def join_invD)
  ultimately show ?thesis by (intro that) (auto simp: pop_oldest_pending_join_def)
qed

interpretation jq: join_queue join_inv waiting "\<lambda>st. unat (js_count st)" pj_last_seen pop_oldest_pending_join
proof (unfold_locales, goal_cases)
  case (1 st)
  then show ?case by (rule join_invD(2))
next
  case (2 st)
  then have "oldest_scan 0 (js_joins st) None = None"
    using oldest_scan_all [of "js_joins st"] nth_mem [of _ "js_joins st"]
    by (fastforce simp: scanned_def is_oldest_def waiting_def filter_empty_conv split: option.splits)
  then show ?case by (simp add: pop_oldest_pending_join_def)
next
  case (3 st)
  from pop_oldest_unfold [OF this] obtain k where k: "is_oldest (js_joins st) k" "k < 32"
    "pj_used (js_joins st ! k)" and pop: "pop_oldest_pending_join st = (Some (js_joins st ! k),
       st\<lparr>js_joins := (js_joins st)[k := free_pending (js_joins st ! k)], js_count := js_count st - 1\<rparr>)" .
  have "\<forall>x\<in>set (filter pj_used (take k (js_joins st))). pj_last_seen (js_joins st ! k) < pj_last_seen x"
    using k by (auto simp: is_oldest_def in_set_conv_nth)
  moreover have "\<forall>x\<in>set (filter pj_used (drop (Suc k) (js_joins st))). pj_last_seen (js_joins st ! k) \<le> pj_last_seen x"
    using k by (auto simp: is_oldest_def in_set_conv_nth)
  ultimately show ?case
    using pop free_slot_inv [OF 3(1) k(2,3)] waiting_free_slot [OF 3(1) k(2,3)] by blast
qed

lemma pop_completed [frame_simps]:
  assumes "pop_oldest_pending_join st = (r, st')"
  shows "js_completed st' = js_completed st" "js_completed_count st' = js_completed_count st"
  using assms by (auto simp: pop_oldest_pending_join_def split: option.splits)

lemma join_inv_pop [inv_intros]:
  "join_inv st \<Longrightarrow> pop_oldest_pending_join st = (r, st') \<Longrightarrow> join_inv st'"
  using jq.pop_least(3) by (cases r) (fastforce simp: pop_oldest_pending_join_def split: option.splits)+

subsection \<open>Dropping the oldest\<close>

lemma drain_completed:
  "drain pop_oldest_pending_join n st = (r, st') \<Longrightarrow>
   js_completed st' = js_completed st \<and> js_completed_count st' = js_completed_count st"
proof (induction n arbitrary: st r)
  case (Suc n)
  obtain e t where p: "pop_oldest_pending_join st = (e, t)" by fastforce
  with Suc.prems Suc.IH [of t] pop_completed [OF p] show ?case
    by (auto split: prod.splits option.splits)
qed simp

lemma drop_oldest_completed [frame_simps]:
  assumes "drop_oldest_pending_joins st n = (r, st')"
  shows "js_completed st' = js_completed st" "js_completed_count st' = js_completed_count st"
  using assms drain_completed by (auto simp: drop_oldest_pending_joins_def split: prod.splits)

lemma join_inv_drop [inv_intros]:
  "join_inv st \<Longrightarrow> drop_oldest_pending_joins st n = (r, st') \<Longrightarrow> join_inv st'"
  by (auto simp: drop_oldest_pending_joins_def split: prod.splits dest: jq.drain_props(1))

lemma drop_oldest_all:
  assumes "join_inv st" and "drop_oldest_pending_joins st (js_count st) = (r, st')"
  shows "r = js_count st" "waiting st' = []" "js_count st' = 0"
proof -
  obtain k where "drain pop_oldest_pending_join (unat (js_count st)) st = (k, st')" "r = of_nat k"
    using assms(2) by (auto simp: drop_oldest_pending_joins_def split: prod.splits)
  with jq.drain_size [OF assms(1)] have k: "join_inv st'" "k = unat (js_count st)" "waiting st' = []" by blast+
  then show "r = js_count st" "waiting st' = []" using \<open>r = of_nat k\<close> by simp_all
  show "js_count st' = 0" using k join_invD(2) [of st'] by (simp add: unat_eq_0)
qed

subsection \<open>Pruning\<close>

lemma waiting_prune: "waiting (prune_joins st now ttl) = filter (\<lambda>p. \<not> expired now ttl p) (waiting st)"
  unfolding waiting_def prune_joins_def using joins.filter_sweep [of "expired now ttl" "js_joins st"]
  by (simp add: conj_commute)

lemma join_inv_prune [inv_intros]: "join_inv st \<Longrightarrow> join_inv (prune_joins st now ttl)"
proof -
  assume inv: "join_inv st"
  let ?e = "n_used (\<lambda>p. pj_used p \<and> expired now ttl p) (js_joins st)"
  have s: "n_used pj_used (map (\<lambda>p. if pj_used p \<and> expired now ttl p then free_pending p else p) (js_joins st))
      + ?e = n_used pj_used (js_joins st)" by (rule joins.n_used_sweep)
  have "unat (js_count st) = n_used pj_used (js_joins st)" and "n_used pj_used (js_joins st) \<le> 32"
    using inv n_used_le [of pj_used "js_joins st"] by (simp_all add: join_inv_def)
  then have "unat (js_count st - of_nat ?e) = unat (js_count st) - ?e"
    using s by (subst unat_sub) (auto simp: word_le_nat_alt unat_of_nat take_bit_eq_mod)
  with inv s show ?thesis by (auto simp: join_inv_def prune_joins_def)
qed

lemma prune_completed [frame_simps]:
  "js_completed (prune_joins st now ttl) = js_completed st"
  "js_completed_count (prune_joins st now ttl) = js_completed_count st"
  by (simp_all add: prune_joins_def)

subsection \<open>The history of completed joins\<close>

text \<open>
  Specification on lists: a known name gets the new request id, a new name is appended, and the
  oldest entry goes when there are already 32.
\<close>

definition hist_record :: "u32 \<Rightarrow> name \<Rightarrow> completed_join list \<Rightarrow> completed_join list" where
  "hist_record r nm h =
     (case first_idx (\<lambda>c. same_name (cj_node_name c) nm) h of
        Some i \<Rightarrow> h[i := (h ! i)\<lparr>cj_request_id := r\<rparr>]
      | None \<Rightarrow> (if length h < MAX_PENDING_JOINS then h else tl h)
               @ [\<lparr>cj_request_id = r, cj_node_name = pad_name (c_str nm)\<rparr>])"

lemma shift_down_nth:
  "n \<le> length xs \<Longrightarrow> length (shift_down xs n) = length xs \<and>
   (\<forall>k<length xs. shift_down xs n ! k = (if Suc k < n then xs ! Suc k else xs ! k))"
proof (induction n)
  case (Suc n)
  show ?case
  proof (cases "n = 0")
    case False
    then have "shift_down xs (Suc n) = (shift_down xs n)[n - 1 := shift_down xs n ! n]"
      by (simp add: shift_down_def)
    with Suc False show ?thesis by (auto simp: nth_list_update less_Suc_eq)
  qed (simp add: shift_down_def)
qed (simp add: shift_down_def)

lemma shift_down_full: "xs \<noteq> [] \<Longrightarrow> shift_down xs (length xs) = tl xs @ [last xs]"
  using shift_down_nth [of "length xs" xs]
  by (intro nth_equalityI) (auto simp: nth_append nth_tl last_conv_nth intro!: arg_cong [where f = "(!) xs"])

lemma history_length: "join_inv st \<Longrightarrow> length (history st) = unat (js_completed_count st)"
  by (simp add: history_def join_invD)

lemma history_record:
  assumes inv: "join_inv st"
  shows "history (join_state_record_completed st j) = hist_record (pj_request_id j) (pj_node_name j) (history st)"
proof -
  let ?n = "unat (js_completed_count st)"
  have len: "length (js_completed st) = 32" and n: "?n \<le> 32" and hl: "length (history st) = ?n"
    using inv by (simp_all add: join_invD history_length)
  have wf: "k < 32 \<Longrightarrow> length (cj_node_name (js_completed st ! k)) = 32" for k
    using inv len by (auto intro!: wf_name_length join_invD(6))
  show ?thesis
  proof (cases "first_idx (\<lambda>c. same_name (cj_node_name c) (pj_node_name j)) (history st)")
    case (Some i)
    then have "i < ?n" using hl first_idx_less by fastforce
    with Some show ?thesis
      by (simp add: join_state_record_completed_def hist_record_def) (simp add: history_def take_update_swap)
  next
    case None
    show ?thesis
    proof (cases "?n < 32")
      case True
      have "unat (js_completed_count st + 1) = Suc ?n" using True by (intro unat_inc) simp
      with None True len wf [of ?n] hl show ?thesis
        by (simp add: join_state_record_completed_def hist_record_def)
          (simp add: history_def take_Suc_conv_app_nth copy_name_canon)
    next
      case False
      with n have n32: "?n = 32" by simp
      have "length (shift_down (js_completed st) 32) = 32" and "shift_down (js_completed st) 32 ! 31 = js_completed st ! 31"
        using shift_down_nth [of 32 "js_completed st"] len by auto
      moreover have "take 31 (shift_down (js_completed st) 32) = tl (js_completed st)"
        using shift_down_full [of "js_completed st"] len by force
      ultimately show ?thesis using None n32 len wf [of 31] hl
        by (simp add: join_state_record_completed_def hist_record_def)
          (simp add: history_def copy_name_canon upd_conv_take_nth_drop)
    qed
  qed
qed

lemma join_inv_record [inv_intros]:
  assumes inv: "join_inv st"
  shows "join_inv (join_state_record_completed st j)"
proof -
  let ?n = "unat (js_completed_count st)"
  have len: "length (js_completed st) = 32" and n: "?n \<le> 32" using inv by (simp_all add: join_invD)
  have sh: "length (shift_down (js_completed st) ?n) = 32"
    "set (shift_down (js_completed st) ?n) \<subseteq> set (js_completed st)"
  proof -
    note nth = shift_down_nth [of ?n "js_completed st", unfolded len, OF n]
    then show l: "length (shift_down (js_completed st) ?n) = 32" by simp
    show "set (shift_down (js_completed st) ?n) \<subseteq> set (js_completed st)"
    proof
      fix c assume "c \<in> set (shift_down (js_completed st) ?n)"
      then obtain k where k: "k < 32" "c = shift_down (js_completed st) ?n ! k"
        using l by (auto simp: in_set_conv_nth)
      with nth have "c = (if Suc k < ?n then js_completed st ! Suc k else js_completed st ! k)" by simp
      then show "c \<in> set (js_completed st)" using k(1) n len by (auto split: if_splits)
    qed
  qed
  have wf: "wf_name (cj_node_name c)" if "c \<in> set (shift_down (js_completed st) ?n)" for c
    using sh(2) that inv by (auto dest: join_invD(6))
  show ?thesis
  proof (cases "first_idx (\<lambda>c. same_name (cj_node_name c) (pj_node_name j)) (history st)")
    case (Some i)
    then have "i < 32" using history_length [OF inv] n first_idx_less by fastforce
    with Some inv show ?thesis
      by (auto simp: join_state_record_completed_def join_inv_def dest!: set_update_subset)
  next
    case None
    let ?xs = "if 32 \<le> ?n then shift_down (js_completed st) ?n else js_completed st"
    let ?i = "if 32 \<le> ?n then ?n - 1 else ?n"
    have l: "length (cj_node_name (?xs ! ?i)) = 32"
      using n sh len wf inv by (auto intro!: wf_name_length intro: join_invD(6))
    have "unat (js_completed_count st + 1) = Suc ?n" if "?n < 32" using that by (intro unat_inc) simp
    with None inv n sh wf l show ?thesis
      by (auto simp: join_state_record_completed_def join_inv_def Let_def copy_name_canon
          dest!: set_update_subset)
  qed
qed

lemma record_waiting [frame_simps]:
  "js_joins (join_state_record_completed st j) = js_joins st"
  "js_count (join_state_record_completed st j) = js_count st"
  "waiting (join_state_record_completed st j) = waiting st"
  by (auto simp: join_state_record_completed_def waiting_def Let_def split: option.splits)

lemma hist_record_mem:
  "wf_name nm \<Longrightarrow> \<exists>c\<in>set (hist_record r nm h). same_name (cj_node_name c) nm"
proof (cases "first_idx (\<lambda>c. same_name (cj_node_name c) nm) h")
  case None
  moreover assume "wf_name nm"
  ultimately show ?thesis by (auto simp: hist_record_def)
next
  case (Some i)
  note d = first_idx_SomeD [OF Some]
  then have "h[i := (h ! i)\<lparr>cj_request_id := r\<rparr>] ! i \<in> set (h[i := (h ! i)\<lparr>cj_request_id := r\<rparr>])"
    by (intro nth_mem) simp
  with d Some show ?thesis
    by (auto simp: hist_record_def intro!: bexI [of _ "(h ! i)\<lparr>cj_request_id := r\<rparr>"])
qed

lemma join_inv_mark [inv_intros]:
  "join_inv st \<Longrightarrow> join_inv (join_state_mark_completed_and_prune_pending st nm r)"
  by (auto simp: join_state_mark_completed_and_prune_pending_def
      intro: join_inv_remove [OF join_inv_record] surjective_pairing)

end
