(* ===== verification/Broadcast_Net.thy ===== *)
theory Broadcast_Net
  imports Node_World
begin

unbundle bit_operations_syntax

text \<open>
  \<open>broadcast_targets.c\<close> and the sending half of \<open>broadcast.c\<close>: choosing the broadcast address
  of every usable interface, and sending a message to all of them.
\<close>

section \<open>broadcast_targets.c\<close>

text \<open>One entry of the list \<open>getifaddrs\<close> returns; a null pointer is \<open>None\<close>.\<close>

record ifaddr =
  ifa_name :: bytes
  ifa_flags :: u32
  ifa_addr :: "sockaddr_in option"
  ifa_broadaddr :: "sockaddr_in option"
  ifa_netmask :: "sockaddr_in option"

abbreviation (input) IFF_UP :: u32 where "IFF_UP \<equiv> 1"
abbreviation (input) IFF_BROADCAST :: u32 where "IFF_BROADCAST \<equiv> 2"
abbreviation (input) IFNAMSIZ :: nat where "IFNAMSIZ \<equiv> 16"

definition sockaddr_in_is_valid :: "sockaddr_in option \<Rightarrow> bool" where
  "sockaddr_in_is_valid a \<longleftrightarrow> (case a of None \<Rightarrow> False | Some s \<Rightarrow> sin_family s = AF_INET)"

definition compute_broadcast :: "u32 \<Rightarrow> u32 \<Rightarrow> u32" where
  "compute_broadcast ip netmask = ip OR NOT netmask"

definition mk_target :: "u16 \<Rightarrow> ifaddr \<Rightarrow> u32 \<Rightarrow> broadcast_target" where
  "mk_target port ifa addr =
     \<lparr>bt_ifname = (strncpy (replicate IFNAMSIZ 0) (ifa_name ifa) (IFNAMSIZ - 1))[IFNAMSIZ - 1 := 0],
      bt_addr = \<lparr>sin_family = AF_INET, sin_port = htons port, sin_addr = addr\<rparr>\<rparr>"

fun collect_loop :: "u16 \<Rightarrow> nat \<Rightarrow> ifaddr list \<Rightarrow> broadcast_target list \<Rightarrow> broadcast_target list" where
  "collect_loop port cap [] out = out"
| "collect_loop port cap (ifa # ifas) out =
     (case ifa_addr ifa of
        None \<Rightarrow> collect_loop port cap ifas out
      | Some ip \<Rightarrow>
          if sin_family ip \<noteq> AF_INET then collect_loop port cap ifas out
          else if ifa_flags ifa AND IFF_UP = 0 then collect_loop port cap ifas out
          else if ifa_flags ifa AND IFF_BROADCAST = 0 then collect_loop port cap ifas out
          else if length out \<ge> cap then out
          else
            case ifa_broadaddr ifa of
              Some b \<Rightarrow>
                if sin_family b = AF_INET
                then collect_loop port cap ifas (out @ [mk_target port ifa (sin_addr b)])
                else
                  (case ifa_netmask ifa of
                     Some m \<Rightarrow> if sin_family m = AF_INET
                       then collect_loop port cap ifas
                              (out @ [mk_target port ifa (compute_broadcast (sin_addr ip) (sin_addr m))])
                       else collect_loop port cap ifas out
                   | None \<Rightarrow> collect_loop port cap ifas out)
            | None \<Rightarrow>
                (case ifa_netmask ifa of
                   Some m \<Rightarrow> if sin_family m = AF_INET
                     then collect_loop port cap ifas
                            (out @ [mk_target port ifa (compute_broadcast (sin_addr ip) (sin_addr m))])
                     else collect_loop port cap ifas out
                 | None \<Rightarrow> collect_loop port cap ifas out))"

text \<open>\<open>None\<close> is a failing \<open>getifaddrs\<close>; the result is the returned count and the filled array.\<close>

definition broadcast_collect_targets ::
    "ifaddr list option \<Rightarrow> u16 \<Rightarrow> nat \<Rightarrow> int \<times> broadcast_target list" where
  "broadcast_collect_targets ifas port out_cap =
     (case ifas of
        None \<Rightarrow> (-1, [])
      | Some xs \<Rightarrow> let out = collect_loop port out_cap xs [] in (int (length out), out))"

section \<open>broadcast.c, sending\<close>

fun send_each :: "broadcast_target list \<Rightarrow> bytes \<Rightarrow> bool \<Rightarrow> world \<Rightarrow> bool \<times> world" where
  "send_each [] msg ok w = (ok, w)"
| "send_each (t # ts) msg ok w =
     (case sendto (bt_addr t) msg w of (sent, w1) \<Rightarrow> send_each ts msg (ok \<or> sent) w1)"

definition send_to_all_targets :: "bytes \<Rightarrow> world \<Rightarrow> int \<times> world" where
  "send_to_all_targets msg w =
     (case send_each (w_targets w) msg False w of (ok, w1) \<Rightarrow>
        if w_targets w = [] then (-1, w1) else (if ok then 0 else -1, w1))"

definition request_wire :: "u32 \<Rightarrow> name \<Rightarrow> u16 \<Rightarrow> join_request" where
  "request_wire req_id nm port =
     \<lparr>jr_header = \<lparr>magic = htonl JOIN_MAGIC, msg_type = htons JOIN_REQUEST, reserved = 0,
        request_id = htonl req_id\<rparr>,
      jr_node_name = copy_name zero_name nm, jr_unicast_port = htons port\<rparr>"

definition broadcast_send_join_request :: "u32 \<Rightarrow> name \<Rightarrow> u16 \<Rightarrow> world \<Rightarrow> int \<times> world" where
  "broadcast_send_join_request req_id nm port w =
     (case send_to_all_targets (bytes_of_request (request_wire req_id nm port)) w of (rc, w1) \<Rightarrow>
        (if rc < 0 then -1 else 0, w1))"

definition commit_wire :: "u32 \<Rightarrow> name \<Rightarrow> u32 \<Rightarrow> join_commit" where
  "commit_wire req_id nm topo =
     \<lparr>jc_header = \<lparr>magic = htonl JOIN_MAGIC, msg_type = htons JOIN_COMMIT, reserved = 0,
        request_id = htonl req_id\<rparr>,
      jc_new_name = copy_name zero_name nm, jc_topo_version = htonl topo\<rparr>"

definition broadcast_send_join_commit :: "u32 \<Rightarrow> name \<Rightarrow> u32 \<Rightarrow> world \<Rightarrow> int \<times> world" where
  "broadcast_send_join_commit req_id nm topo w =
     (case send_to_all_targets (bytes_of_commit (commit_wire req_id nm topo)) w of (rc, w1) \<Rightarrow>
        (if rc < 0 then -1 else 0, w1))"

text \<open>
  \<open>broadcast_setup_socket\<close> with the results of \<open>socket\<close>, the two \<open>setsockopt\<close> calls, \<open>bind\<close>
  and \<open>getifaddrs\<close> as arguments; the capacity is that of the static array \<open>targets[16]\<close>.
\<close>

definition broadcast_setup_socket ::
    "int \<Rightarrow> bool \<Rightarrow> bool \<Rightarrow> bool \<Rightarrow> ifaddr list option \<Rightarrow> route \<Rightarrow> world \<Rightarrow> int \<times> world" where
  "broadcast_setup_socket sock_fd opt_bcast opt_reuse bound ifas cur w =
     (if sock_fd = -1 then (-1, w)
      else if \<not> opt_bcast then (-1, w)
      else if \<not> opt_reuse then (-1, w)
      else if \<not> bound then (-1, w)
      else case broadcast_collect_targets ifas (broadcast_port cur) 16 of (n, out) \<Rightarrow>
        if n < 0 then (-1, w) else (sock_fd, w\<lparr>w_targets := out\<rparr>))"

section \<open>Properties\<close>

lemma collect_loop_length: "length out \<le> cap \<Longrightarrow> length (collect_loop port cap ifas out) \<le> cap"
  by (induction port cap ifas out rule: collect_loop.induct) (auto split: option.splits)

definition target_of :: "u16 \<Rightarrow> ifaddr \<Rightarrow> broadcast_target option" where
  "target_of port ifa =
     (case ifa_addr ifa of
        None \<Rightarrow> None
      | Some ip \<Rightarrow>
          if sin_family ip \<noteq> AF_INET \<or> ifa_flags ifa AND IFF_UP = 0 \<or> ifa_flags ifa AND IFF_BROADCAST = 0
          then None
          else if sockaddr_in_is_valid (ifa_broadaddr ifa)
          then Some (mk_target port ifa (sin_addr (the (ifa_broadaddr ifa))))
          else if sockaddr_in_is_valid (ifa_netmask ifa)
          then Some (mk_target port ifa (compute_broadcast (sin_addr ip) (sin_addr (the (ifa_netmask ifa)))))
          else None)"

lemma collect_loop_step:
  "length out < cap \<Longrightarrow> collect_loop port cap (ifa # ifas) out =
     collect_loop port cap ifas (case target_of port ifa of None \<Rightarrow> out | Some t \<Rightarrow> out @ [t])"
  by (auto simp: target_of_def sockaddr_in_is_valid_def split: option.splits)

lemma collect_loop_full: "length out = cap \<Longrightarrow> collect_loop port cap ifas out = out"
  by (induction port cap ifas out rule: collect_loop.induct) (auto split: option.splits)

lemma collect_loop_spec:
  "length out \<le> cap \<Longrightarrow> collect_loop port cap ifas out
     = out @ take (cap - length out) (List.map_filter (target_of port) ifas)"
proof (induction ifas arbitrary: out)
  case (Cons ifa ifas)
  show ?case
  proof (cases "length out < cap")
    case True
    with Cons.IH show ?thesis
      by (cases "target_of port ifa")
        (simp_all add: collect_loop_step map_filter_simps Suc_diff_Suc [symmetric] del: collect_loop.simps)
  next
    case False
    with Cons.prems show ?thesis by (simp add: collect_loop_full del: collect_loop.simps)
  qed
qed (simp add: map_filter_simps)

lemma send_each_world [frame_simps]:
  "send_each ts msg ok w = (r, w') \<Longrightarrow>
   w_peers w' = w_peers w \<and> w_pending w' = w_pending w \<and> w_script w' = w_script w \<and> same_os w w'"
proof (induction ts arbitrary: ok w)
  case (Cons t ts)
  obtain s w1 where s: "sendto (bt_addr t) msg w = (s, w1)" by fastforce
  from Cons.prems s have "send_each ts msg (ok \<or> s) w1 = (r, w')" by simp
  from Cons.IH [OF this] sendto_frame [OF s] show ?case by (auto simp: same_os_def)
qed simp

lemma send_to_all_world [frame_simps]:
  assumes "send_to_all_targets msg w = (r, w')"
  shows "w_peers w' = w_peers w" "w_pending w' = w_pending w" "w_script w' = w_script w" "same_os w w'"
  using assms send_each_world by (auto simp: send_to_all_targets_def split: prod.splits if_splits)

lemma send_join_world [frame_simps]:
  "broadcast_send_join_request i nm p w = (r, w') \<Longrightarrow>
     w_peers w' = w_peers w \<and> w_pending w' = w_pending w \<and> w_script w' = w_script w \<and> same_os w w'"
  "broadcast_send_join_commit i nm v w = (r, w') \<Longrightarrow>
     w_peers w' = w_peers w \<and> w_pending w' = w_pending w \<and> w_script w' = w_script w \<and> same_os w w'"
  by (auto simp: broadcast_send_join_request_def broadcast_send_join_commit_def
      split: prod.splits dest: send_to_all_world)

end
