(* ===== verification/Ring_State.thy ===== *)
theory Ring_State
  imports Join_State Unicast Broadcast_Net
begin

text \<open>
  \<open>include/ring.h\<close>: the state of a node, and its invariant. \<open>int\<close> flags that the code only sets
  to 0 or 1 and tests are \<open>bool\<close>; \<open>time_t\<close> is \<open>int\<close>; the retry counters are bounded by the
  invariant, so \<open>int\<close> does not hide an overflow.
\<close>

record join_inflight =
  ji_active :: bool
  ji_request_id :: u32
  ji_joiner :: pending_join
  ji_expected_prev_name :: name
  ji_got_confirm_prev :: bool
  ji_got_confirm_joiner :: bool
  ji_last_sent :: int
  ji_retries :: int

record join_ack_sender =
  as_active :: bool
  as_request_id :: u32
  as_coord_name :: name
  as_coord_unicast_port :: u16
  as_last_sent :: int
  as_retries :: int
  as_got_ack_ack :: bool

record ring_state =
  rs_config :: route_config
  rs_joined :: bool
  rs_last_seen_topo_version :: u32
  rs_token_epoch :: u32
  rs_last_token_seen :: int
  rs_broadcast_socket :: int
  rs_join_state :: join_state
  rs_join_inflight :: join_inflight
  rs_ack_sender :: join_ack_sender
  rs_join_request_id :: u32
  rs_join_request_last_sent :: int
  rs_join_request_retries :: int
  rs_token_in :: token
  rs_have_token :: bool
  rs_cli_pending :: token
  rs_have_cli_pending :: bool

definition zero_inflight :: join_inflight where
  "zero_inflight = \<lparr>ji_active = False, ji_request_id = 0, ji_joiner = zero_pending,
     ji_expected_prev_name = zero_name, ji_got_confirm_prev = False, ji_got_confirm_joiner = False,
     ji_last_sent = 0, ji_retries = 0\<rparr>"

definition zero_ack_sender :: join_ack_sender where
  "zero_ack_sender = \<lparr>as_active = False, as_request_id = 0, as_coord_name = zero_name,
     as_coord_unicast_port = 0, as_last_sent = 0, as_retries = 0, as_got_ack_ack = False\<rparr>"

definition init_ring_state :: "route_config \<Rightarrow> bool \<Rightarrow> ring_state" where
  "init_ring_state config joined = \<lparr>rs_config = config, rs_joined = joined,
     rs_last_seen_topo_version = 0, rs_token_epoch = 0, rs_last_token_seen = 0,
     rs_broadcast_socket = -1, rs_join_state = zero_join_state, rs_join_inflight = zero_inflight,
     rs_ack_sender = zero_ack_sender, rs_join_request_id = 0, rs_join_request_last_sent = 0,
     rs_join_request_retries = 0, rs_token_in = zero_token, rs_have_token = False,
     rs_cli_pending = zero_token, rs_have_cli_pending = False\<rparr>"

abbreviation my_name :: "ring_state \<Rightarrow> name" where
  "my_name st \<equiv> node_name (cfg_current (rs_config st))"

abbreviation set_inflight :: "join_inflight \<Rightarrow> ring_state \<Rightarrow> ring_state" where
  "set_inflight fl st \<equiv> st\<lparr>rs_join_inflight := fl\<rparr>"

text \<open>The idiom \<open>strncpy(route->node_name, nm, 31); ...[31] = 0; route->unicast_port = port\<close>.\<close>

definition set_route :: "route \<Rightarrow> bytes \<Rightarrow> u16 \<Rightarrow> route" where
  "set_route r nm port = r\<lparr>node_name := copy_name (node_name r) nm, unicast_port := port\<rparr>"

definition set_prev :: "bytes \<Rightarrow> u16 \<Rightarrow> ring_state \<Rightarrow> ring_state" where
  "set_prev nm port st = st\<lparr>rs_config := (rs_config st)\<lparr>
     cfg_prev := set_route (cfg_prev (rs_config st)) nm port\<rparr>\<rparr>"

definition set_next :: "bytes \<Rightarrow> u16 \<Rightarrow> ring_state \<Rightarrow> ring_state" where
  "set_next nm port st = st\<lparr>rs_config := (rs_config st)\<lparr>
     cfg_next := set_route (cfg_next (rs_config st)) nm port\<rparr>\<rparr>"

definition mk_route :: "bytes \<Rightarrow> u16 \<Rightarrow> route" where
  "mk_route nm port = zero_route\<lparr>node_name := copy_name zero_name nm, unicast_port := port\<rparr>"

section \<open>The invariant of a node\<close>

definition wf_config :: "route_config \<Rightarrow> bool" where
  "wf_config c \<longleftrightarrow> wf_route (cfg_current c) \<and> wf_route (cfg_prev c) \<and> wf_route (cfg_next c)"

definition wf_inflight :: "join_inflight \<Rightarrow> bool" where
  "wf_inflight fl \<longleftrightarrow> wf_name (ji_expected_prev_name fl) \<and> wf_name (pj_node_name (ji_joiner fl))
     \<and> 0 \<le> ji_retries fl \<and> ji_retries fl \<le> JOIN_ACCEPT_RETRIES"

definition wf_ack_sender :: "join_ack_sender \<Rightarrow> bool" where
  "wf_ack_sender a \<longleftrightarrow> wf_name (as_coord_name a) \<and> 0 \<le> as_retries a \<and> as_retries a \<le> JOIN_ACK_MAX_RETRIES"

definition data_inv :: "ring_state \<Rightarrow> bool" where
  "data_inv st \<longleftrightarrow> wf_config (rs_config st) \<and> join_inv (rs_join_state st)
     \<and> wf_inflight (rs_join_inflight st) \<and> wf_ack_sender (rs_ack_sender st)
     \<and> wf_token (rs_token_in st) \<and> wf_token (rs_cli_pending st)
     \<and> 0 \<le> rs_join_request_retries st \<and> rs_join_request_retries st \<le> JOIN_REQUEST_RETRIES"

text \<open>A node that coordinates a join is in the ring and holds the token.\<close>

definition join_holds_token :: "ring_state \<Rightarrow> bool" where
  "join_holds_token st \<longleftrightarrow> (ji_active (rs_join_inflight st) \<longrightarrow> rs_joined st \<and> rs_have_token st)"

text \<open>A token that a node holds implies that it is part of the ring.\<close>

definition token_joined :: "ring_state \<Rightarrow> bool" where
  "token_joined st \<longleftrightarrow> (rs_have_token st \<longrightarrow> rs_joined st)"

definition node_inv :: "ring_state \<Rightarrow> bool" where
  "node_inv st \<longleftrightarrow> data_inv st \<and> join_holds_token st \<and> token_joined st"

lemma wf_set_route [simp]: "length (node_name r) = 32 \<Longrightarrow> wf_route (set_route r nm p)"
  by (simp add: set_route_def wf_route_def wf_copy_name)

lemma wf_mk_route [simp]: "wf_route (mk_route nm p)"
  by (simp add: mk_route_def wf_route_def wf_copy_name)

lemma wf_route_length: "wf_route r \<Longrightarrow> length (node_name r) = 32"
  by (simp add: wf_route_def wf_name_length)

lemma set_route_sel:
  "length (node_name r) = 32 \<Longrightarrow> node_name (set_route r nm p) = pad_name (c_str nm)"
  "unicast_port (set_route r nm p) = p" "broadcast_port (set_route r nm p) = broadcast_port r"
  by (simp_all add: set_route_def copy_name_canon)

lemma set_prev_sel [simp]:
  "cfg_current (rs_config (set_prev nm p st)) = cfg_current (rs_config st)"
  "cfg_next (rs_config (set_prev nm p st)) = cfg_next (rs_config st)"
  "cfg_prev (rs_config (set_prev nm p st)) = set_route (cfg_prev (rs_config st)) nm p"
  "rs_joined (set_prev nm p st) = rs_joined st" "rs_join_state (set_prev nm p st) = rs_join_state st"
  "rs_join_inflight (set_prev nm p st) = rs_join_inflight st"
  "rs_ack_sender (set_prev nm p st) = rs_ack_sender st" "rs_token_in (set_prev nm p st) = rs_token_in st"
  "rs_have_token (set_prev nm p st) = rs_have_token st" "rs_cli_pending (set_prev nm p st) = rs_cli_pending st"
  "rs_have_cli_pending (set_prev nm p st) = rs_have_cli_pending st"
  "rs_last_seen_topo_version (set_prev nm p st) = rs_last_seen_topo_version st"
  "rs_join_request_retries (set_prev nm p st) = rs_join_request_retries st"
  "rs_join_request_id (set_prev nm p st) = rs_join_request_id st"
  "rs_join_request_last_sent (set_prev nm p st) = rs_join_request_last_sent st"
  by (simp_all add: set_prev_def)

lemma set_next_sel [simp]:
  "cfg_current (rs_config (set_next nm p st)) = cfg_current (rs_config st)"
  "cfg_prev (rs_config (set_next nm p st)) = cfg_prev (rs_config st)"
  "cfg_next (rs_config (set_next nm p st)) = set_route (cfg_next (rs_config st)) nm p"
  "rs_joined (set_next nm p st) = rs_joined st" "rs_join_state (set_next nm p st) = rs_join_state st"
  "rs_join_inflight (set_next nm p st) = rs_join_inflight st"
  "rs_ack_sender (set_next nm p st) = rs_ack_sender st" "rs_token_in (set_next nm p st) = rs_token_in st"
  "rs_have_token (set_next nm p st) = rs_have_token st" "rs_cli_pending (set_next nm p st) = rs_cli_pending st"
  "rs_have_cli_pending (set_next nm p st) = rs_have_cli_pending st"
  "rs_last_seen_topo_version (set_next nm p st) = rs_last_seen_topo_version st"
  "rs_join_request_retries (set_next nm p st) = rs_join_request_retries st"
  "rs_join_request_id (set_next nm p st) = rs_join_request_id st"
  "rs_join_request_last_sent (set_next nm p st) = rs_join_request_last_sent st"
  by (simp_all add: set_next_def)

lemma wf_config_set [simp]:
  "wf_config (rs_config st) \<Longrightarrow> wf_config (rs_config (set_prev nm p st))"
  "wf_config (rs_config st) \<Longrightarrow> wf_config (rs_config (set_next nm p st))"
  by (auto simp: wf_config_def wf_route_length)

lemma data_inv_set [simp]:
  "data_inv st \<Longrightarrow> data_inv (set_prev nm p st)" "data_inv st \<Longrightarrow> data_inv (set_next nm p st)"
  by (simp_all add: data_inv_def)

lemma data_inv_init: "wf_config config \<Longrightarrow> node_inv (init_ring_state config joined)"
  by (simp add: node_inv_def data_inv_def join_holds_token_def token_joined_def init_ring_state_def
      join_inv_zero wf_inflight_def wf_ack_sender_def zero_inflight_def zero_ack_sender_def zero_pending_def)

end
