(* ===== verification/Join_Fsm.thy ===== *)
theory Join_Fsm
  imports Ring_State
begin

text \<open>
  \<open>join_fsm.c\<close>: the join protocol. A node outside the ring repeats JOIN_REQUEST; the node that
  holds the token coordinates one join at a time: it sends JOIN_ACCEPT to the joiner and to its
  own predecessor until both have confirmed, then takes the joiner as its predecessor and
  broadcasts JOIN_COMMIT.
\<close>

definition zero_accept :: join_accept where
  "zero_accept = \<lparr>ja_header = \<lparr>magic = 0, msg_type = 0, reserved = 0, request_id = 0\<rparr>,
     ja_new_name = zero_name, ja_new_unicast_port = 0, ja_before_name = zero_name,
     ja_before_unicast_port = 0, ja_prev_name = zero_name, ja_prev_unicast_port = 0\<rparr>"

definition build_join_accept_host :: "ring_state \<Rightarrow> join_accept" where
  "build_join_accept_host st =
     zero_accept\<lparr>ja_header := \<lparr>magic = JOIN_MAGIC, msg_type = JOIN_ACCEPT, reserved = 0,
         request_id = ji_request_id (rs_join_inflight st)\<rparr>,
       ja_new_name := copy_name zero_name (pj_node_name (ji_joiner (rs_join_inflight st))),
       ja_new_unicast_port := pj_unicast_port (ji_joiner (rs_join_inflight st)),
       ja_before_name := copy_name zero_name (node_name (cfg_current (rs_config st))),
       ja_before_unicast_port := unicast_port (cfg_current (rs_config st)),
       ja_prev_name := copy_name zero_name (node_name (cfg_prev (rs_config st))),
       ja_prev_unicast_port := unicast_port (cfg_prev (rs_config st))\<rparr>"

text \<open>The conversion to network order in \<open>join_fsm_inflight_tick\<close>.\<close>

definition accept_to_wire :: "join_accept \<Rightarrow> join_accept" where
  "accept_to_wire a =
     zero_accept\<lparr>ja_header := \<lparr>magic = htonl JOIN_MAGIC, msg_type = htons JOIN_ACCEPT, reserved = 0,
         request_id = htonl (request_id (ja_header a))\<rparr>,
       ja_new_name := copy_name zero_name (ja_new_name a),
       ja_new_unicast_port := htons (ja_new_unicast_port a),
       ja_before_name := copy_name zero_name (ja_before_name a),
       ja_before_unicast_port := htons (ja_before_unicast_port a),
       ja_prev_name := copy_name zero_name (ja_prev_name a),
       ja_prev_unicast_port := htons (ja_prev_unicast_port a)\<rparr>"

definition join_fsm_request_tick :: "ring_state \<Rightarrow> world \<Rightarrow> int \<times> ring_state \<times> world" where
  "join_fsm_request_tick st w =
     (if rs_joined st then (0, st, w)
      else case time_now w of (now, w1) \<Rightarrow>
        if rs_join_request_last_sent st \<noteq> 0
           \<and> now - rs_join_request_last_sent st < JOIN_REQUEST_TIMEOUT_S then (0, st, w1)
        else if rs_join_request_retries st \<ge> JOIN_REQUEST_RETRIES then (-1, st, w1)
        else case broadcast_send_join_request (rs_join_request_id st)
               (node_name (cfg_current (rs_config st))) (unicast_port (cfg_current (rs_config st))) w1 of
          (rc, w2) \<Rightarrow>
            if rc < 0 then (-1, st, w2)
            else (0, st\<lparr>rs_join_request_last_sent := now,
                        rs_join_request_retries := rs_join_request_retries st + 1\<rparr>, w2))"

definition join_fsm_start_inflight :: "ring_state \<Rightarrow> pending_join \<Rightarrow> ring_state" where
  "join_fsm_start_inflight st pending =
     (let fl = rs_join_inflight st;
          expected = copy_name (ji_expected_prev_name fl) (node_name (cfg_prev (rs_config st)))
      in set_inflight
           (fl\<lparr>ji_active := True, ji_request_id := pj_request_id pending, ji_joiner := pending,
               ji_expected_prev_name := expected,
               ji_got_confirm_prev := same_name expected (node_name (cfg_current (rs_config st))),
               ji_got_confirm_joiner := False, ji_last_sent := 0, ji_retries := 0\<rparr>) st)"

text \<open>\<open>join_fsm_try_complete\<close>; \<open>join_fsm_maybe_complete\<close> only calls it.\<close>

definition join_fsm_try_complete :: "ring_state \<Rightarrow> world \<Rightarrow> ring_state \<times> world" where
  "join_fsm_try_complete st w =
     (let fl = rs_join_inflight st; joiner = ji_joiner fl in
      if \<not> ji_active fl then (st, w)
      else if \<not> (ji_got_confirm_prev fl \<and> ji_got_confirm_joiner fl) then (st, w)
      else
        let prev_is_self = same_name (ji_expected_prev_name fl) (node_name (cfg_current (rs_config st)));
            st1 = set_prev (pj_node_name joiner) (pj_unicast_port joiner) st;
            st2 = (if prev_is_self then set_next (pj_node_name joiner) (pj_unicast_port joiner) st1 else st1);
            topo = rs_last_seen_topo_version st2 + 1;
            js = join_state_record_completed
                   (snd (remove_pending_join (rs_join_state st2) (pj_node_name joiner))) joiner;
            st3 = st2\<lparr>rs_last_seen_topo_version := topo,
                      rs_token_in := (rs_token_in st2)\<lparr>tk_topo_version := topo\<rparr>,
                      rs_join_state := js,
                      rs_join_inflight := fl\<lparr>ji_active := False, ji_got_confirm_prev := False,
                          ji_got_confirm_joiner := False, ji_retries := 0\<rparr>\<rparr>
        in case broadcast_send_join_commit (ji_request_id fl) (pj_node_name joiner) topo w of
             (rc, w1) \<Rightarrow> (st3, w1))"

definition join_fsm_maybe_complete :: "ring_state \<Rightarrow> world \<Rightarrow> ring_state \<times> world" where
  "join_fsm_maybe_complete st w = join_fsm_try_complete st w"

definition accept_msg :: "ring_state \<Rightarrow> unicast_msg" where
  "accept_msg st = mk_umsg UMSG_JOIN_ACCEPT_U (bytes_of_accept (accept_to_wire (build_join_accept_host st)))"

definition join_fsm_inflight_tick :: "ring_state \<Rightarrow> world \<Rightarrow> (int \<times> ring_state \<times> world) option" where
  "join_fsm_inflight_tick st w =
     (let fl = rs_join_inflight st in
      if \<not> ji_active fl then Some (0, st, w)
      else if ji_got_confirm_prev fl \<and> ji_got_confirm_joiner fl then
        (case join_fsm_maybe_complete st w of (st1, w1) \<Rightarrow> Some (0, st1, w1))
      else case time_now w of (now, w1) \<Rightarrow>
        if ji_last_sent fl \<noteq> 0 \<and> now - ji_last_sent fl < JOIN_ACCEPT_TIMEOUT_S then Some (0, st, w1)
        else
          let fl1 = (if ji_retries fl \<ge> JOIN_ACCEPT_RETRIES
                     then fl\<lparr>ji_retries := 0, ji_last_sent := 0\<rparr> else fl);
              st1 = set_inflight fl1 st;
              accept = build_join_accept_host st1
          in do {
            w2 \<leftarrow> (if \<not> ji_got_confirm_joiner fl1
                   then map_option snd (unicast_send_limited (accept_msg st1)
                          (mk_route (ja_new_name accept) (ja_new_unicast_port accept))
                          JOIN_ACCEPT_ACK_TIMEOUT_USEC JOIN_ACCEPT_ACK_MAX_ATTEMPTS w1)
                   else Some w1);
            w3 \<leftarrow> (if \<not> ji_got_confirm_prev fl1
                   then map_option snd (unicast_send_limited (accept_msg st1)
                          (cfg_prev (rs_config st1))
                          JOIN_ACCEPT_ACK_TIMEOUT_USEC JOIN_ACCEPT_ACK_MAX_ATTEMPTS w2)
                   else Some w2);
            Some (0, set_inflight (fl1\<lparr>ji_last_sent := now, ji_retries := ji_retries fl1 + 1\<rparr>) st1, w3)
          })"

definition join_fsm_handle_ack_broadcast :: "ring_state \<Rightarrow> join_ack \<Rightarrow> world \<Rightarrow> ring_state \<times> world" where
  "join_fsm_handle_ack_broadcast st ack w =
     (let fl = rs_join_inflight st in
      if \<not> ji_active fl then (st, w)
      else if request_id (jk_header ack) \<noteq> ji_request_id fl then (st, w)
      else
        let fl1 = (if same_name (jk_from_name ack) (ji_expected_prev_name fl)
                   then fl\<lparr>ji_got_confirm_prev := True\<rparr> else fl);
            fl2 = (if same_name (jk_from_name ack) (pj_node_name (ji_joiner fl1))
                   then fl1\<lparr>ji_got_confirm_joiner := True\<rparr> else fl1)
        in join_fsm_maybe_complete (set_inflight fl2 st) w)"

end
