(* ===== verification/Dispatch.thy ===== *)
theory Dispatch
  imports Join_Fsm
begin

text \<open>
  \<open>unicast_dispatch.c\<close>: what a node does with each kind of unicast message. The functions that
  answer return \<open>option\<close> because sending may, in general, not return.
\<close>

section \<open>Tokens\<close>

definition update_topology_on_token :: "ring_state \<Rightarrow> bool \<times> ring_state" where
  "update_topology_on_token st =
     (if tk_topo_version (rs_token_in st) \<le> rs_last_seen_topo_version st then (False, st)
      else case drop_oldest_pending_joins (rs_join_state st) (js_count (rs_join_state st)) of
        (removed, js) \<Rightarrow>
          (True, st\<lparr>rs_join_state := js,
                    rs_last_seen_topo_version := tk_topo_version (rs_token_in st)\<rparr>))"

definition clear_pending_joins_on_token :: "ring_state \<Rightarrow> ring_state" where
  "clear_pending_joins_on_token st =
     (if js_count (rs_join_state st) = 0 then st
      else case drop_oldest_pending_joins (rs_join_state st) (js_count (rs_join_state st)) of
        (removed, js) \<Rightarrow> st\<lparr>rs_join_state := js\<rparr>)"

definition handle_token_unicast :: "ring_state \<Rightarrow> unicast_msg \<Rightarrow> ring_state" where
  "handle_token_unicast st msg =
     (if unat (um_payload_len msg) \<noteq> sizeof_token then st
      else
        let st1 = st\<lparr>rs_token_in := token_of_bytes (um_payload msg)\<rparr> in
        if rs_joined st1 then
          (case update_topology_on_token st1 of (newer, st2) \<Rightarrow>
             (if newer then clear_pending_joins_on_token st2 else st2)\<lparr>rs_have_token := True\<rparr>)
        else st1)"

section \<open>JOIN_ACCEPT\<close>

text \<open>The copy of the received structure in host order.\<close>

definition accept_to_host :: "join_accept \<Rightarrow> join_accept" where
  "accept_to_host wire =
     zero_accept\<lparr>ja_header := \<lparr>magic = JOIN_MAGIC, msg_type = JOIN_ACCEPT, reserved = 0,
         request_id = ntohl (request_id (ja_header wire))\<rparr>,
       ja_new_name := copy_name zero_name (ja_new_name wire),
       ja_new_unicast_port := ntohs (ja_new_unicast_port wire),
       ja_before_name := copy_name zero_name (ja_before_name wire),
       ja_before_unicast_port := ntohs (ja_before_unicast_port wire),
       ja_prev_name := copy_name zero_name (ja_prev_name wire),
       ja_prev_unicast_port := ntohs (ja_prev_unicast_port wire)\<rparr>"

definition apply_accept_if_relevant :: "ring_state \<Rightarrow> join_accept \<Rightarrow> bool \<times> ring_state" where
  "apply_accept_if_relevant st accept =
     (let me = node_name (cfg_current (rs_config st)) in
      if same_name me (ja_new_name accept) then
        (if rs_joined st then (False, st)
         else if request_id (ja_header accept) \<noteq> rs_join_request_id st then (False, st)
         else (True, (set_next (ja_before_name accept) (ja_before_unicast_port accept)
                        (set_prev (ja_prev_name accept) (ja_prev_unicast_port accept) st))
                     \<lparr>rs_joined := True, rs_join_request_last_sent := 0, rs_join_request_retries := 0\<rparr>))
      else if same_name me (ja_prev_name accept) then
        (if \<not> same_name (node_name (cfg_next (rs_config st))) (ja_before_name accept) then (False, st)
         else (True, (set_next (ja_new_name accept) (ja_new_unicast_port accept) st)\<lparr>rs_joined := True\<rparr>))
      else (False, st))"

definition ack_msg :: "ring_state \<Rightarrow> u32 \<Rightarrow> unicast_msg" where
  "ack_msg st req = mk_umsg UMSG_JOIN_ACK_U (bytes_of_ack_u
     \<lparr>au_request_id = htonl req,
      au_from_name = copy_name zero_name (node_name (cfg_current (rs_config st)))\<rparr>)"

definition handle_join_accept_u :: "ring_state \<Rightarrow> unicast_msg \<Rightarrow> world \<Rightarrow> (int \<times> ring_state \<times> world) option" where
  "handle_join_accept_u st msg w =
     (if unat (um_payload_len msg) \<noteq> sizeof_join_accept then Some (0, st, w)
      else
        let wire = accept_of_bytes (um_payload msg) in
        if ntohl (magic (ja_header wire)) \<noteq> JOIN_MAGIC \<or> ntohs (msg_type (ja_header wire)) \<noteq> JOIN_ACCEPT
        then Some (0, st, w)
        else
          let accept = accept_to_host wire;
              req = request_id (ja_header accept);
              st1 = st\<lparr>rs_join_state :=
                 join_state_mark_completed_and_prune_pending (rs_join_state st) (ja_new_name accept) req\<rparr>
          in case apply_accept_if_relevant st1 accept of (did_apply, st2) \<Rightarrow>
            if \<not> did_apply then Some (0, st2, w)
            else
              let snd1 = (rs_ack_sender st2)\<lparr>as_active := True, as_request_id := req,
                    as_coord_name := copy_name (as_coord_name (rs_ack_sender st2)) (ja_before_name accept),
                    as_coord_unicast_port := ja_before_unicast_port accept,
                    as_last_sent := 0, as_retries := 0, as_got_ack_ack := False\<rparr>;
                  st3 = st2\<lparr>rs_ack_sender := snd1\<rparr>
              in do {
                (rc, w1) \<leftarrow> unicast_send_limited (ack_msg st3 req)
                    (mk_route (ja_before_name accept) (ja_before_unicast_port accept))
                    JOIN_ACCEPT_ACK_TIMEOUT_USEC JOIN_ACCEPT_ACK_MAX_ATTEMPTS w;
                if rc = 0 then
                  (case time_now w1 of (now, w2) \<Rightarrow>
                     Some (0, st3\<lparr>rs_ack_sender := snd1\<lparr>as_last_sent := now, as_retries := 1\<rparr>\<rparr>, w2))
                else Some (0, st3, w1)
              })"

section \<open>JOIN_ACK and JOIN_ACK_ACK\<close>

fun send_repeated :: "nat \<Rightarrow> unicast_msg \<Rightarrow> route \<Rightarrow> world \<Rightarrow> world option" where
  "send_repeated 0 out dst w = Some w"
| "send_repeated (Suc n) out dst w = do {
     (rc, w1) \<leftarrow> unicast_send_limited out dst JOIN_ACCEPT_ACK_TIMEOUT_USEC 1 w;
     send_repeated n out dst w1
   }"

text \<open>
  The update of the inflight record by an acknowledgement: \<open>matched\<close> in the source. The
  acknowledgement of the predecessor is recognised by either of the two names.
\<close>

definition record_ack :: "ring_state \<Rightarrow> name \<Rightarrow> join_inflight" where
  "record_ack st from_name =
     (let fl = rs_join_inflight st;
          fl1 = (if same_name from_name (ji_expected_prev_name fl)
                    \<or> same_name from_name (node_name (cfg_prev (rs_config st)))
                 then fl\<lparr>ji_got_confirm_prev := True\<rparr> else fl)
      in if same_name from_name (pj_node_name (ji_joiner fl1))
         then fl1\<lparr>ji_got_confirm_joiner := True\<rparr> else fl1)"

definition handle_join_ack_u :: "ring_state \<Rightarrow> unicast_msg \<Rightarrow> world \<Rightarrow> (int \<times> ring_state \<times> world) option" where
  "handle_join_ack_u st msg w =
     (if unat (um_payload_len msg) \<noteq> sizeof_join_ack_u then Some (0, st, w)
      else
        let wire = ack_u_of_bytes (um_payload msg);
            req = ntohl (au_request_id wire);
            from_name = (au_from_name wire)[MAX_NODE_NAME_SIZE - 1 := 0]
        in case (if ji_active (rs_join_inflight st) \<and> ji_request_id (rs_join_inflight st) = req
                 then join_fsm_maybe_complete (set_inflight (record_ack st from_name) st) w
                 else (st, w)) of (st1, w1) \<Rightarrow>
          let out = mk_umsg UMSG_JOIN_ACK_ACK_U (bytes_of_ack_ack_u
                      \<lparr>aau_request_id = htonl req, aau_to_name = copy_name zero_name from_name\<rparr>);
              fl = rs_join_inflight st1
          in
            if ji_active fl \<and> same_name from_name (pj_node_name (ji_joiner fl)) then do {
              w2 \<leftarrow> send_repeated JOIN_ACK_ACK_SEND_COUNT out
                      (mk_route from_name (pj_unicast_port (ji_joiner fl))) w1;
              Some (0, st1, w2)
            }
            else if same_name from_name (node_name (cfg_prev (rs_config st1))) then do {
              w2 \<leftarrow> send_repeated JOIN_ACK_ACK_SEND_COUNT out
                      (mk_route from_name (unicast_port (cfg_prev (rs_config st1)))) w1;
              Some (0, st1, w2)
            }
            else Some (0, st1, w1))"

definition handle_join_ack_ack_u :: "ring_state \<Rightarrow> unicast_msg \<Rightarrow> ring_state" where
  "handle_join_ack_ack_u st msg =
     (if unat (um_payload_len msg) \<noteq> sizeof_join_ack_ack_u then st
      else
        let wire = ack_ack_u_of_bytes (um_payload msg);
            req = ntohl (aau_request_id wire);
            to_name = (aau_to_name wire)[MAX_NODE_NAME_SIZE - 1 := 0]
        in if \<not> same_name to_name (node_name (cfg_current (rs_config st))) then st
           else if as_active (rs_ack_sender st) \<and> as_request_id (rs_ack_sender st) = req
           then st\<lparr>rs_ack_sender := (rs_ack_sender st)\<lparr>as_got_ack_ack := True\<rparr>\<rparr>
           else st)"

section \<open>The dispatcher\<close>

definition unicast_dispatch_message ::
    "ring_state \<Rightarrow> unicast_msg \<Rightarrow> world \<Rightarrow> (int \<times> ring_state \<times> world) option" where
  "unicast_dispatch_message st msg w =
     (if um_type msg = UMSG_TOKEN then Some (0, handle_token_unicast st msg, w)
      else if um_type msg = UMSG_JOIN_ACCEPT_U then handle_join_accept_u st msg w
      else if um_type msg = UMSG_JOIN_ACK_U then handle_join_ack_u st msg w
      else if um_type msg = UMSG_JOIN_ACK_ACK_U then Some (0, handle_join_ack_ack_u st msg, w)
      else Some (0, st, w))"

end
