(* ===== verification/Broadcast.thy ===== *)
theory Broadcast
  imports Join_Fsm
begin

text \<open>
  The receiving half of \<open>broadcast.c\<close>: \<open>handle_broadcast\<close>, one definition for each case of its
  switch. The result of \<open>recvfrom\<close> is an argument: \<open>None\<close> when it fails, otherwise the sender
  and the datagram, which the socket cuts to the size of the buffer.
\<close>

abbreviation (input) JOIN_MAX_MSG_SIZE :: nat where "JOIN_MAX_MSG_SIZE \<equiv> 116"

text \<open>The copy of a request in host order.\<close>

definition request_to_host :: "join_request \<Rightarrow> u32 \<Rightarrow> join_request" where
  "request_to_host jr req =
     \<lparr>jr_header = \<lparr>magic = JOIN_MAGIC, msg_type = JOIN_REQUEST, reserved = 0, request_id = req\<rparr>,
      jr_node_name = copy_name zero_name (jr_node_name jr),
      jr_unicast_port = ntohs (jr_unicast_port jr)\<rparr>"

definition broadcast_join_request ::
    "sockaddr_in \<Rightarrow> bytes \<Rightarrow> u32 \<Rightarrow> ring_state \<Rightarrow> world \<Rightarrow> int \<times> ring_state \<times> world" where
  "broadcast_join_request src buffer req st w =
     (if length buffer \<noteq> sizeof_join_request then (0, st, w)
      else
        let raw = request_of_bytes buffer;
            jr = raw\<lparr>jr_node_name := (jr_node_name raw)[MAX_NODE_NAME_SIZE - 1 := 0]\<rparr>
        in if same_name (jr_node_name jr) (node_name (cfg_current (rs_config st))) then (0, st, w)
           else
             let host = request_to_host jr req in
             if ji_active (rs_join_inflight st)
                \<and> same_name (pj_node_name (ji_joiner (rs_join_inflight st))) (jr_node_name host)
             then (0, st, w)
             else if join_state_is_completed (rs_join_state st) host then (0, st, w)
             else case time_now w of (now, w1) \<Rightarrow>
               (case add_pending_join (rs_join_state st) host (sin_addr src) now of
                  (rc, js) \<Rightarrow> (0, st\<lparr>rs_join_state := js\<rparr>, w1)))"

text \<open>The three parts of the JOIN_COMMIT case, in order.\<close>

definition commit_topology :: "u32 \<Rightarrow> ring_state \<Rightarrow> ring_state" where
  "commit_topology topo st =
     (if topo > rs_last_seen_topo_version st then
        let st1 = st\<lparr>rs_last_seen_topo_version := topo\<rparr>;
            pending_before = js_count (rs_join_state st1)
        in if pending_before > 0 then
             (case drop_oldest_pending_joins (rs_join_state st1) pending_before of
                (removed, js) \<Rightarrow> st1\<lparr>rs_join_state := js\<rparr>)
           else st1
      else st)"

definition commit_inflight :: "u32 \<Rightarrow> ring_state \<Rightarrow> ring_state" where
  "commit_inflight req st =
     (let fl = rs_join_inflight st; joiner = ji_joiner fl in
      if ji_active fl \<and> ji_request_id fl = req then
        let st1 = set_prev (pj_node_name joiner) (pj_unicast_port joiner) st
        in st1\<lparr>rs_join_state := join_state_record_completed
                 (snd (remove_pending_join (rs_join_state st1) (pj_node_name joiner))) joiner,
               rs_join_inflight := fl\<lparr>ji_active := False, ji_got_confirm_prev := False,
                 ji_got_confirm_joiner := False, ji_retries := 0\<rparr>,
               rs_token_in := (rs_token_in st1)\<lparr>tk_topo_version := rs_last_seen_topo_version st1\<rparr>\<rparr>
      else st)"

definition commit_ack_sender :: "u32 \<Rightarrow> ring_state \<Rightarrow> ring_state" where
  "commit_ack_sender req st =
     (let a = rs_ack_sender st in
      if as_active a \<and> as_request_id a = req
      then st\<lparr>rs_ack_sender := a\<lparr>as_active := False, as_got_ack_ack := True\<rparr>\<rparr>
      else st)"

definition broadcast_join_commit :: "bytes \<Rightarrow> ring_state \<Rightarrow> ring_state" where
  "broadcast_join_commit buffer st =
     (if length buffer \<noteq> sizeof_join_commit then st
      else
        let wire = commit_of_bytes buffer in
        if ntohl (magic (jc_header wire)) \<noteq> JOIN_MAGIC \<or> ntohs (msg_type (jc_header wire)) \<noteq> JOIN_COMMIT
        then st
        else
          let req = ntohl (request_id (jc_header wire));
              topo = ntohl (jc_topo_version wire);
              nm = (jc_new_name wire)[MAX_NODE_NAME_SIZE - 1 := 0];
              st1 = st\<lparr>rs_join_state :=
                join_state_mark_completed_and_prune_pending (rs_join_state st) nm req\<rparr>
          in commit_ack_sender req (commit_inflight req (commit_topology topo st1)))"

definition handle_broadcast ::
    "(sockaddr_in \<times> bytes) option \<Rightarrow> ring_state \<Rightarrow> world \<Rightarrow> int \<times> ring_state \<times> world" where
  "handle_broadcast received st w =
     (case received of
        None \<Rightarrow> (-1, st, w)
      | Some (src, dgram) \<Rightarrow>
          let buffer = take JOIN_MAX_MSG_SIZE dgram in
          if length buffer < sizeof_join_header then (0, st, w)
          else
            let header = header_of_bytes buffer in
            if ntohl (magic header) \<noteq> JOIN_MAGIC then (0, st, w)
            else if ntohs (msg_type header) = JOIN_REQUEST then
              broadcast_join_request src buffer (ntohl (request_id header)) st w
            else if ntohs (msg_type header) = JOIN_COMMIT then (0, broadcast_join_commit buffer st, w)
            else (0, st, w))"

end
