(* ===== verification/Cli.thy ===== *)
theory Cli
  imports Wire
begin

text \<open>
  \<open>cli.c\<close> and \<open>writer.c\<close>: a user hands a message to the local node through a FIFO. The writer
  checks the lengths and writes one token structure; the node reads a structure of the same
  size over its \<open>cli_pending\<close> field.
\<close>

text \<open>
  The bytes the FIFO gives are the argument; \<open>None\<close> is a failing \<open>read\<close>. A short read
  overwrites the front of the structure only.
\<close>

definition cli_handle_read :: "bytes option \<Rightarrow> token \<Rightarrow> int \<times> token" where
  "cli_handle_read got tk =
     (case got of
        None \<Rightarrow> (-1, tk)
      | Some b \<Rightarrow> (0, token_of_bytes (overlay (bytes_of_token tk) (take sizeof_token b))))"

text \<open>
  \<open>main\<close> of the writer: \<open>argv\<close>, the value of \<open>NODE_NAME\<close>, the descriptor of the FIFO. The
  result is the bytes handed to \<open>write\<close>, or the exit by failure.
\<close>

definition writer_main :: "bytes list \<Rightarrow> bytes option \<Rightarrow> int \<Rightarrow> bytes option" where
  "writer_main argv node_name_env cli_fd =
     (if length argv \<noteq> 3 then None
      else if strlen (argv ! 1) > MAX_DATA_SIZE - 1 then None
      else if strlen (argv ! 2) > MAX_NODE_NAME_SIZE - 1 then None
      else case node_name_env of
        None \<Rightarrow> None
      | Some sender \<Rightarrow>
          let tk = zero_token\<lparr>tk_is_empty := False, tk_topo_version := 0,
                tk_data := strncpy (tk_data zero_token) (argv ! 1) (MAX_DATA_SIZE - 1),
                tk_receiver := strncpy (tk_receiver zero_token) (argv ! 2) (MAX_NODE_NAME_SIZE - 1),
                tk_sender := strncpy (tk_sender zero_token) sender (MAX_NODE_NAME_SIZE - 1)\<rparr>
          in if cli_fd < 0 then None else Some (bytes_of_token tk))"

section \<open>Properties\<close>

lemma wf_token_strncpy:
  "wf_token (zero_token\<lparr>tk_is_empty := e, tk_topo_version := v, tk_data := strncpy (tk_data zero_token) d 255,
     tk_receiver := strncpy (tk_receiver zero_token) r 31, tk_sender := strncpy (tk_sender zero_token) s 31\<rparr>)"
  by (simp add: wf_token_def zero_token_def)

lemma cli_handle_read_wf: "cli_handle_read got tk = (rc, tk') \<Longrightarrow> wf_token tk \<Longrightarrow> wf_token tk'"
  using token_fmt.length_enc [of tk]
  by (auto simp: cli_handle_read_def split: option.splits intro!: wf_of_bytes)

lemma cli_read_whole: "wf_token tk \<Longrightarrow> wf_token old \<Longrightarrow> cli_handle_read (Some (bytes_of_token tk)) old = (0, tk)"
  using token_fmt.length_enc [of tk] token_fmt.dec_overlay [of tk "bytes_of_token old"]
  by (simp add: cli_handle_read_def)

lemma c_str_strncpy_zero:
  "n < m \<Longrightarrow> c_str (strncpy (replicate m 0) s n) = take n (c_str s)"
proof -
  assume "n < m"
  let ?t = "take n (c_str s)"
  have "strncpy (replicate m 0) s n = ?t @ replicate (m - length ?t) 0"
    using \<open>n < m\<close> by (simp add: strncpy_def Let_def replicate_add [symmetric])
  moreover have "c_str ?t = ?t" by (meson c_str_id c_str_no_nul in_set_takeD)
  ultimately show ?thesis
    using \<open>n < m\<close> c_str_replicate [of "m - length ?t" ?t "[]"] by simp
qed

end
