(* ===== verification/Ring.thy ===== *)
theory Ring
  imports Dispatch Broadcast Cli
begin

text \<open>
  \<open>ring.c\<close>: configuration, the token, the acknowledgement sender, the deadline of \<open>select\<close> and
  the event loop. One pass of the loop is \<open>ring_iter\<close>; what \<open>select\<close> and the descriptors other
  than the unicast socket answer in a pass is the record \<open>iter_input\<close>.
\<close>

record timeval =
  tv_sec :: int
  tv_usec :: int

record iter_input =
  in_ret :: int \<comment> \<open>return value of \<open>select\<close>\<close>
  in_eintr :: bool \<comment> \<open>\<open>errno == EINTR\<close> after a failing \<open>select\<close>\<close>
  in_timeout_left :: timeval \<comment> \<open>what \<open>select\<close> leaves in its timeout argument\<close>
  in_unicast :: bool \<comment> \<open>\<open>FD_ISSET\<close> of the three descriptors\<close>
  in_broadcast :: bool
  in_cli :: bool
  in_dgram :: "(sockaddr_in \<times> bytes) option" \<comment> \<open>what the broadcast socket gives\<close>
  in_fifo :: "bytes option" \<comment> \<open>what the FIFO gives\<close>

section \<open>Configuration\<close>

text \<open>\<open>getenv\<close> is the argument \<open>env\<close>. Ports are truncated to 16 bits.\<close>

definition port_of :: "bytes \<Rightarrow> u16" where
  "port_of s = word_of_int (atoi s)"

definition route_name :: "route \<Rightarrow> bytes \<Rightarrow> route" where
  "route_name r nm = r\<lparr>node_name := copy_name (node_name r) nm\<rparr>"

definition fill_config_from_env ::
    "(string \<Rightarrow> bytes option) \<Rightarrow> route_config \<Rightarrow> bool \<Rightarrow> route_config option" where
  "fill_config_from_env env c joined =
     (let nm = env ''NODE_NAME''; uni = env ''NODE_UNI_PORT''; b = env ''NODE_BROAD_PORT'' in
      if \<not> joined then
        (case (nm, uni, b) of
           (Some nm, Some uni, Some b) \<Rightarrow>
             Some (c\<lparr>cfg_current := (route_name (cfg_current c) nm)\<lparr>broadcast_port := port_of b,
                       unicast_port := port_of uni\<rparr>\<rparr>)
         | _ \<Rightarrow> None)
      else
        (case (nm, uni, env ''PREV_NODE_NAME'', env ''PREV_NODE_UNI_PORT'', env ''NEXT_NODE_NAME'',
               env ''NEXT_NODE_UNI_PORT'', b) of
           (Some nm, Some uni, Some pn, Some pp, Some nn, Some np, Some b) \<Rightarrow>
             Some (c\<lparr>cfg_current := (route_name (cfg_current c) nm)\<lparr>unicast_port := port_of uni,
                       broadcast_port := port_of b\<rparr>,
                     cfg_prev := (route_name (cfg_prev c) pn)\<lparr>unicast_port := port_of pp\<rparr>,
                     cfg_next := (route_name (cfg_next c) nn)\<lparr>unicast_port := port_of np\<rparr>\<rparr>)
         | _ \<Rightarrow> None))"

text \<open>
  \<open>gen_request_id\<close>: \<open>urandom\<close> is the number read, if four bytes could be read; otherwise the
  time of day and the process id are mixed.
\<close>

definition gen_request_id :: "u32 option \<Rightarrow> int \<Rightarrow> int \<Rightarrow> u32 \<Rightarrow> u32" where
  "gen_request_id urandom sec usec pid =
     (case urandom of
        Some v \<Rightarrow> if v \<noteq> 0 then v
                   else (let u = word_of_int sec XOR word_of_int usec XOR push_bit 16 pid
                         in if u \<noteq> 0 then u else 1)
      | None \<Rightarrow> (let u = word_of_int sec XOR word_of_int usec XOR push_bit 16 pid
                 in if u \<noteq> 0 then u else 1))"

definition init_join_request_if_needed :: "u32 \<Rightarrow> ring_state \<Rightarrow> world \<Rightarrow> int \<times> ring_state \<times> world" where
  "init_join_request_if_needed fresh_id st w =
     (if rs_joined st then (0, st, w)
      else case join_fsm_request_tick (st\<lparr>rs_join_request_id := fresh_id,
                 rs_join_request_last_sent := 0, rs_join_request_retries := 0\<rparr>) w of
        (rc, st1, w1) \<Rightarrow> (if rc < 0 then -1 else 0, st1, w1))"

definition maybe_send_initial_token :: "bool \<Rightarrow> ring_state \<Rightarrow> ring_state" where
  "maybe_send_initial_token should_start st =
     (if \<not> should_start \<or> \<not> rs_joined st then st
      else if rs_have_token st then st
      else st\<lparr>rs_token_in := zero_token\<lparr>tk_is_empty := True,
                 tk_topo_version := rs_last_seen_topo_version st\<rparr>, rs_have_token := True\<rparr>)"

section \<open>The token\<close>

definition clear_token :: "token \<Rightarrow> token" where
  "clear_token t = t\<lparr>tk_is_empty := True, tk_data := replicate MAX_DATA_SIZE 0,
     tk_sender := zero_name, tk_receiver := zero_name\<rparr>"

text \<open>The first half of \<open>ring_on_token\<close>: the token to forward and the state before sending.\<close>

definition token_out :: "ring_state \<Rightarrow> token \<times> ring_state" where
  "token_out st =
     (let out = rs_token_in st;
          out1 = (if \<not> tk_is_empty out
                  then (if strcmp (tk_receiver out) (node_name (cfg_current (rs_config st))) = 0
                        then clear_token out else out)
                  else out)
      in if rs_have_cli_pending st \<and> tk_is_empty out1
         then ((rs_cli_pending st)\<lparr>tk_topo_version := rs_last_seen_topo_version st\<rparr>,
               st\<lparr>rs_have_cli_pending := False, rs_cli_pending := clear_token (rs_cli_pending st)\<rparr>)
         else (out1, st))"

definition token_msg :: "token \<Rightarrow> unicast_msg" where
  "token_msg t = mk_umsg UMSG_TOKEN (bytes_of_token t)"

definition ring_on_token :: "ring_state \<Rightarrow> world \<Rightarrow> (int \<times> ring_state \<times> world) option" where
  "ring_on_token st w =
     (case token_out st of (out, st1) \<Rightarrow> do {
        (rc, w1) \<leftarrow> unicast_send_limited (token_msg out) (cfg_next (rs_config st1))
                      TOKEN_ACK_TIMEOUT_USEC TOKEN_ACK_MAX_ATTEMPTS w;
        if rc < 0 then Some (0, st1, w1)
        else Some (0, st1\<lparr>rs_have_token := False, rs_token_in := zero_token\<rparr>, w1)
      })"

definition handle_token_if_ready :: "ring_state \<Rightarrow> world \<Rightarrow> (int \<times> ring_state \<times> world) option" where
  "handle_token_if_ready st w =
     (if \<not> rs_joined st \<or> \<not> rs_have_token st then Some (0, st, w)
      else if ji_active (rs_join_inflight st) then Some (0, st, w)
      else if js_count (rs_join_state st) > 0 then
        (case pop_oldest_pending_join (rs_join_state st) of
           (Some pj, js) \<Rightarrow> do {
             (rc, st1, w1) \<leftarrow> join_fsm_inflight_tick
                 (join_fsm_start_inflight (st\<lparr>rs_join_state := js\<rparr>) pj) w;
             if rc < 0 then Some (-1, st1, w1) else Some (0, st1, w1)
           }
         | (None, js) \<Rightarrow> Some (0, st\<lparr>rs_join_state := js\<rparr>, w))
      else do {
        (rc, st1, w1) \<leftarrow> ring_on_token st w;
        if rc < 0 then Some (-1, st1, w1) else Some (0, st1, w1)
      })"

section \<open>The acknowledgement sender\<close>

definition join_ack_sender_tick :: "ring_state \<Rightarrow> world \<Rightarrow> (int \<times> ring_state \<times> world) option" where
  "join_ack_sender_tick st w =
     (let a = rs_ack_sender st in
      if \<not> as_active a then Some (0, st, w)
      else if as_got_ack_ack a then Some (0, st\<lparr>rs_ack_sender := a\<lparr>as_active := False\<rparr>\<rparr>, w)
      else case time_now w of (now, w1) \<Rightarrow>
        if as_last_sent a \<noteq> 0 \<and> now - as_last_sent a < JOIN_ACK_RESEND_S then Some (0, st, w1)
        else if as_retries a \<ge> JOIN_ACK_MAX_RETRIES
        then Some (0, st\<lparr>rs_ack_sender := a\<lparr>as_active := False\<rparr>\<rparr>, w1)
        else do {
          (rc, w2) \<leftarrow> unicast_send_limited (ack_msg st (as_request_id a))
             (mk_route (as_coord_name a) (as_coord_unicast_port a))
             JOIN_ACCEPT_ACK_TIMEOUT_USEC JOIN_ACCEPT_ACK_MAX_ATTEMPTS w1;
          Some (0, st\<lparr>rs_ack_sender := a\<lparr>as_last_sent := now, as_retries := as_retries a + 1\<rparr>\<rparr>, w2)
        })"

section \<open>The timeout of select\<close>

definition sooner :: "int \<Rightarrow> int \<Rightarrow> int" where
  "sooner next_deadline deadline =
     (if next_deadline = 0 \<or> deadline < next_deadline then deadline else next_deadline)"

text \<open>
  The deadlines, in the order of the source; 0 stands for none. \<open>now\<close> is \<open>time(NULL)\<close>.
\<close>

definition next_deadline :: "ring_state \<Rightarrow> int \<Rightarrow> int" where
  "next_deadline st now =
     (let fl = rs_join_inflight st; a = rs_ack_sender st;
          d0 = 0;
          d1 = (if \<not> rs_joined st
                then (if rs_join_request_last_sent st = 0 then now
                      else rs_join_request_last_sent st + JOIN_REQUEST_TIMEOUT_S) else d0);
          d2 = (if ji_active fl \<and> \<not> (ji_got_confirm_prev fl \<and> ji_got_confirm_joiner fl)
                then sooner d1 (if ji_last_sent fl = 0 then now else ji_last_sent fl + JOIN_ACCEPT_TIMEOUT_S)
                else d1);
          d3 = (if js_count (rs_join_state st) > 0 then sooner d2 (now + 1) else d2)
      in if as_active a \<and> \<not> as_got_ack_ack a
         then sooner d3 (if as_last_sent a = 0 then now else as_last_sent a + JOIN_ACK_RESEND_S)
         else d3)"

definition set_select_timeout :: "ring_state \<Rightarrow> timeval \<Rightarrow> world \<Rightarrow> timeval \<times> world" where
  "set_select_timeout st timeout w =
     (let fl = rs_join_inflight st in
      if ji_active fl \<and> ji_got_confirm_prev fl \<and> ji_got_confirm_joiner fl
      then (\<lparr>tv_sec = 0, tv_usec = 0\<rparr>, w)
      else if rudp_has_pending w then (\<lparr>tv_sec = 0, tv_usec = 0\<rparr>, w)
      else if rs_have_token st \<and> rs_joined st \<and> \<not> ji_active fl then (\<lparr>tv_sec = 0, tv_usec = 0\<rparr>, w)
      else case time_now w of (now, w1) \<Rightarrow>
        let d = next_deadline st now in
        if d = 0 then (timeout\<lparr>tv_sec := SELECT_TIMEOUT_S\<rparr>, w1)
        else if d \<le> now then (\<lparr>tv_sec = 0, tv_usec = 0\<rparr>, w1)
        else (\<lparr>tv_sec = c_int (d - now), tv_usec = 0\<rparr>, w1))"

section \<open>The descriptors\<close>

definition handle_broadcast_if_ready :: "iter_input \<Rightarrow> ring_state \<Rightarrow> world \<Rightarrow> int \<times> ring_state \<times> world" where
  "handle_broadcast_if_ready inp st w =
     (if \<not> in_broadcast inp then (0, st, w)
      else case handle_broadcast (in_dgram inp) st w of
        (rc, st1, w1) \<Rightarrow> (if rc < 0 then -1 else 0, st1, w1))"

definition handle_cli_if_ready :: "iter_input \<Rightarrow> ring_state \<Rightarrow> int \<times> ring_state" where
  "handle_cli_if_ready inp st =
     (if \<not> in_cli inp \<or> \<not> tk_is_empty (rs_token_in st) then (0, st)
      else case cli_handle_read (in_fifo inp) (rs_cli_pending st) of
        (rc, tk) \<Rightarrow> if rc < 0 then (-1, st\<lparr>rs_cli_pending := tk\<rparr>)
                    else (0, st\<lparr>rs_cli_pending := tk, rs_have_cli_pending := True\<rparr>))"

text \<open>The loop \<open>do ... while (rudp_has_pending())\<close>; the result is \<open>unicast_error\<close> as 0 or -1.\<close>

partial_function (option) unicast_loop :: "ring_state \<Rightarrow> world \<Rightarrow> (int \<times> ring_state \<times> world) option" where
  "unicast_loop st w =
     (case unicast_recv zero_umsg w of (rc, msg, w1) \<Rightarrow>
        if rc > 0 then Some (0, st, w1)
        else if rc < 0 then Some (-1, st, w1)
        else Option.bind (unicast_dispatch_message st msg w1) (\<lambda>(rc2, st1, w2).
          if rc2 < 0 then Some (-1, st1, w2)
          else case join_fsm_maybe_complete st1 w2 of (st2, w3) \<Rightarrow>
            if rudp_has_pending w3 then unicast_loop st2 w3 else Some (0, st2, w3)))"

definition handle_unicast_if_ready ::
    "iter_input \<Rightarrow> ring_state \<Rightarrow> world \<Rightarrow> (int \<times> ring_state \<times> world) option" where
  "handle_unicast_if_ready inp st w =
     (if \<not> rudp_has_pending w \<and> \<not> in_unicast inp then Some (0, st, w) else unicast_loop st w)"

section \<open>The event loop\<close>

text \<open>
  One pass either goes on with a new state or ends \<open>ring_run\<close> with a return value.
\<close>

datatype iter_result = Continue ring_state timeval world | Return int ring_state world

definition ring_iter :: "iter_input \<Rightarrow> ring_state \<Rightarrow> timeval \<Rightarrow> world \<Rightarrow> iter_result option" where
  "ring_iter inp st timeout w = do {
     (rc, st1, w1) \<leftarrow> join_ack_sender_tick st w;
     if rc < 0 then Some (Return 0 st1 w1)
     else case time_now w1 of (now, w2) \<Rightarrow>
       let st2 = st1\<lparr>rs_join_state := prune_joins (rs_join_state st1) now JOIN_PENDING_TTL_S\<rparr> in
       case set_select_timeout st2 timeout w2 of (timeout1, w3) \<Rightarrow>
       case join_fsm_request_tick st2 w3 of (rc, st3, w4) \<Rightarrow>
       if rc < 0 then Some (Return 0 st3 w4)
       else do {
         (rc, st4, w5) \<leftarrow> join_fsm_inflight_tick st3 w4;
         if rc < 0 then Some (Return 0 st4 w5)
         else if in_ret inp < 0 then
           (if in_eintr inp then Some (Continue st4 (in_timeout_left inp) w5)
            else Some (Return (-1) st4 w5))
         else do {
           (rc, st5, w6) \<leftarrow> handle_unicast_if_ready inp st4 w5;
           if rc < 0 then Some (Return 0 st5 w6)
           else case join_fsm_maybe_complete st5 w6 of (st6, w7) \<Rightarrow>
           case handle_broadcast_if_ready inp st6 w7 of (rc, st7, w8) \<Rightarrow>
           if rc < 0 then Some (Return 0 st7 w8)
           else case handle_cli_if_ready inp st7 of (rc, st8) \<Rightarrow>
           if rc < 0 then Some (Return 0 st8 w8)
           else do {
             (rc, st9, w9) \<leftarrow> handle_token_if_ready st8 w8;
             if rc < 0 then Some (Return 0 st9 w9)
             else Some (Continue st9 (in_timeout_left inp) w9)
           }
         }
       }
   }"

fun ring_loop :: "iter_input list \<Rightarrow> ring_state \<Rightarrow> timeval \<Rightarrow> world \<Rightarrow> iter_result option" where
  "ring_loop [] st timeout w = Some (Continue st timeout w)"
| "ring_loop (inp # inps) st timeout w = do {
     r \<leftarrow> ring_iter inp st timeout w;
     case r of
       Continue st1 timeout1 w1 \<Rightarrow> ring_loop inps st1 timeout1 w1
     | Return rc st1 w1 \<Rightarrow> Some (Return rc st1 w1)
   }"

text \<open>
  \<open>ring_run\<close> over the first passes of its loop. \<open>timeout\<close> is the uninitialised local variable.
\<close>

definition ring_run ::
    "route_config \<Rightarrow> int \<Rightarrow> bool \<Rightarrow> u32 \<Rightarrow> bool \<Rightarrow> timeval \<Rightarrow> iter_input list \<Rightarrow> world \<Rightarrow> iter_result option" where
  "ring_run config broadcast_socket joined fresh_id should_start timeout inps w =
     (let st = (init_ring_state config joined)\<lparr>rs_broadcast_socket := broadcast_socket\<rparr> in
      case init_join_request_if_needed fresh_id st w of (rc, st1, w1) \<Rightarrow>
        if rc < 0 then Some (Return (-1) st1 w1)
        else ring_loop inps (maybe_send_initial_token should_start st1) timeout w1)"

end
