(* ===== verification/Node_Props.thy ===== *)
theory Node_Props
  imports Ring Rudp_Props
begin

text \<open>
  Facts about the handlers of a node that the properties of the join protocol and of the ring share:
  how an operation may change the world, which calls always return, and the node invariant.
\<close>

section \<open>The world of a handler\<close>

text \<open>
  The frame of every handler: the system stays the same, the tables of the reliable UDP keep
  their invariant, no frame is invented, the work left for a receive does not grow and the log of sent
  datagrams only grows.
\<close>

definition world_step :: "world \<Rightarrow> world \<Rightarrow> bool" where
  "world_step w w' \<longleftrightarrow> same_os w w' \<and> work w' \<le> work w \<and> frames w' \<subseteq> frames w
     \<and> (rudp_inv w \<longrightarrow> rudp_inv w') \<and> (\<exists>xs. w_sent w' = w_sent w @ xs)"

named_theorems steps \<open>operations as steps of the world\<close>

lemma world_step_refl [simp]: "world_step w w"
  by (simp add: world_step_def)

lemma world_step_trans [trans]: "world_step w w' \<Longrightarrow> world_step w' w'' \<Longrightarrow> world_step w w''"
  unfolding world_step_def by (auto intro: same_os_trans)

lemma world_step_tick [simp]: "world_step w (tick w)"
  by (simp add: world_step_def same_os_def work_def frames_def rudp_inv_def)

lemma world_step_time [steps]: "time_now w = (t, w') \<Longrightarrow> world_step w w'"
  by (auto simp: time_now_def)

lemma world_step_send [steps]: "rudp_sendto_with_limits b d t m w = Some (rc, w') \<Longrightarrow> world_step w w'"
  by (drule rudp_sendto_meets_spec) (auto simp: send_spec_def world_step_def)

lemma world_step_resolve [steps]: "resolve_next_addr r w = (rc, a, w') \<Longrightarrow> world_step w w'"
  by (auto simp: resolve_next_addr_def Let_def split: prod.splits if_splits option.splits)

lemma world_step_unicast [steps]:
  assumes "unicast_send_limited msg r t m w = Some (rc, w')"
  shows "world_step w w'"
proof -
  obtain r1 a w1 where "resolve_next_addr r w = (r1, a, w1)" by (cases "resolve_next_addr r w") auto
  with assms world_step_resolve [OF this] world_step_send show ?thesis
    by (auto simp: unicast_send_limited_def split: if_splits option.splits intro: world_step_trans)
qed

lemma send_each_sent: "send_each ts msg ok w = (r, w') \<Longrightarrow> \<exists>xs. w_sent w' = w_sent w @ xs"
proof (induction ts arbitrary: ok w)
  case (Cons t ts)
  obtain s w1 where s: "sendto (bt_addr t) msg w = (s, w1)" by fastforce
  then have "send_each ts msg (ok \<or> s) w1 = (r, w')" using Cons.prems by simp
  from Cons.IH [OF this] sendto_frame(5) [OF s] show ?case by (auto split: if_splits)
qed simp

lemma world_step_all_targets [steps]:
  assumes "send_to_all_targets msg w = (r, w')"
  shows "world_step w w'"
proof -
  obtain ok where s: "send_each (w_targets w) msg False w = (ok, w')"
    using assms by (auto simp: send_to_all_targets_def split: prod.splits if_splits)
  from send_each_sent [OF s] send_each_world [OF s] show ?thesis
    by (auto simp: world_step_def work_def frames_def rudp_inv_def)
qed

lemma world_step_commit [steps]: "broadcast_send_join_commit i nm v w = (r, w') \<Longrightarrow> world_step w w'"
  by (auto simp: broadcast_send_join_commit_def split: prod.splits dest: world_step_all_targets)

lemma world_step_request [steps]: "broadcast_send_join_request i nm p w = (r, w') \<Longrightarrow> world_step w w'"
  by (auto simp: broadcast_send_join_request_def split: prod.splits dest: world_step_all_targets)

text \<open>A send with a limit returns, so do the handlers that use only such sends.\<close>

lemma unicast_send_returns: "0 < m \<Longrightarrow> \<exists>rc w'. unicast_send_limited msg r t m w = Some (rc, w')"
proof -
  assume m: "0 < m"
  obtain r1 a w1 where r: "resolve_next_addr r w = (r1, a, w1)" by (cases "resolve_next_addr r w") auto
  show ?thesis
    using rudp_sendto_bounded [OF m, of "bytes_of_umsg (the (build_unicast_wire msg))" a t w1] r
    by (auto simp: unicast_send_limited_def split: option.splits)
qed

lemma send_repeated_returns: "\<exists>w'. send_repeated n msg r w = Some w' \<and> world_step w w'"
proof (induction n arbitrary: w)
  case (Suc n)
  obtain rc w1 where s: "unicast_send_limited msg r JOIN_ACCEPT_ACK_TIMEOUT_USEC 1 w = Some (rc, w1)"
    using unicast_send_returns [of 1] by fastforce
  obtain w2 where "send_repeated n msg r w1 = Some w2" "world_step w1 w2" using Suc.IH by blast
  with s world_step_unicast [OF s] show ?case by (auto intro: world_step_trans)
qed simp

lemma receive_work:
  assumes "rudp_recvfrom len src w = (rc, d, src', w')"
  shows "work w' \<le> work w" "rc = 0 \<Longrightarrow> work w' < work w" "rc = 0 \<Longrightarrow> length d = len"
proof -
  have "recvfrom_loop len src w = (rc, d, src', w') \<Longrightarrow>
      work w' \<le> work w \<and> (rc = 0 \<longrightarrow> work w' < work w \<and> length d = len)"
    for src w
  proof (induction len src w rule: recvfrom_loop.induct)
    case (1 len src w)
    obtain r1 src1 buf w1 where rm: "receive_message_frame src (w_stack w (w_tick w)) w = (r1, src1, buf, w1)"
      by (metis prod_cases4)
    obtain g w2 where g: "get_peer src1 True w1 = (g, w2)" by fastforce
    obtain arc w3 where al: "ack_loop MAX_TRANSMISION_ATTEMPTS src1 (buf 4) w2 = (arc, w3)" by fastforce
    obtain r2 src2 buf2 w4 where rm2: "receive_message_frame src1 buf w3 = (r2, src2, buf2, w4)"
      by (metis prod_cases4)
    note w = receive_message_frame_work [OF rm] work_get_peer [OF g] ack_loop_work [OF al]
      receive_message_frame_work [OF rm2]
    note res = "1.prems" [unfolded recvfrom_loop.simps [of len src w] rm prod.case g Let_def al rm2]
    have fl: "work (flip_expected_bit i w3) = work w3" for i by (simp add: work_def flip_expected_bit_def)
    show ?case
    proof (cases "r1 = 0 \<and> (\<exists>i. g = Some i \<and> buf 4 \<noteq> rp_expected_seq (w_peers w2 ! i)) \<and> \<not> arc < 0 \<and> r2 = 0")
      case True
      then obtain i where i: "r1 = 0" "g = Some i" "buf 4 \<noteq> rp_expected_seq (w_peers w2 ! i)" "\<not> arc < 0" "r2 = 0"
        by blast
      then have "recvfrom_loop len src2 w4 = (rc, d, src', w')" using res by (simp add: al rm2)
      then have "work w' \<le> work w4 \<and> (rc = 0 \<longrightarrow> work w' < work w4 \<and> length d = len)"
        using i by (intro "1.IH" [OF rm [symmetric] refl refl _ g [symmetric] _ refl refl al [symmetric]
                _ _ rm2 [symmetric] refl refl]) simp_all
      with w i show ?thesis by auto
    next
      case False
      with res w fl show ?thesis by (auto simp: al rm2 split: option.splits if_splits)
    qed
  qed
  with assms show "work w' \<le> work w" "rc = 0 \<Longrightarrow> work w' < work w" "rc = 0 \<Longrightarrow> length d = len"
    by (auto simp: rudp_recvfrom_def split: if_splits)
qed

lemma unicast_recv_step [steps]:
  assumes "unicast_recv msg w = (rc, msg', w')"
  shows "world_step w w'" "rc = 0 \<Longrightarrow> work w' < work w" "rc = 0 \<Longrightarrow> wf_umsg msg \<Longrightarrow> wf_umsg msg'"
proof -
  obtain r b src w1 where r: "rudp_recvfrom sizeof_umsg zero_addr w = (r, b, src, w1)" by (metis prod_cases4)
  then have w': "w' = w1" and "rc = 0 \<longrightarrow> r = 0"
    using assms by (auto simp: unicast_recv_def split: if_splits prod.splits)
  with receive_work [OF r] rudp_recvfrom_meets_spec [OF r]
  show "world_step w w'" "rc = 0 \<Longrightarrow> work w' < work w" by (auto simp: world_step_def recv_spec_def)
  show "wf_umsg msg'" if "rc = 0" "wf_umsg msg"
  proof -
    have "read_unicast_wire (umsg_of_bytes b) msg = (0, msg')"
      using assms r that(1) by (auto simp: unicast_recv_def split: if_splits prod.splits)
    then show ?thesis using that(2)
      by (auto simp: read_unicast_wire_def Let_def wf_umsg_def overlay_def split: if_splits)
  qed
qed

section \<open>The join state machine keeps the node invariant\<close>

lemma node_invI: "data_inv st \<Longrightarrow> join_holds_token st \<Longrightarrow> token_joined st \<Longrightarrow> node_inv st"
  by (simp add: node_inv_def)

lemmas node_inv_parts = node_inv_def data_inv_def join_holds_token_def token_joined_def

lemma data_invD:
  assumes "data_inv st"
  shows "wf_config (rs_config st)" "join_inv (rs_join_state st)" "wf_inflight (rs_join_inflight st)"
    "wf_ack_sender (rs_ack_sender st)" "wf_token (rs_token_in st)" "wf_token (rs_cli_pending st)"
    "wf_name (pj_node_name (ji_joiner (rs_join_inflight st)))" "wf_name (ji_expected_prev_name (rs_join_inflight st))"
    "wf_name (my_name st)" "wf_name (node_name (cfg_prev (rs_config st)))" "wf_name (node_name (cfg_next (rs_config st)))"
  using assms by (auto simp: data_inv_def wf_inflight_def wf_config_def wf_route_def)

lemma wf_token_topo [simp]: "wf_token (t\<lparr>tk_topo_version := v\<rparr>) = wf_token t" "wf_token (clear_token t)"
  "wf_token (t\<lparr>tk_is_empty := e\<rparr>) = wf_token t"
  by (simp_all add: wf_token_def clear_token_def)

lemma request_tick_keeps [inv_intros]:
  assumes "join_fsm_request_tick st w = (rc, st', w')" and "node_inv st"
  shows "node_inv st' \<and> world_step w w' \<and> rc \<in> {0, -1}
    \<and> (\<exists>a b. st' = st\<lparr>rs_join_request_last_sent := a, rs_join_request_retries := b\<rparr>)"
proof -
  obtain now w1 where t: "time_now w = (now, w1)" by fastforce
  obtain r w2 where s: "broadcast_send_join_request (rs_join_request_id st)
      (node_name (cfg_current (rs_config st))) (unicast_port (cfg_current (rs_config st))) w1 = (r, w2)" by fastforce
  have id: "st = st\<lparr>rs_join_request_last_sent := rs_join_request_last_sent st,
      rs_join_request_retries := rs_join_request_retries st\<rparr>" by simp
  have w: "world_step w w1" "world_step w w2"
    using world_step_time [OF t] world_step_request [OF s] world_step_trans by blast+
  let ?st' = "st\<lparr>rs_join_request_last_sent := now, rs_join_request_retries := rs_join_request_retries st + 1\<rparr>"
  have "join_fsm_request_tick st w \<in> {(0, st, w), (0, st, w1), (-1, st, w1), (-1, st, w2)}
      \<or> rs_join_request_retries st < JOIN_REQUEST_RETRIES \<and> join_fsm_request_tick st w = (0, ?st', w2)"
    unfolding join_fsm_request_tick_def t s prod.case by simp
  then consider "st' = st" "w' = w \<or> w' = w1 \<or> w' = w2" "rc = 0 \<or> rc = -1"
    | "rs_join_request_retries st < JOIN_REQUEST_RETRIES" "rc = 0" "w' = w2" "st' = ?st'"
    unfolding assms(1) by blast
  then show ?thesis
  proof cases
    case 1
    have "\<exists>a b. st' = st\<lparr>rs_join_request_last_sent := a, rs_join_request_retries := b\<rparr>"
      unfolding 1(1) using id by blast
    with 1 w assms(2) show ?thesis by (elim disjE) simp_all
  next
    case 2
    have "node_inv ?st'" using assms(2) 2(1) by (auto simp: node_inv_parts)
    with 2 w(2) show ?thesis by blast
  qed
qed

lemma start_inflight_keeps [inv_intros]:
  assumes "node_inv st" and "rs_joined st" "rs_have_token st" and "wf_name (pj_node_name pj)"
  shows "node_inv (join_fsm_start_inflight st pj)"
  using assms by (simp add: node_inv_parts join_fsm_start_inflight_def wf_inflight_def Let_def wf_copy_name wf_name_length)

text \<open>What completing a join leaves alone.\<close>

definition same_role :: "ring_state \<Rightarrow> ring_state \<Rightarrow> bool" where
  "same_role st st' \<longleftrightarrow> rs_joined st' = rs_joined st \<and> rs_have_token st' = rs_have_token st
     \<and> cfg_current (rs_config st') = cfg_current (rs_config st)
     \<and> rs_ack_sender st' = rs_ack_sender st \<and> rs_cli_pending st' = rs_cli_pending st
     \<and> rs_have_cli_pending st' = rs_have_cli_pending st
     \<and> rs_token_in st' = (rs_token_in st)\<lparr>tk_topo_version := tk_topo_version (rs_token_in st')\<rparr>"

lemma same_role_refl [simp]: "same_role st st"
  by (simp add: same_role_def)

lemma join_inv_complete:
  "join_inv js \<Longrightarrow> join_inv (join_state_record_completed (snd (remove_pending_join js nm)) j)"
  by (metis join_inv_record join_inv_remove surjective_pairing)

definition join_ready :: "ring_state \<Rightarrow> bool" where
  "join_ready st \<longleftrightarrow> ji_active (rs_join_inflight st) \<and> ji_got_confirm_prev (rs_join_inflight st)
     \<and> ji_got_confirm_joiner (rs_join_inflight st)"

text \<open>The state after a completed join.\<close>

definition join_completed :: "ring_state \<Rightarrow> ring_state" where
  "join_completed st =
     (let fl = rs_join_inflight st; joiner = ji_joiner fl;
          st1 = set_prev (pj_node_name joiner) (pj_unicast_port joiner) st;
          st2 = (if same_name (ji_expected_prev_name fl) (my_name st)
                 then set_next (pj_node_name joiner) (pj_unicast_port joiner) st1 else st1);
          topo = rs_last_seen_topo_version st + 1
      in st2\<lparr>rs_last_seen_topo_version := topo,
             rs_token_in := (rs_token_in st)\<lparr>tk_topo_version := topo\<rparr>,
             rs_join_state := join_state_record_completed
               (snd (remove_pending_join (rs_join_state st) (pj_node_name joiner))) joiner,
             rs_join_inflight := fl\<lparr>ji_active := False, ji_got_confirm_prev := False,
               ji_got_confirm_joiner := False, ji_retries := 0\<rparr>\<rparr>)"

lemma try_complete_eq:
  "join_fsm_try_complete st w =
     (if join_ready st
      then (join_completed st, snd (broadcast_send_join_commit (ji_request_id (rs_join_inflight st))
              (pj_node_name (ji_joiner (rs_join_inflight st))) (rs_last_seen_topo_version st + 1) w))
      else (st, w))"
  by (simp add: join_fsm_try_complete_def join_ready_def join_completed_def Let_def split: prod.split)

lemma join_completed_keeps [inv_intros]:
  assumes "node_inv st"
  shows "node_inv (join_completed st)" "same_role st (join_completed st)"
  using assms join_inv_complete [of "rs_join_state st"]
  by (auto simp: node_inv_parts join_completed_def Let_def same_role_def wf_inflight_def)

lemma try_complete_keeps [inv_intros]:
  assumes "join_fsm_try_complete st w = (st', w')" and "node_inv st"
  shows "node_inv st'" "world_step w w'" "same_role st st'"
proof -
  obtain rc w1 where b: "broadcast_send_join_commit (ji_request_id (rs_join_inflight st))
      (pj_node_name (ji_joiner (rs_join_inflight st))) (rs_last_seen_topo_version st + 1) w = (rc, w1)" by fastforce
  have "(st', w') = (join_completed st, w1) \<or> (st', w') = (st, w)"
    using assms(1) unfolding try_complete_eq b by (auto split: if_splits)
  then show "node_inv st'" "world_step w w'" "same_role st st'"
    using join_completed_keeps [OF assms(2)] assms(2) world_step_commit [OF b] by auto
qed

lemma maybe_complete_keeps [inv_intros]:
  assumes "join_fsm_maybe_complete st w = (st', w')" and "node_inv st"
  shows "node_inv st'" "world_step w w'" "same_role st st'"
  using try_complete_keeps [of st w st' w'] assms by (simp_all add: join_fsm_maybe_complete_def)

text \<open>The tick of the coordinator always returns 0.\<close>

lemma inflight_tick_keeps [inv_intros]:
  assumes "node_inv st"
  shows "\<exists>st' w'. join_fsm_inflight_tick st w = Some (0, st', w') \<and> node_inv st' \<and> world_step w w' \<and> same_role st st'"
proof -
  let ?fl = "rs_join_inflight st"
  obtain sc wc where mc: "join_fsm_maybe_complete st w = (sc, wc)" by fastforce
  obtain now w1 where t: "time_now w = (now, w1)" by fastforce
  define fl1 where "fl1 = (if ji_retries ?fl \<ge> JOIN_ACCEPT_RETRIES
      then ?fl\<lparr>ji_retries := 0, ji_last_sent := 0\<rparr> else ?fl)"
  define st1 where "st1 = set_inflight fl1 st"
  define acc where "acc = build_join_accept_host st1"
  obtain r2 w2 where s2: "unicast_send_limited (accept_msg st1) (mk_route (ja_new_name acc) (ja_new_unicast_port acc))
      JOIN_ACCEPT_ACK_TIMEOUT_USEC JOIN_ACCEPT_ACK_MAX_ATTEMPTS w1 = Some (r2, w2)"
    using unicast_send_returns by fastforce
  define w2' where "w2' = (if \<not> ji_got_confirm_joiner fl1 then w2 else w1)"
  obtain r3 w3 where s3: "unicast_send_limited (accept_msg st1) (cfg_prev (rs_config st1))
      JOIN_ACCEPT_ACK_TIMEOUT_USEC JOIN_ACCEPT_ACK_MAX_ATTEMPTS w2' = Some (r3, w3)"
    using unicast_send_returns by fastforce
  define w3' where "w3' = (if \<not> ji_got_confirm_prev fl1 then w3 else w2')"
  let ?st' = "set_inflight (fl1\<lparr>ji_last_sent := now, ji_retries := ji_retries fl1 + 1\<rparr>) st1"
  have st': "node_inv ?st'" "same_role st ?st'"
    using assms by (auto simp: st1_def fl1_def node_inv_parts wf_inflight_def same_role_def)
  have w1: "world_step w w1" by (rule world_step_time [OF t])
  have "world_step w1 w2'" using world_step_unicast [OF s2] by (simp add: w2'_def)
  also have "world_step w2' w3'" using world_step_unicast [OF s3] by (simp add: w3'_def)
  finally have w3: "world_step w w3'" using w1 world_step_trans by blast
  have e2: "(if \<not> ji_got_confirm_joiner fl1
      then map_option snd (unicast_send_limited (accept_msg st1) (mk_route (ja_new_name acc) (ja_new_unicast_port acc))
          JOIN_ACCEPT_ACK_TIMEOUT_USEC JOIN_ACCEPT_ACK_MAX_ATTEMPTS w1) else Some w1) = Some w2'"
    by (simp add: s2 w2'_def)
  have e3: "(if \<not> ji_got_confirm_prev fl1
      then map_option snd (unicast_send_limited (accept_msg st1) (cfg_prev (rs_config st1))
          JOIN_ACCEPT_ACK_TIMEOUT_USEC JOIN_ACCEPT_ACK_MAX_ATTEMPTS w2') else Some w2') = Some w3'"
    by (simp add: s3 w3'_def)
  have "join_fsm_inflight_tick st w \<in> {Some (0, st, w), Some (0, sc, wc), Some (0, st, w1), Some (0, ?st', w3')}"
    unfolding join_fsm_inflight_tick_def Let_def mc t prod.case fl1_def [symmetric] st1_def [symmetric]
      acc_def [symmetric] e2 e3 Option.bind.bind_lunit by simp
  then show ?thesis using assms st' w1 w3 maybe_complete_keeps [OF mc assms] by auto
qed

section \<open>The dispatcher keeps the node invariant\<close>

lemma drop_all_keeps: "join_inv js \<Longrightarrow> join_inv (snd (drop_oldest_pending_joins js n))"
  by (metis join_inv_drop surjective_pairing)

lemma handle_token_keeps [inv_intros]:
  assumes "node_inv st" and "wf_umsg msg"
  shows "node_inv (handle_token_unicast st msg)"
proof -
  have "wf_token (token_of_bytes (um_payload msg))" using assms(2) by (intro wf_of_bytes) (simp add: wf_umsg_def)
  with assms(1) show ?thesis
    by (auto simp: node_inv_parts handle_token_unicast_def update_topology_on_token_def
        clear_pending_joins_on_token_def Let_def split: prod.splits
        dest!: join_inv_drop [rotated])
qed

lemma apply_accept_cases:
  obtains "apply_accept_if_relevant st a = (False, st)"
  | "apply_accept_if_relevant st a = (True, (set_next (ja_before_name a) (ja_before_unicast_port a)
         (set_prev (ja_prev_name a) (ja_prev_unicast_port a) st))
       \<lparr>rs_joined := True, rs_join_request_last_sent := 0, rs_join_request_retries := 0\<rparr>)"
    "same_name (my_name st) (ja_new_name a)" "\<not> rs_joined st" "request_id (ja_header a) = rs_join_request_id st"
  | "apply_accept_if_relevant st a = (True, (set_next (ja_new_name a) (ja_new_unicast_port a) st)\<lparr>rs_joined := True\<rparr>)"
    "\<not> same_name (my_name st) (ja_new_name a)" "same_name (my_name st) (ja_prev_name a)"
    "same_name (node_name (cfg_next (rs_config st))) (ja_before_name a)"
proof -
  consider "\<not> rs_joined st \<and> request_id (ja_header a) = rs_join_request_id st" "same_name (my_name st) (ja_new_name a)"
    | "rs_joined st \<or> request_id (ja_header a) \<noteq> rs_join_request_id st" "same_name (my_name st) (ja_new_name a)"
    | "\<not> same_name (my_name st) (ja_new_name a)" by blast
  then show ?thesis
  proof cases
    case 1
    then show ?thesis by (intro that(2)) (simp_all add: apply_accept_if_relevant_def Let_def)
  next
    case 2
    then show ?thesis by (intro that(1)) (auto simp: apply_accept_if_relevant_def Let_def)
  next
    case 3
    show ?thesis
    proof (cases "same_name (my_name st) (ja_prev_name a)
        \<and> same_name (node_name (cfg_next (rs_config st))) (ja_before_name a)")
      case True
      with 3 show ?thesis by (intro that(3)) (simp_all add: apply_accept_if_relevant_def Let_def)
    next
      case False
      with 3 show ?thesis by (intro that(1)) (auto simp: apply_accept_if_relevant_def Let_def)
    qed
  qed
qed

lemma apply_accept_keeps [inv_intros]:
  assumes "apply_accept_if_relevant st a = (b, st')" and "node_inv st"
  shows "node_inv st'"
  using apply_accept_cases [of st a]
proof cases
  case 2
  with assms show ?thesis by (auto simp: node_inv_parts)
next
  case 3
  with assms show ?thesis by (auto simp: node_inv_parts)
qed (use assms in simp)

lemma accept_token: "apply_accept_if_relevant st a = (b, st') \<Longrightarrow> rs_have_token st' = rs_have_token st"
  using apply_accept_cases [of st a] by cases auto

lemma handle_accept_token:
  assumes "node_inv st"
  shows "\<exists>st' w'. handle_join_accept_u st msg w = Some (0, st', w') \<and> node_inv st' \<and> world_step w w'
    \<and> rs_have_token st' = rs_have_token st"
proof -
  define accept where "accept = accept_to_host (accept_of_bytes (um_payload msg))"
  define req where "req = request_id (ja_header accept)"
  define st1 where "st1 = st\<lparr>rs_join_state :=
                 join_state_mark_completed_and_prune_pending (rs_join_state st) (ja_new_name accept) req\<rparr>"
  obtain b st2 where a: "apply_accept_if_relevant st1 accept = (b, st2)" by fastforce
  define snd1 where "snd1 = (rs_ack_sender st2)\<lparr>as_active := True, as_request_id := req,
                    as_coord_name := copy_name (as_coord_name (rs_ack_sender st2)) (ja_before_name accept),
                    as_coord_unicast_port := ja_before_unicast_port accept,
                    as_last_sent := 0, as_retries := 0, as_got_ack_ack := False\<rparr>"
  define st3 where "st3 = st2\<lparr>rs_ack_sender := snd1\<rparr>"
  obtain rc w1 where s: "unicast_send_limited (ack_msg st3 req)
                    (mk_route (ja_before_name accept) (ja_before_unicast_port accept))
                    JOIN_ACCEPT_ACK_TIMEOUT_USEC JOIN_ACCEPT_ACK_MAX_ATTEMPTS w = Some (rc, w1)"
    using unicast_send_returns by fastforce
  obtain now w2 where t: "time_now w1 = (now, w2)" by fastforce
  let ?st4 = "st3\<lparr>rs_ack_sender := snd1\<lparr>as_last_sent := now, as_retries := 1\<rparr>\<rparr>"
  have n1: "node_inv st1" using assms by (simp add: node_inv_parts st1_def join_inv_mark)
  then have n2: "node_inv st2" by (rule apply_accept_keeps [OF a])
  then have "wf_name (as_coord_name snd1)"
    by (simp add: snd1_def node_inv_parts wf_ack_sender_def wf_copy_name wf_name_length)
  with n2 have n3: "node_inv st3" "node_inv ?st4"
    by (simp_all add: node_inv_parts st3_def wf_ack_sender_def) (simp_all add: snd1_def)
  have w: "world_step w w1" "world_step w w2"
    using world_step_unicast [OF s] world_step_time [OF t] world_step_trans by blast+
  have "handle_join_accept_u st msg w \<in>
      {Some (0, st, w), Some (0, st2, w), Some (0, ?st4, w2), Some (0, st3, w1)}"
    unfolding handle_join_accept_u_def Let_def accept_def [symmetric] req_def [symmetric] st1_def [symmetric]
      a prod.case snd1_def [symmetric] st3_def [symmetric] s Option.bind.bind_lunit t by simp
  moreover have "rs_have_token st2 = rs_have_token st" using accept_token [OF a] by (simp add: st1_def)
  ultimately show ?thesis using assms n2 n3 w by (auto simp: st3_def)
qed

lemma handle_accept_keeps [inv_intros]:
  "node_inv st \<Longrightarrow> \<exists>st' w'. handle_join_accept_u st msg w = Some (0, st', w') \<and> node_inv st' \<and> world_step w w'"
  using handle_accept_token by blast

lemma record_ack_keeps: "node_inv st \<Longrightarrow> node_inv (set_inflight (record_ack st nm) st)"
  by (simp add: node_inv_parts record_ack_def wf_inflight_def Let_def)

lemma handle_ack_keeps [inv_intros]:
  assumes "node_inv st"
  shows "\<exists>st' w'. handle_join_ack_u st msg w = Some (0, st', w') \<and> node_inv st' \<and> world_step w w'"
proof -
  define req where "req = ntohl (au_request_id (ack_u_of_bytes (um_payload msg)))"
  define nm where "nm = (au_from_name (ack_u_of_bytes (um_payload msg)))[MAX_NODE_NAME_SIZE - 1 := 0]"
  define out where "out = mk_umsg UMSG_JOIN_ACK_ACK_U (bytes_of_ack_ack_u
                      \<lparr>aau_request_id = htonl req, aau_to_name = copy_name zero_name nm\<rparr>)"
  obtain st1 w1 where m: "(if ji_active (rs_join_inflight st) \<and> ji_request_id (rs_join_inflight st) = req
                 then join_fsm_maybe_complete (set_inflight (record_ack st nm) st) w
                 else (st, w)) = (st1, w1)" by (metis surj_pair)
  have n: "node_inv st1" "world_step w w1"
    using m maybe_complete_keeps [of "set_inflight (record_ack st nm) st" w st1 w1] record_ack_keeps [OF assms] assms
    by (auto split: if_splits)
  have snd: "send_repeated JOIN_ACK_ACK_SEND_COUNT out r w1 = Some (the (send_repeated JOIN_ACK_ACK_SEND_COUNT out r w1))
      \<and> world_step w (the (send_repeated JOIN_ACK_ACK_SEND_COUNT out r w1))" for r
    using send_repeated_returns [of JOIN_ACK_ACK_SEND_COUNT out r w1] n(2) world_step_trans by fastforce
  obtain w2 w3 where
    s2: "send_repeated JOIN_ACK_ACK_SEND_COUNT out (mk_route nm (pj_unicast_port (ji_joiner (rs_join_inflight st1)))) w1 = Some w2"
    and s3: "send_repeated JOIN_ACK_ACK_SEND_COUNT out (mk_route nm (unicast_port (cfg_prev (rs_config st1)))) w1 = Some w3"
    and w: "world_step w w2" "world_step w w3" using snd by blast
  have "handle_join_ack_u st msg w \<in> {Some (0, st, w), Some (0, st1, w1), Some (0, st1, w2), Some (0, st1, w3)}"
    unfolding handle_join_ack_u_def Let_def req_def [symmetric] nm_def [symmetric] m prod.case
      out_def [symmetric] s2 s3 Option.bind.bind_lunit by simp
  with assms n w show ?thesis by auto
qed

lemma handle_ack_ack_keeps [inv_intros]: "node_inv st \<Longrightarrow> node_inv (handle_join_ack_ack_u st msg)"
  by (auto simp: handle_join_ack_ack_u_def Let_def node_inv_parts wf_ack_sender_def)

lemma dispatch_keeps [inv_intros]:
  assumes "node_inv st" and "wf_umsg msg"
  shows "\<exists>st' w'. unicast_dispatch_message st msg w = Some (0, st', w') \<and> node_inv st' \<and> world_step w w'"
  using assms handle_token_keeps [OF assms] handle_accept_keeps [OF assms(1)] handle_ack_keeps [OF assms(1)]
    handle_ack_ack_keeps [OF assms(1)]
  by (simp add: unicast_dispatch_message_def)

section \<open>Broadcasts keep the node invariant\<close>

lemma commit_parts_keep [inv_intros]:
  assumes "node_inv st"
  shows "node_inv (commit_topology v st)" "node_inv (commit_inflight r st)" "node_inv (commit_ack_sender r st)"
proof -
  show "node_inv (commit_topology v st)"
    using assms by (auto simp: node_inv_parts commit_topology_def Let_def split: prod.splits
        dest!: join_inv_drop [rotated])
  show "node_inv (commit_inflight r st)"
    using assms join_inv_complete [of "rs_join_state st"]
    by (auto simp: node_inv_parts commit_inflight_def Let_def wf_inflight_def)
  show "node_inv (commit_ack_sender r st)"
    using assms by (auto simp: node_inv_parts commit_ack_sender_def Let_def wf_ack_sender_def)
qed

lemma join_commit_keeps [inv_intros]: "node_inv st \<Longrightarrow> node_inv (broadcast_join_commit b st)"
  by (auto simp: broadcast_join_commit_def Let_def intro!: commit_parts_keep)
    (simp add: node_inv_parts join_inv_mark)

lemma join_request_keeps [inv_intros]:
  assumes "broadcast_join_request src b r st w = (rc, st', w')" and "node_inv st"
  shows "rc = 0 \<and> node_inv st' \<and> world_step w w'
    \<and> (\<exists>js. st' = st\<lparr>rs_join_state := js\<rparr> \<and> js_completed js = js_completed (rs_join_state st))"
proof -
  obtain now w1 where t: "time_now w = (now, w1)" by fastforce
  define host where "host = request_to_host
      ((request_of_bytes b)\<lparr>jr_node_name := (jr_node_name (request_of_bytes b))[MAX_NODE_NAME_SIZE - 1 := 0]\<rparr>) r"
  obtain rc2 js where a: "add_pending_join (rs_join_state st) host (sin_addr src) now = (rc2, js)" by fastforce
  have js: "join_inv js" using assms(2) join_inv_add [OF _ a] by (simp add: node_inv_parts)
  have hist: "js_completed js = js_completed (rs_join_state st)"
    using a by (auto simp: add_pending_join_def Let_def split: if_splits option.splits)
  have "broadcast_join_request src b r st w \<in> {(0, st, w), (0, st\<lparr>rs_join_state := js\<rparr>, w1)}"
    unfolding broadcast_join_request_def Let_def host_def [symmetric] t prod.case a by simp
  then consider "rc = 0" "st' = st" "w' = w" | "rc = 0" "st' = st\<lparr>rs_join_state := js\<rparr>" "w' = w1"
    unfolding assms(1) by blast
  then show ?thesis
  proof cases
    case 1
    show ?thesis unfolding 1(2,3) using 1(1) assms(2) by (simp add: exI [of _ "rs_join_state st"])
  next
    case 2
    have "node_inv (st\<lparr>rs_join_state := js\<rparr>)" using assms(2) js by (simp add: node_inv_parts)
    with 2 hist world_step_time [OF t] show ?thesis by blast
  qed
qed

lemma handle_broadcast_keeps [inv_intros]:
  assumes "handle_broadcast got st w = (rc, st', w')" and "node_inv st"
  shows "node_inv st'" "world_step w w'" "rc = (if got = None then -1 else 0)"
proof -
  have "node_inv st' \<and> world_step w w' \<and> rc = (if got = None then -1 else 0)"
    using assms by (auto simp: handle_broadcast_def Let_def split: option.splits if_splits prod.splits
        dest: join_request_keeps intro: join_commit_keeps)
  then show "node_inv st'" "world_step w w'" "rc = (if got = None then -1 else 0)" by blast+
qed

section \<open>The event loop keeps the node invariant\<close>

lemma unicast_loop_returns [inv_intros]:
  "node_inv st \<Longrightarrow> \<exists>rc st' w'. unicast_loop st w = Some (rc, st', w') \<and> rc \<in> {0, -1} \<and> node_inv st' \<and> world_step w w'"
proof (induction "work w" arbitrary: st w rule: less_induct)
  case less
  obtain rc msg w1 where r: "unicast_recv zero_umsg w = (rc, msg, w1)" by (metis prod_cases3)
  note r' = unicast_recv_step [OF r]
  show ?case
  proof (cases "rc = 0")
    case False
    with r r' less.prems show ?thesis by (subst unicast_loop.simps) auto
  next
    case True
    then have "wf_umsg msg" using r'(3) by simp
    from dispatch_keeps [OF less.prems this, of w1] obtain st1 w2
      where d: "unicast_dispatch_message st msg w1 = Some (0, st1, w2)" "node_inv st1" "world_step w1 w2" by blast
    obtain st2 w3 where c: "join_fsm_maybe_complete st1 w2 = (st2, w3)" by fastforce
    note c' = maybe_complete_keeps [OF c d(2)]
    have w3: "world_step w w3" using r'(1) d(3) c'(2) by (blast intro: world_step_trans)
    have eq: "unicast_loop st w = (if rudp_has_pending w3 then unicast_loop st2 w3 else Some (0, st2, w3))"
      using True by (subst unicast_loop.simps) (simp add: r d c)
    have "work w3 < work w" using r'(2) True d(3) c'(2) by (simp add: world_step_def)
    from less.hyps [OF this c'(1)] obtain rc' st' w' where
      "unicast_loop st2 w3 = Some (rc', st', w')" "rc' \<in> {0, -1}" "node_inv st'" "world_step w3 w'" by blast
    with eq w3 c' show ?thesis by (auto intro: world_step_trans)
  qed
qed

lemma handle_unicast_keeps [inv_intros]:
  assumes "node_inv st"
  shows "\<exists>rc st' w'. handle_unicast_if_ready inp st w = Some (rc, st', w') \<and> rc \<in> {0, -1}
    \<and> node_inv st' \<and> world_step w w'"
  using assms unicast_loop_returns [OF assms, of w] by (auto simp: handle_unicast_if_ready_def)

lemma ack_sender_tick_keeps [inv_intros]:
  assumes "node_inv st"
  shows "\<exists>st' w'. join_ack_sender_tick st w = Some (0, st', w') \<and> node_inv st' \<and> world_step w w'"
proof -
  let ?a = "rs_ack_sender st"
  obtain now w1 where t: "time_now w = (now, w1)" by fastforce
  obtain rc w2 where s: "unicast_send_limited (ack_msg st (as_request_id ?a))
             (mk_route (as_coord_name ?a) (as_coord_unicast_port ?a))
             JOIN_ACCEPT_ACK_TIMEOUT_USEC JOIN_ACCEPT_ACK_MAX_ATTEMPTS w1 = Some (rc, w2)"
    using unicast_send_returns by fastforce
  let ?off = "st\<lparr>rs_ack_sender := ?a\<lparr>as_active := False\<rparr>\<rparr>"
  let ?st' = "st\<lparr>rs_ack_sender := ?a\<lparr>as_last_sent := now, as_retries := as_retries ?a + 1\<rparr>\<rparr>"
  have off: "node_inv ?off" using assms by (simp add: node_inv_parts wf_ack_sender_def)
  have w: "world_step w w1" "world_step w w2"
    using world_step_time [OF t] world_step_unicast [OF s] world_step_trans by blast+
  show ?thesis
  proof (cases "as_retries ?a < JOIN_ACK_MAX_RETRIES")
    case True
    have "node_inv ?st'" using assms True by (simp add: node_inv_parts wf_ack_sender_def)
    moreover have "join_ack_sender_tick st w \<in> {Some (0, st, w), Some (0, ?off, w), Some (0, st, w1), Some (0, ?st', w2)}"
      using True unfolding join_ack_sender_tick_def Let_def t prod.case s Option.bind.bind_lunit by simp
    ultimately show ?thesis using assms off w by auto
  next
    case False
    then have "join_ack_sender_tick st w \<in> {Some (0, st, w), Some (0, ?off, w), Some (0, st, w1), Some (0, ?off, w1)}"
      unfolding join_ack_sender_tick_def Let_def t prod.case s Option.bind.bind_lunit by simp
    then show ?thesis using assms off w by auto
  qed
qed

section \<open>The token\<close>

lemma token_out_keeps:
  assumes "token_out st = (out, st1)" and "node_inv st"
  shows "node_inv st1" "wf_token out" "rs_join_inflight st1 = rs_join_inflight st"
  using assms by (auto simp: token_out_def Let_def node_inv_parts split: if_splits)

lemma on_token_keeps [inv_intros]:
  assumes "ring_on_token st w = Some (rc, st', w')" and "node_inv st" and "\<not> ji_active (rs_join_inflight st)"
  shows "rc = 0" "node_inv st'" "world_step w w'"
proof -
  obtain out st1 where o: "token_out st = (out, st1)" by fastforce
  obtain r w1 where s: "unicast_send_limited (token_msg out) (cfg_next (rs_config st1))
      TOKEN_ACK_TIMEOUT_USEC TOKEN_ACK_MAX_ATTEMPTS w = Some (r, w1)"
    using assms(1) o by (auto simp: ring_on_token_def bind_eq_Some_conv)
  have "(rc, st', w') \<in> {(0, st1, w1), (0, st1\<lparr>rs_have_token := False, rs_token_in := zero_token\<rparr>, w1)}"
    using assms(1) unfolding ring_on_token_def o prod.case s Option.bind.bind_lunit by (auto split: if_splits)
  moreover have "node_inv (st1\<lparr>rs_have_token := False, rs_token_in := zero_token\<rparr>)"
    using token_out_keeps [OF o assms(2)] assms(3) by (simp add: node_inv_parts)
  ultimately show "rc = 0" "node_inv st'" "world_step w w'"
    using token_out_keeps(1) [OF o assms(2)] world_step_unicast [OF s] by auto
qed

lemma wf_popped:
  assumes "join_inv js" and "pop_oldest_pending_join js = (Some pj, js')"
  shows "wf_name (pj_node_name pj)" "join_inv js'"
  using jq.pop_least(1,3) [OF assms] join_invD(3) [OF assms(1)] by (auto simp: waiting_def)

lemma handle_token_ready_keeps [inv_intros]:
  assumes "handle_token_if_ready st w = Some (rc, st', w')" and "node_inv st"
  shows "rc = 0" "node_inv st'" "world_step w w'"
proof -
  have inv: "join_inv (rs_join_state st)" using assms(2) by (simp add: node_inv_parts)
  obtain p js where pop: "pop_oldest_pending_join (rs_join_state st) = (p, js)" by fastforce
  have njs: "node_inv (st\<lparr>rs_join_state := js\<rparr>)"
    using assms(2) join_inv_pop [OF inv pop] by (simp add: node_inv_parts)
  have "rc = 0 \<and> node_inv st' \<and> world_step w w'"
  proof (cases "rs_joined st \<and> rs_have_token st \<and> \<not> ji_active (rs_join_inflight st)")
    case False
    with assms show ?thesis by (auto simp: handle_token_if_ready_def split: if_splits)
  next
    case True
    show ?thesis
    proof (cases "js_count (rs_join_state st) > 0")
      case False
      then obtain r st1 w1 where "ring_on_token st w = Some (r, st1, w1)"
        "(rc, st', w') = (if r < 0 then (-1, st1, w1) else (0, st1, w1))"
        using assms(1) True by (auto simp: handle_token_if_ready_def bind_eq_Some_conv split: if_splits)
      with on_token_keeps [OF this(1) assms(2)] True show ?thesis by simp
    next
      case cnt: True
      show ?thesis
      proof (cases p)
        case None
        with assms(1) True cnt pop njs show ?thesis by (simp add: handle_token_if_ready_def)
      next
        case (Some pj)
        have "node_inv (join_fsm_start_inflight (st\<lparr>rs_join_state := js\<rparr>) pj)"
          using njs True wf_popped(1) [OF inv] pop Some by (intro start_inflight_keeps) auto
        from inflight_tick_keeps [OF this, of w] assms(1) True cnt pop Some show ?thesis
          by (auto simp: handle_token_if_ready_def)
      qed
    qed
  qed
  then show "rc = 0" "node_inv st'" "world_step w w'" by auto
qed

section \<open>One pass\<close>

definition result_inv :: "world \<Rightarrow> iter_result \<Rightarrow> bool" where
  "result_inv w r \<longleftrightarrow> (case r of Continue st t w' \<Rightarrow> node_inv st \<and> world_step w w'
     | Return rc st w' \<Rightarrow> node_inv st \<and> world_step w w')"

lemma select_timeout_world [steps]: "set_select_timeout st t w = (t', w') \<Longrightarrow> world_step w w'"
  by (auto simp: set_select_timeout_def Let_def split: if_splits prod.splits dest: world_step_time)

lemma cli_ready_keeps [inv_intros]:
  assumes "handle_cli_if_ready inp st = (rc, st')" and "node_inv st"
  shows "node_inv st'"
  using assms by (auto simp: handle_cli_if_ready_def node_inv_parts split: if_splits prod.splits
      dest: cli_handle_read_wf)

lemma broadcast_ready_keeps [inv_intros]:
  assumes "handle_broadcast_if_ready inp st w = (rc, st', w')" and "node_inv st"
  shows "node_inv st'" "world_step w w'"
  using assms handle_broadcast_keeps [of "in_dgram inp" st w]
  by (auto simp: handle_broadcast_if_ready_def split: if_splits prod.splits)

lemma ring_iter_keeps:
  assumes "ring_iter inp st t w = Some r" and "node_inv st"
  shows "result_inv w r"
proof -
  from ack_sender_tick_keeps [OF assms(2), of w] obtain st1 w1 where
    1: "join_ack_sender_tick st w = Some (0, st1, w1)" "node_inv st1" "world_step w w1" by blast
  obtain now w2 where 2: "time_now w1 = (now, w2)" by fastforce
  let ?st2 = "st1\<lparr>rs_join_state := prune_joins (rs_join_state st1) now JOIN_PENDING_TTL_S\<rparr>"
  have n2: "node_inv ?st2" using 1(2) by (simp add: node_inv_parts join_inv_prune)
  obtain t1 w3 where 3: "set_select_timeout ?st2 t w2 = (t1, w3)" by fastforce
  obtain rc3 st3 w4 where 4: "join_fsm_request_tick ?st2 w3 = (rc3, st3, w4)" by (metis prod_cases3)
  note n3 = request_tick_keeps [OF 4 n2]
  have s4: "world_step w w4"
    using 1(3) world_step_time [OF 2] select_timeout_world [OF 3] n3 by (blast intro: world_step_trans)
  from n3 inflight_tick_keeps [of st3 w4] obtain st4 w5 where
    5: "join_fsm_inflight_tick st3 w4 = Some (0, st4, w5)" "node_inv st4" "world_step w4 w5" by blast
  have s5: "world_step w w5" using s4 5(3) by (rule world_step_trans)
  from handle_unicast_keeps [OF 5(2), of inp w5] obtain rc5 st5 w6 where
    6: "handle_unicast_if_ready inp st4 w5 = Some (rc5, st5, w6)" "node_inv st5" "world_step w5 w6" by blast
  have s6: "world_step w w6" using s5 6(3) by (rule world_step_trans)
  obtain st6 w7 where 7: "join_fsm_maybe_complete st5 w6 = (st6, w7)" by fastforce
  note n6 = maybe_complete_keeps [OF 7 6(2)]
  have s7: "world_step w w7" using s6 n6(2) by (rule world_step_trans)
  obtain rc7 st7 w8 where 8: "handle_broadcast_if_ready inp st6 w7 = (rc7, st7, w8)" by (metis prod_cases3)
  note n7 = broadcast_ready_keeps [OF 8 n6(1)]
  have s8: "world_step w w8" using s7 n7(2) by (rule world_step_trans)
  obtain rc8 st8 where 9: "handle_cli_if_ready inp st7 = (rc8, st8)" by fastforce
  note n8 = cli_ready_keeps [OF 9 n7(1)]
  note pass = assms(1) [unfolded ring_iter_def 1(1) Option.bind.bind_lunit prod.case 2 Let_def 3 4 5(1) 6(1) 7 8 9]
  show ?thesis
  proof (cases "\<exists>rc9 st9 w9. handle_token_if_ready st8 w8 = Some (rc9, st9, w9)")
    case True
    then obtain rc9 st9 w9 where 10: "handle_token_if_ready st8 w8 = Some (rc9, st9, w9)" by blast
    note n9 = handle_token_ready_keeps [OF 10 n8]
    have s9: "world_step w w9" using s8 n9(3) by (rule world_step_trans)
    from pass [unfolded 10 Option.bind.bind_lunit prod.case] show ?thesis
      using n3 s4 5(2) s5 6(2) s6 n7(1) s8 n8 n9(2) s9
      by (auto simp: result_inv_def split: if_splits)
  next
    case False
    then have "handle_token_if_ready st8 w8 = None" by (cases "handle_token_if_ready st8 w8") auto
    from pass [unfolded this Option.bind.bind_lzero] show ?thesis
      using n3 s4 5(2) s5 6(2) s6 n7(1) s8 n8
      by (auto simp: result_inv_def split: if_splits)
  qed
qed

text \<open>A pass returns whenever its token transmission does: nothing else in it waits without a limit.\<close>

lemma ring_iter_returns:
  assumes "node_inv st" and "\<And>st' w'. node_inv st' \<Longrightarrow> world_step w w' \<Longrightarrow> handle_token_if_ready st' w' \<noteq> None"
  shows "\<exists>r. ring_iter inp st t w = Some r"
proof -
  from ack_sender_tick_keeps [OF assms(1), of w] obtain st1 w1 where
    1: "join_ack_sender_tick st w = Some (0, st1, w1)" "node_inv st1" "world_step w w1" by blast
  obtain now w2 where 2: "time_now w1 = (now, w2)" by fastforce
  let ?st2 = "st1\<lparr>rs_join_state := prune_joins (rs_join_state st1) now JOIN_PENDING_TTL_S\<rparr>"
  have n2: "node_inv ?st2" using 1(2) by (simp add: node_inv_parts join_inv_prune)
  obtain t1 w3 where 3: "set_select_timeout ?st2 t w2 = (t1, w3)" by fastforce
  obtain rc3 st3 w4 where 4: "join_fsm_request_tick ?st2 w3 = (rc3, st3, w4)" by (metis prod_cases3)
  note n3 = request_tick_keeps [OF 4 n2]
  have s4: "world_step w w4"
    using 1(3) world_step_time [OF 2] select_timeout_world [OF 3] n3 by (blast intro: world_step_trans)
  from n3 inflight_tick_keeps [of st3 w4] obtain st4 w5 where
    5: "join_fsm_inflight_tick st3 w4 = Some (0, st4, w5)" "node_inv st4" "world_step w4 w5" by blast
  from handle_unicast_keeps [OF 5(2), of inp w5] obtain rc5 st5 w6 where
    6: "handle_unicast_if_ready inp st4 w5 = Some (rc5, st5, w6)" "node_inv st5" "world_step w5 w6" by blast
  obtain st6 w7 where 7: "join_fsm_maybe_complete st5 w6 = (st6, w7)" by fastforce
  note n6 = maybe_complete_keeps [OF 7 6(2)]
  obtain rc7 st7 w8 where 8: "handle_broadcast_if_ready inp st6 w7 = (rc7, st7, w8)" by (metis prod_cases3)
  note n7 = broadcast_ready_keeps [OF 8 n6(1)]
  have s8: "world_step w w8" using s4 5(3) 6(3) n6(2) n7(2) by (blast intro: world_step_trans)
  obtain rc8 st8 where 9: "handle_cli_if_ready inp st7 = (rc8, st8)" by fastforce
  obtain rc9 st9 w9 where 10: "handle_token_if_ready st8 w8 = Some (rc9, st9, w9)"
    using assms(2) [OF cli_ready_keeps [OF 9 n7(1)] s8] by (cases "handle_token_if_ready st8 w8") auto
  show ?thesis
    unfolding ring_iter_def 1(1) Option.bind.bind_lunit prod.case 2 Let_def 3 4 5(1) 6(1) 7 8 9 10 by simp
qed

section \<open>The start of the loop\<close>

lemma initial_keeps:
  assumes "wf_config config"
    and "init_join_request_if_needed fresh_id ((init_ring_state config joined)\<lparr>rs_broadcast_socket := s\<rparr>) w = (rc, st1, w1)"
  shows "node_inv (maybe_send_initial_token start st1) \<and> node_inv st1 \<and> world_step w w1"
proof -
  let ?st = "(init_ring_state config joined)\<lparr>rs_broadcast_socket := s\<rparr>"
  let ?asked = "?st\<lparr>rs_join_request_id := fresh_id, rs_join_request_last_sent := 0, rs_join_request_retries := 0\<rparr>"
  have n: "node_inv ?st" "node_inv ?asked" using data_inv_init [OF assms(1), of joined] by (auto simp: node_inv_parts)
  obtain r2 st2 w2 where t: "join_fsm_request_tick ?asked w = (r2, st2, w2)" by (metis prod_cases3)
  have "(st1, w1) = (?st, w) \<or> (st1, w1) = (st2, w2)"
    using assms(2) unfolding init_join_request_if_needed_def t by (auto split: if_splits)
  with n request_tick_keeps [OF t n(2)] have "node_inv st1" "world_step w w1" by auto
  then show ?thesis by (auto simp: maybe_send_initial_token_def node_inv_parts)
qed

end
