(* ===== verification/Join_Protocol.thy ===== *)
theory Join_Protocol
  imports Node_Props Sample_World
begin

text \<open>
  The join protocol across nodes (\<open>join_fsm.c\<close> and \<open>unicast_dispatch.c\<close>): how the messages of the coordinator are
  read by the joiner and by the predecessor, what the confirmations do at the coordinator, and the theorem that a
  join splices the new node into the ring.
\<close>

lemma copy_zero [simp]: "copy_name zero_name nm = pad_name (c_str nm)"
  by (simp add: copy_name_canon)

lemma accept_host_wire:
  "accept_to_host (accept_to_wire (build_join_accept_host st)) = build_join_accept_host st"
  by (simp add: accept_to_host_def accept_to_wire_def build_join_accept_host_def zero_accept_def)

lemma wf_accept_wire: "wf_accept (accept_to_wire a)"
  by (simp add: accept_to_wire_def wf_accept_def zero_accept_def)

lemma accept_received:
  "accept_of_bytes (um_payload (accept_msg st)) = accept_to_wire (build_join_accept_host st)"
  "unat (um_payload_len (accept_msg st)) = sizeof_join_accept"
  unfolding accept_msg_def
  using accept_fmt.umsg_payload [OF wf_accept_wire] accept_fmt.umsg_payload_len [OF wf_accept_wire] by simp_all

text \<open>The fields of an accept message, as its receiver reads them.\<close>

lemma accept_fields:
  "request_id (ja_header (build_join_accept_host st)) = ji_request_id (rs_join_inflight st)"
  "ja_new_name (build_join_accept_host st) = pad_name (c_str (pj_node_name (ji_joiner (rs_join_inflight st))))"
  "ja_new_unicast_port (build_join_accept_host st) = pj_unicast_port (ji_joiner (rs_join_inflight st))"
  "ja_before_name (build_join_accept_host st) = pad_name (c_str (my_name st))"
  "ja_before_unicast_port (build_join_accept_host st) = unicast_port (cfg_current (rs_config st))"
  "ja_prev_name (build_join_accept_host st) = pad_name (c_str (node_name (cfg_prev (rs_config st))))"
  "ja_prev_unicast_port (build_join_accept_host st) = unicast_port (cfg_prev (rs_config st))"
  by (simp_all add: build_join_accept_host_def zero_accept_def)

text \<open>What receiving the accept message of \<open>c\<close> does to the receiver, whatever becomes of its answer.\<close>

lemma handle_accept_effect:
  assumes "handle_join_accept_u st (accept_msg c) w = Some (rc, st', w')" and "node_inv st"
  defines "a \<equiv> build_join_accept_host c"
  defines "st1 \<equiv> st\<lparr>rs_join_state := join_state_mark_completed_and_prune_pending (rs_join_state st)
      (ja_new_name a) (request_id (ja_header a))\<rparr>"
  shows "if fst (apply_accept_if_relevant st1 a)
    then \<exists>s. st' = (snd (apply_accept_if_relevant st1 a))\<lparr>rs_ack_sender := s\<rparr>
       \<and> as_active s \<and> as_request_id s = request_id (ja_header a)
       \<and> as_coord_name s = ja_before_name a \<and> as_coord_unicast_port s = ja_before_unicast_port a
       \<and> \<not> as_got_ack_ack s
    else st' = snd (apply_accept_if_relevant st1 a) \<and> w' = w"
proof -
  obtain b st2 where ap: "apply_accept_if_relevant st1 a = (b, st2)" by fastforce
  define snd1 where "snd1 = (rs_ack_sender st2)\<lparr>as_active := True, as_request_id := request_id (ja_header a),
                    as_coord_name := copy_name (as_coord_name (rs_ack_sender st2)) (ja_before_name a),
                    as_coord_unicast_port := ja_before_unicast_port a,
                    as_last_sent := 0, as_retries := 0, as_got_ack_ack := False\<rparr>"
  define st3 where "st3 = st2\<lparr>rs_ack_sender := snd1\<rparr>"
  obtain r w1 where s: "unicast_send_limited (ack_msg st3 (request_id (ja_header a)))
                    (mk_route (ja_before_name a) (ja_before_unicast_port a))
                    JOIN_ACCEPT_ACK_TIMEOUT_USEC JOIN_ACCEPT_ACK_MAX_ATTEMPTS w = Some (r, w1)"
    using unicast_send_returns by fastforce
  obtain now w2 where t: "time_now w1 = (now, w2)" by fastforce
  have "node_inv st1" using assms(2) by (simp add: node_inv_parts st1_def join_inv_mark)
  from apply_accept_keeps [OF ap this] have "length (as_coord_name (rs_ack_sender st2)) = 32"
    by (simp add: node_inv_parts wf_ack_sender_def wf_name_length)
  then have name: "as_coord_name snd1 = ja_before_name a"
    by (simp add: snd1_def copy_name_canon a_def build_join_accept_host_def zero_accept_def)
  have hdr: "ntohl (magic (ja_header (accept_to_wire a))) = JOIN_MAGIC"
    "ntohs (msg_type (ja_header (accept_to_wire a))) = JOIN_ACCEPT"
    by (simp_all add: accept_to_wire_def zero_accept_def)
  have wire: "accept_of_bytes (um_payload (accept_msg c)) = accept_to_wire a"
    "accept_to_host (accept_to_wire a) = a" by (simp_all add: a_def accept_received accept_host_wire)
  have "handle_join_accept_u st (accept_msg c) w = (if \<not> b then Some (0, st2, w)
      else if r = 0 then Some (0, st3\<lparr>rs_ack_sender := snd1\<lparr>as_last_sent := now, as_retries := 1\<rparr>\<rparr>, w2)
      else Some (0, st3, w1))"
    using hdr unfolding handle_join_accept_u_def Let_def accept_received(2) wire st1_def [symmetric] ap prod.case
      snd1_def [symmetric] st3_def [symmetric] s Option.bind.bind_lunit t by simp
  with assms(1) ap name show ?thesis
    by (auto simp: st3_def snd1_def split: if_splits)
qed

text \<open>
  The routes on both sides of a join. \<open>st1\<close> is the state with the node of the message recorded as completed, which
  touches the join state only.
\<close>

lemma accept_at_joiner:
  assumes "handle_join_accept_u st (accept_msg c) w = Some (rc, st', w')" and "node_inv st"
    and "same_name (my_name st) (ja_new_name (build_join_accept_host c))" "\<not> rs_joined st"
    and "rs_join_request_id st = ji_request_id (rs_join_inflight c)"
  shows "rs_joined st' \<and> node_name (cfg_prev (rs_config st')) = pad_name (c_str (node_name (cfg_prev (rs_config c))))
    \<and> unicast_port (cfg_prev (rs_config st')) = unicast_port (cfg_prev (rs_config c))
    \<and> node_name (cfg_next (rs_config st')) = pad_name (c_str (my_name c))
    \<and> unicast_port (cfg_next (rs_config st')) = unicast_port (cfg_current (rs_config c))
    \<and> cfg_current (rs_config st') = cfg_current (rs_config st)
    \<and> rs_have_token st' = rs_have_token st
    \<and> as_active (rs_ack_sender st') \<and> as_request_id (rs_ack_sender st') = ji_request_id (rs_join_inflight c)"
proof -
  have len: "length (node_name (cfg_prev (rs_config st))) = 32" "length (node_name (cfg_next (rs_config st))) = 32"
    using assms(2) by (auto simp: node_inv_def wf_name_length dest: data_invD)
  from handle_accept_effect [OF assms(1,2)] assms(3-5) show ?thesis
    by (auto simp: apply_accept_if_relevant_def Let_def accept_fields set_route_sel len)
qed

lemma accept_at_prev:
  assumes "handle_join_accept_u st (accept_msg c) w = Some (rc, st', w')" and "node_inv st"
    and "\<not> same_name (my_name st) (ja_new_name (build_join_accept_host c))"
    and "same_name (my_name st) (ja_prev_name (build_join_accept_host c))"
    and "same_name (node_name (cfg_next (rs_config st))) (my_name c)" "wf_name (my_name c)"
  shows "rs_joined st' \<and> node_name (cfg_next (rs_config st')) = pad_name (c_str (pj_node_name (ji_joiner (rs_join_inflight c))))
    \<and> unicast_port (cfg_next (rs_config st')) = pj_unicast_port (ji_joiner (rs_join_inflight c))
    \<and> cfg_prev (rs_config st') = cfg_prev (rs_config st)
    \<and> cfg_current (rs_config st') = cfg_current (rs_config st)
    \<and> rs_have_token st' = rs_have_token st
    \<and> as_active (rs_ack_sender st') \<and> as_request_id (rs_ack_sender st') = ji_request_id (rs_join_inflight c)"
proof -
  have len: "length (node_name (cfg_next (rs_config st))) = 32"
    using assms(2) by (auto simp: node_inv_def wf_name_length dest: data_invD)
  from assms(5) have "same_name (node_name (cfg_next (rs_config st))) (ja_before_name (build_join_accept_host c))"
    using assms(6) by (simp add: accept_fields)
  with handle_accept_effect [OF assms(1,2)] assms(3,4) show ?thesis
    by (auto simp: apply_accept_if_relevant_def Let_def accept_fields set_route_sel len)
qed

text \<open>What an acknowledgement for the join in flight does to the coordinator.\<close>

lemma ack_received:
  "ack_u_of_bytes (um_payload (ack_msg s r)) = \<lparr>au_request_id = htonl r, au_from_name = pad_name (c_str (my_name s))\<rparr>"
  "unat (um_payload_len (ack_msg s r)) = sizeof_join_ack_u"
  unfolding ack_msg_def
  using ack_u_fmt.umsg_payload [of "\<lparr>au_request_id = htonl r, au_from_name = pad_name (c_str (my_name s))\<rparr>"]
    ack_u_fmt.umsg_payload_len [of "\<lparr>au_request_id = htonl r, au_from_name = pad_name (c_str (my_name s))\<rparr>"]
  by simp_all

lemma pad_name_terminated [simp]: "(pad_name s)[31 := 0] = pad_name s"
proof -
  have "wf_name (pad_name s)" by simp
  then have "pad_name s ! 31 = 0" by (simp add: wf_name_def)
  then show ?thesis by (metis list_update_id)
qed

lemma handle_ack_effect:
  assumes "handle_join_ack_u c (ack_msg s r) w = Some (rc, c', w')"
    and "ji_active (rs_join_inflight c)" "ji_request_id (rs_join_inflight c) = r"
  defines "c1 \<equiv> set_inflight (record_ack c (pad_name (c_str (my_name s)))) c"
  shows "c' = (if join_ready c1 then join_completed c1 else c1)"
proof -
  obtain c2 w2 where m: "join_fsm_maybe_complete c1 w = (c2, w2)" by fastforce
  have c2: "c2 = (if join_ready c1 then join_completed c1 else c1)"
    using m by (simp add: join_fsm_maybe_complete_def try_complete_eq split: if_splits)
  have "c' = c2"
    using assms(1) unfolding handle_join_ack_u_def ack_received
    by (auto simp: assms(2,3) c1_def [symmetric] m Let_def bind_eq_Some_conv split: if_splits)
  with c2 show ?thesis by simp
qed

lemma started:
  assumes "node_inv c" "wf_name (pj_node_name pj)"
  defines "c1 \<equiv> join_fsm_start_inflight c pj"
  shows "ji_active (rs_join_inflight c1)" "ji_request_id (rs_join_inflight c1) = pj_request_id pj"
    "ji_joiner (rs_join_inflight c1) = pj"
    "ji_expected_prev_name (rs_join_inflight c1) = pad_name (c_str (node_name (cfg_prev (rs_config c))))"
    "ji_got_confirm_prev (rs_join_inflight c1) = same_name (node_name (cfg_prev (rs_config c))) (my_name c)"
    "\<not> ji_got_confirm_joiner (rs_join_inflight c1)" "rs_config c1 = rs_config c"
    "rs_join_state c1 = rs_join_state c" "rs_last_seen_topo_version c1 = rs_last_seen_topo_version c"
    "rs_have_token c1 = rs_have_token c"
proof -
  have "length (ji_expected_prev_name (rs_join_inflight c)) = 32" "wf_name (node_name (cfg_prev (rs_config c)))"
    using assms(1) by (auto simp: node_inv_def wf_name_length dest: data_invD)
  then show "ji_active (rs_join_inflight c1)" "ji_request_id (rs_join_inflight c1) = pj_request_id pj"
    "ji_joiner (rs_join_inflight c1) = pj"
    "ji_expected_prev_name (rs_join_inflight c1) = pad_name (c_str (node_name (cfg_prev (rs_config c))))"
    "ji_got_confirm_prev (rs_join_inflight c1) = same_name (node_name (cfg_prev (rs_config c))) (my_name c)"
    "\<not> ji_got_confirm_joiner (rs_join_inflight c1)" "rs_config c1 = rs_config c"
    "rs_join_state c1 = rs_join_state c" "rs_last_seen_topo_version c1 = rs_last_seen_topo_version c"
    "rs_have_token c1 = rs_have_token c"
    by (simp_all add: c1_def join_fsm_start_inflight_def Let_def copy_name_canon)
qed

text \<open>The two confirmations, in either order, complete the join.\<close>

lemma both_acks:
  assumes c: "node_inv c" "wf_name (pj_node_name pj)" and names: "wf_name (my_name x)" "wf_name (my_name y)"
    and id: "c1 = join_fsm_start_inflight c pj" "r = pj_request_id pj"
    and a1: "handle_join_ack_u c1 (ack_msg x r) w1 = Some (rc1, c2, w2)"
    and a2: "handle_join_ack_u c2 (ack_msg y r) w3 = Some (rc2, c3, w4)"
    and far: "\<not> same_name (node_name (cfg_prev (rs_config c))) (my_name c)"
      "\<not> same_name (node_name (cfg_prev (rs_config c))) (pj_node_name pj)"
    and who: "same_name (my_name x) (pj_node_name pj) \<and> same_name (my_name y) (node_name (cfg_prev (rs_config c)))
      \<or> same_name (my_name y) (pj_node_name pj) \<and> same_name (my_name x) (node_name (cfg_prev (rs_config c)))"
  shows "\<exists>d. c3 = join_completed d \<and> rs_join_inflight d = (rs_join_inflight c1)\<lparr>ji_got_confirm_prev := True,
      ji_got_confirm_joiner := True\<rparr> \<and> d = set_inflight (rs_join_inflight d) c1"
proof -
  have wp: "wf_name (node_name (cfg_prev (rs_config c)))" using c(1) by (auto simp: node_inv_def dest: data_invD)
  note st = started [OF c, folded id(1)]
  note sn = same_name_wf [OF names(1) c(2)] same_name_wf [OF names(1) wp] same_name_wf [OF names(2) c(2)]
    same_name_wf [OF names(2) wp] same_name_wf [OF wp c(2)]
  define d1 where "d1 = set_inflight (record_ack c1 (pad_name (c_str (my_name x)))) c1"
  have fl1: "rs_join_inflight d1 = (if same_name (my_name x) (pj_node_name pj)
      then (rs_join_inflight c1)\<lparr>ji_got_confirm_joiner := True\<rparr> else (rs_join_inflight c1)\<lparr>ji_got_confirm_prev := True\<rparr>)"
    using who far(2) names wp c(2) by (auto simp: d1_def record_ack_def Let_def st sn)
  then have "\<not> join_ready d1" using far(1) by (simp add: join_ready_def st)
  then have c2: "c2 = d1" using handle_ack_effect [OF a1] st id(2) by (simp add: d1_def)
  define d2 where "d2 = set_inflight (record_ack d1 (pad_name (c_str (my_name y)))) d1"
  have cfg: "rs_config d1 = rs_config c" by (simp add: d1_def st)
  have fl2: "rs_join_inflight d2 = (rs_join_inflight c1)\<lparr>ji_got_confirm_prev := True, ji_got_confirm_joiner := True\<rparr>"
    using who far(2) names wp c(2) fl1 by (auto simp: d2_def record_ack_def Let_def st sn cfg)
  then have "join_ready d2" by (simp add: join_ready_def st)
  moreover have "ji_active (rs_join_inflight c2)" "ji_request_id (rs_join_inflight c2) = r"
    using fl1 st id(2) by (simp_all add: c2)
  ultimately have "c3 = join_completed d2" using handle_ack_effect [OF a2] by (simp add: d2_def c2)
  moreover have "d2 = set_inflight (rs_join_inflight d2) c1" by (simp add: d2_def d1_def)
  ultimately show ?thesis using fl2 by blast
qed

text \<open>A node points at another: its name and port.\<close>

definition points_to :: "route \<Rightarrow> bytes \<Rightarrow> u16 \<Rightarrow> bool" where
  "points_to r nm port \<longleftrightarrow> same_name (node_name r) nm \<and> unicast_port r = port"

lemma completed_routes:
  assumes "node_inv d" and "\<not> same_name (ji_expected_prev_name (rs_join_inflight d)) (my_name d)"
  shows "points_to (cfg_prev (rs_config (join_completed d))) (pj_node_name (ji_joiner (rs_join_inflight d)))
      (pj_unicast_port (ji_joiner (rs_join_inflight d)))"
    "cfg_next (rs_config (join_completed d)) = cfg_next (rs_config d)"
    "cfg_current (rs_config (join_completed d)) = cfg_current (rs_config d)"
    "rs_last_seen_topo_version (join_completed d) = rs_last_seen_topo_version d + 1"
    "tk_topo_version (rs_token_in (join_completed d)) = rs_last_seen_topo_version d + 1"
    "\<not> ji_active (rs_join_inflight (join_completed d))"
proof -
  have l: "length (node_name (cfg_prev (rs_config d))) = 32"
    "wf_name (pj_node_name (ji_joiner (rs_join_inflight d)))"
    using assms(1) by (auto simp: node_inv_def wf_name_length dest: data_invD)
  show "points_to (cfg_prev (rs_config (join_completed d))) (pj_node_name (ji_joiner (rs_join_inflight d)))
      (pj_unicast_port (ji_joiner (rs_join_inflight d)))"
    using l assms(2) by (simp add: join_completed_def Let_def points_to_def set_route_sel)
  show "cfg_next (rs_config (join_completed d)) = cfg_next (rs_config d)"
    "cfg_current (rs_config (join_completed d)) = cfg_current (rs_config d)"
    "rs_last_seen_topo_version (join_completed d) = rs_last_seen_topo_version d + 1"
    "tk_topo_version (rs_token_in (join_completed d)) = rs_last_seen_topo_version d + 1"
    "\<not> ji_active (rs_join_inflight (join_completed d))"
    using assms(2) by (simp_all add: join_completed_def Let_def)
qed

lemma completed_known:
  assumes "node_inv d"
  shows "\<exists>e\<in>set (history (rs_join_state (join_completed d))).
    same_name (cj_node_name e) (pj_node_name (ji_joiner (rs_join_inflight d)))"
proof -
  let ?j = "ji_joiner (rs_join_inflight d)"
  have inv: "join_inv (snd (remove_pending_join (rs_join_state d) (pj_node_name ?j)))"
    using assms join_inv_remove [of "rs_join_state d"] by (auto simp: node_inv_parts intro: surjective_pairing)
  have "wf_name (pj_node_name ?j)" using assms by (auto simp: node_inv_def dest: data_invD)
  from hist_record_mem [OF this] show ?thesis
    by (simp add: join_completed_def Let_def history_record [OF inv])
qed

text \<open>A tick of a join that is not ready changes the two timer fields at most.\<close>

lemma unicast_send_world: "0 < m \<Longrightarrow> \<exists>w'. map_option snd (unicast_send_limited msg r t m w) = Some w'"
  using unicast_send_returns [of m msg r t w] by fastforce

lemma inflight_tick_waiting:
  assumes "ji_active (rs_join_inflight st)" "\<not> join_ready st"
  shows "\<exists>t n w'. join_fsm_inflight_tick st w =
    Some (0, set_inflight ((rs_join_inflight st)\<lparr>ji_last_sent := t, ji_retries := n\<rparr>) st, w')"
proof -
  let ?fl = "rs_join_inflight st"
  obtain now w1 where t: "time_now w = (now, w1)" by fastforce
  define fl1 where "fl1 = (if ji_retries ?fl \<ge> JOIN_ACCEPT_RETRIES
      then ?fl\<lparr>ji_retries := 0, ji_last_sent := 0\<rparr> else ?fl)"
  define st1 where "st1 = set_inflight fl1 st"
  define acc where "acc = build_join_accept_host st1"
  let ?s2 = "if \<not> ji_got_confirm_joiner fl1
      then map_option snd (unicast_send_limited (accept_msg st1) (mk_route (ja_new_name acc) (ja_new_unicast_port acc))
          JOIN_ACCEPT_ACK_TIMEOUT_USEC JOIN_ACCEPT_ACK_MAX_ATTEMPTS w1) else Some w1"
  have "\<exists>w2. ?s2 = Some w2" by (cases "ji_got_confirm_joiner fl1") (auto intro: unicast_send_world [simplified])
  then obtain w2 where e2: "?s2 = Some w2" by blast
  let ?s3 = "if \<not> ji_got_confirm_prev fl1
      then map_option snd (unicast_send_limited (accept_msg st1) (cfg_prev (rs_config st1))
          JOIN_ACCEPT_ACK_TIMEOUT_USEC JOIN_ACCEPT_ACK_MAX_ATTEMPTS w2) else Some w2"
  have "\<exists>w3. ?s3 = Some w3" by (cases "ji_got_confirm_prev fl1") (auto intro: unicast_send_world [simplified])
  then obtain w3 where e3: "?s3 = Some w3" by blast
  have nr: "(ji_got_confirm_prev ?fl \<and> ji_got_confirm_joiner ?fl) = False" "(\<not> ji_active ?fl) = False"
    using assms by (auto simp: join_ready_def)
  have st1: "set_inflight (fl1\<lparr>ji_last_sent := now, ji_retries := ji_retries fl1 + 1\<rparr>) st1
      = set_inflight (?fl\<lparr>ji_last_sent := now, ji_retries := ji_retries fl1 + 1\<rparr>) st"
    by (simp add: st1_def fl1_def)
  have "st = set_inflight (?fl\<lparr>ji_last_sent := ji_last_sent ?fl, ji_retries := ji_retries ?fl\<rparr>) st" by simp
  moreover have "join_fsm_inflight_tick st w \<in> {Some (0, st, w1),
      Some (0, set_inflight (?fl\<lparr>ji_last_sent := now, ji_retries := ji_retries fl1 + 1\<rparr>) st, w3)}"
    unfolding join_fsm_inflight_tick_def Let_def nr if_False t prod.case fl1_def [symmetric] st1_def [symmetric]
      acc_def [symmetric] e2 e3 Option.bind.bind_lunit st1 by simp
  ultimately show ?thesis by (metis insertE singletonD)
qed

section \<open>A concrete ring\<close>

text \<open>Nodes with one-letter names, and an entry of the join table for the node \<open>J\<close>.\<close>

definition sample_route :: "byte \<Rightarrow> route" where
  "sample_route n = \<lparr>node_name = pad_name [n], unicast_port = 5000, broadcast_port = 6000\<rparr>"

definition sample_node :: "byte \<Rightarrow> byte \<Rightarrow> byte \<Rightarrow> bool \<Rightarrow> ring_state" where
  "sample_node me prv nxt joined = init_ring_state
     \<lparr>cfg_current = sample_route me, cfg_prev = sample_route prv, cfg_next = sample_route nxt\<rparr> joined"

definition sample_joiner :: pending_join where
  "sample_joiner = zero_pending\<lparr>pj_used := True, pj_node_name := pad_name [74], pj_unicast_port := 5000\<rparr>"

lemma sample_sel [simp]:
  "node_name (sample_route n) = pad_name [n]" "unicast_port (sample_route n) = 5000"
  "rs_config (sample_node a b d x) = \<lparr>cfg_current = sample_route a, cfg_prev = sample_route b, cfg_next = sample_route d\<rparr>"
  "rs_joined (sample_node a b d x) = x" "rs_have_token (sample_node a b d x) = False"
  "rs_join_request_id (sample_node a b d x) = 0" "rs_join_inflight (sample_node a b d x) = zero_inflight"
  "rs_join_state (sample_node a b d x) = zero_join_state" "rs_last_seen_topo_version (sample_node a b d x) = 0"
  "pj_node_name sample_joiner = pad_name [74]" "pj_request_id sample_joiner = 0" "pj_unicast_port sample_joiner = 5000"
  by (simp_all add: sample_route_def sample_node_def init_ring_state_def sample_joiner_def zero_pending_def)

lemma sample_inv: "node_inv (sample_node a b d x)" "node_inv ((sample_node a b d True)\<lparr>rs_have_token := True\<rparr>)"
proof -
  have "wf_config \<lparr>cfg_current = sample_route a, cfg_prev = sample_route b, cfg_next = sample_route d\<rparr>"
    by (simp add: wf_config_def wf_route_def)
  from data_inv_init [OF this] show 1: "node_inv (sample_node a b d x)" for x by (simp add: sample_node_def)
  show "node_inv ((sample_node a b d True)\<lparr>rs_have_token := True\<rparr>)"
    using 1 [of True] by (simp add: node_inv_parts zero_inflight_def)
qed

text \<open>The coordinator \<open>A\<close> of the ring \<open>A\<close>, \<open>B\<close> with a join of \<open>J\<close> in flight.\<close>

definition sample_coord :: ring_state where
  "sample_coord = join_fsm_start_inflight ((sample_node 65 66 66 True)\<lparr>rs_have_token := True\<rparr>) sample_joiner"

lemma sample_names [simp]: "a \<noteq> 0 \<Longrightarrow> b \<noteq> 0 \<Longrightarrow> same_name (pad_name [a]) (pad_name [b]) \<longleftrightarrow> a = b"
  by (simp add: same_name_iff c_str_pad_name)

lemma sample_coord_facts:
  "node_inv sample_coord" "rs_config sample_coord = \<lparr>cfg_current = sample_route 65, cfg_prev = sample_route 66, cfg_next = sample_route 66\<rparr>"
  "ji_active (rs_join_inflight sample_coord)" "\<not> join_ready sample_coord"
  "ji_joiner (rs_join_inflight sample_coord) = sample_joiner" "ji_request_id (rs_join_inflight sample_coord) = 0"
proof -
  let ?c = "(sample_node 65 66 66 True)\<lparr>rs_have_token := True\<rparr>"
  have j: "wf_name (pj_node_name sample_joiner)" by simp
  note st = started [OF sample_inv(2) j, of 65 66 66, folded sample_coord_def]
  show "node_inv sample_coord" unfolding sample_coord_def
    by (rule start_inflight_keeps [OF sample_inv(2)]) simp_all
  show "rs_config sample_coord = \<lparr>cfg_current = sample_route 65, cfg_prev = sample_route 66, cfg_next = sample_route 66\<rparr>"
    "ji_active (rs_join_inflight sample_coord)" "\<not> join_ready sample_coord"
    "ji_joiner (rs_join_inflight sample_coord) = sample_joiner" "ji_request_id (rs_join_inflight sample_coord) = 0"
    by (simp_all add: st join_ready_def)
qed

section \<open>Properties\<close>

text \<open>
  C4: A join splices the new node into the ring between the coordinator and its predecessor. The
  coordinator \<open>c\<close> starts a join of \<open>pj\<close>; the joiner \<open>j\<close> and the predecessor \<open>p\<close> receive its
  JOIN_ACCEPT, and the coordinator receives the two confirmations, in either order. Then \<open>p\<close>
  points to the joiner, the joiner back to \<open>p\<close> and on to \<open>c\<close>, and \<open>c\<close> back to the joiner (by name and port), the
  rest of the ring is as before, the joiner is part of the ring, the join is finished and recorded, the topology version has
  grown by one at the coordinator and in the token it holds, and no node has lost or gained the token.
\<close>
theorem join_splices_the_ring:
  assumes "node_inv c" "node_inv j" "node_inv p" "wf_name (pj_node_name pj)"
    and "rs_joined c" "rs_have_token c" "c1 = join_fsm_start_inflight c pj"
    and "same_name (my_name j) (pj_node_name pj)" "\<not> rs_joined j" "rs_join_request_id j = pj_request_id pj"
    and "same_name (my_name p) (node_name (cfg_prev (rs_config c)))"
      "same_name (node_name (cfg_next (rs_config p))) (my_name c)"
    and "\<not> same_name (my_name p) (my_name c)" "\<not> same_name (my_name p) (my_name j)"
    and "handle_join_accept_u j (accept_msg c1) wj = Some (rj, j', wj')"
    and "handle_join_accept_u p (accept_msg c1) wp = Some (rp, p', wp')"
    and "x = j' \<and> y = p' \<or> x = p' \<and> y = j'"
    and "handle_join_ack_u c1 (ack_msg x (as_request_id (rs_ack_sender x))) w1 = Some (rc1, c2, w2)"
    and "handle_join_ack_u c2 (ack_msg y (as_request_id (rs_ack_sender y))) w3 = Some (rc2, c3, w4)"
  shows "points_to (cfg_next (rs_config p')) (pj_node_name pj) (pj_unicast_port pj)
    \<and> points_to (cfg_prev (rs_config j')) (my_name p) (unicast_port (cfg_prev (rs_config c)))
    \<and> points_to (cfg_next (rs_config j')) (my_name c) (unicast_port (cfg_current (rs_config c)))
    \<and> points_to (cfg_prev (rs_config c3)) (my_name j) (pj_unicast_port pj)
    \<and> cfg_next (rs_config c3) = cfg_next (rs_config c) \<and> cfg_prev (rs_config p') = cfg_prev (rs_config p)
    \<and> rs_joined j' \<and> \<not> ji_active (rs_join_inflight c3)
    \<and> rs_last_seen_topo_version c3 = rs_last_seen_topo_version c + 1
    \<and> tk_topo_version (rs_token_in c3) = rs_last_seen_topo_version c + 1
    \<and> (\<exists>e\<in>set (history (rs_join_state c3)). same_name (cj_node_name e) (pj_node_name pj))
    \<and> (rs_have_token c3, rs_have_token p', rs_have_token j') = (rs_have_token c, rs_have_token p, rs_have_token j)"
proof -
  note st = started [OF assms(1,4), folded assms(7)]
  have wf: "wf_name (my_name c)" "wf_name (my_name j)" "wf_name (my_name p)"
    "wf_name (node_name (cfg_prev (rs_config c)))" "wf_name (node_name (cfg_next (rs_config p)))"
    using assms(1-3) by (auto simp: node_inv_def dest: data_invD)
  note eq = same_name_wf [OF wf(2) assms(4)] same_name_wf [OF wf(3,4)] same_name_wf [OF wf(5,1)]
    same_name_wf [OF wf(3,1)] same_name_wf [OF wf(3,2)] same_name_wf [OF wf(4,1)] same_name_wf [OF wf(4) assms(4)]
    same_name_wf [OF wf(3) assms(4)] same_name_wf [OF wf(2,4)]
  have far: "\<not> same_name (node_name (cfg_prev (rs_config c))) (my_name c)"
    "\<not> same_name (node_name (cfg_prev (rs_config c))) (pj_node_name pj)" "\<not> same_name (my_name p) (pj_node_name pj)"
    using assms(8,11,13,14) eq by auto
  have j': "rs_joined j'" "points_to (cfg_prev (rs_config j')) (my_name p) (unicast_port (cfg_prev (rs_config c)))"
    "points_to (cfg_next (rs_config j')) (my_name c) (unicast_port (cfg_current (rs_config c)))"
    "cfg_current (rs_config j') = cfg_current (rs_config j)" "rs_have_token j' = rs_have_token j"
    "as_request_id (rs_ack_sender j') = pj_request_id pj"
    using accept_at_joiner [OF assms(15,2)] assms(4,8-11) wf
    by (auto simp: accept_fields st points_to_def same_name_sym)
  have p': "points_to (cfg_next (rs_config p')) (pj_node_name pj) (pj_unicast_port pj)"
    "cfg_prev (rs_config p') = cfg_prev (rs_config p)" "cfg_current (rs_config p') = cfg_current (rs_config p)"
    "rs_have_token p' = rs_have_token p" "as_request_id (rs_ack_sender p') = pj_request_id pj"
    using accept_at_prev [OF assms(16,3)] assms(4,11,12) far(3) wf
    by (auto simp: accept_fields st points_to_def)
  have ids: "as_request_id (rs_ack_sender x) = pj_request_id pj" "as_request_id (rs_ack_sender y) = pj_request_id pj"
    and nx: "wf_name (my_name x)" "wf_name (my_name y)" using assms(17) j' p' wf by auto
  have who: "same_name (my_name x) (pj_node_name pj) \<and> same_name (my_name y) (node_name (cfg_prev (rs_config c)))
      \<or> same_name (my_name y) (pj_node_name pj) \<and> same_name (my_name x) (node_name (cfg_prev (rs_config c)))"
    using assms(8,11,17) j'(4) p'(3) by auto
  from both_acks [OF assms(1,4) nx assms(7) refl assms(18) [unfolded ids(1)] assms(19) [unfolded ids(2)] far(1,2) who]
  obtain d where d: "c3 = join_completed d" "d = set_inflight (rs_join_inflight d) c1"
    "rs_join_inflight d = (rs_join_inflight c1)\<lparr>ji_got_confirm_prev := True, ji_got_confirm_joiner := True\<rparr>" by blast
  have "node_inv c1" using start_inflight_keeps [OF assms(1,5,6,4)] assms(7) by simp
  then have nd: "node_inv d" by (subst d(2)) (simp add: node_inv_parts wf_inflight_def d(3))
  have fld: "ji_joiner (rs_join_inflight d) = pj" "rs_config d = rs_config c"
    "rs_last_seen_topo_version d = rs_last_seen_topo_version c" "rs_have_token d = rs_have_token c"
    "\<not> same_name (ji_expected_prev_name (rs_join_inflight d)) (my_name d)"
    using far(1) wf(4) by (simp_all add: d(3) st) (subst d(2), simp add: st)+
  have c3: "points_to (cfg_prev (rs_config c3)) (my_name j) (pj_unicast_port pj)"
    using completed_routes(1) [OF nd fld(5)] assms(8) fld(1)
    by (auto simp: points_to_def d(1) intro: same_name_trans same_name_sym)
  have tok: "rs_have_token c3 = rs_have_token c"
    using join_completed_keeps(2) [OF nd] fld(4) by (simp add: d(1) same_role_def)
  show ?thesis
    using p' j' c3 tok completed_routes(2-6) [OF nd fld(5)] completed_known [OF nd] fld by (simp add: d(1))
qed


theorem join_splices_the_ring_witness:
  "\<exists>c1 j' p' c2 c3 w1 w2 w3 w4. c1 = join_fsm_start_inflight ((sample_node 65 66 66 True)\<lparr>rs_have_token := True\<rparr>) sample_joiner
    \<and> handle_join_accept_u (sample_node 74 0 0 False) (accept_msg c1) (fresh_world []) = Some (0, j', w1)
    \<and> handle_join_accept_u (sample_node 66 65 65 True) (accept_msg c1) (fresh_world []) = Some (0, p', w2)
    \<and> handle_join_ack_u c1 (ack_msg p' 0) (fresh_world []) = Some (0, c2, w3)
    \<and> handle_join_ack_u c2 (ack_msg j' 0) w3 = Some (0, c3, w4)
    \<and> points_to (cfg_next (rs_config p')) (pad_name [74]) 5000 \<and> points_to (cfg_prev (rs_config j')) (pad_name [66]) 5000
    \<and> points_to (cfg_next (rs_config j')) (pad_name [65]) 5000 \<and> points_to (cfg_prev (rs_config c3)) (pad_name [74]) 5000"
proof -
  let ?w = "fresh_world []"
  define c where "c = (sample_node 65 66 66 True)\<lparr>rs_have_token := True\<rparr>"
  define c1 where "c1 = join_fsm_start_inflight c sample_joiner"
  have inv: "node_inv c" "wf_name (pj_node_name sample_joiner)" by (simp_all add: c_def sample_inv)
  have sel: "rs_config c = \<lparr>cfg_current = sample_route 65, cfg_prev = sample_route 66, cfg_next = sample_route 66\<rparr>"
    "rs_joined c" "rs_have_token c" by (simp_all add: c_def)
  note st = started [OF inv, folded c1_def]
  have n1: "node_inv c1" using start_inflight_keeps [OF inv(1) sel(2,3) inv(2)] by (simp add: c1_def)
  obtain j' w1 where j: "handle_join_accept_u (sample_node 74 0 0 False) (accept_msg c1) ?w = Some (0, j', w1)"
    using handle_accept_keeps [OF sample_inv(1)] by blast
  obtain p' w2 where p: "handle_join_accept_u (sample_node 66 65 65 True) (accept_msg c1) ?w = Some (0, p', w2)"
    using handle_accept_keeps [OF sample_inv(1)] by blast
  have ids: "as_request_id (rs_ack_sender j') = 0" "as_request_id (rs_ack_sender p') = 0"
    using accept_at_joiner [OF j sample_inv(1)] accept_at_prev [OF p sample_inv(1)]
    by (simp_all add: accept_fields st sel c_str_pad_name)
  obtain c2 w3 where a1: "handle_join_ack_u c1 (ack_msg p' 0) ?w = Some (0, c2, w3)" "node_inv c2"
    using handle_ack_keeps [OF n1] by blast
  obtain c3 w4 where a2: "handle_join_ack_u c2 (ack_msg j' 0) w3 = Some (0, c3, w4)"
    using handle_ack_keeps [OF a1(2)] by blast
  from join_splices_the_ring [OF inv(1) sample_inv(1) sample_inv(1) inv(2) sel(2,3) c1_def _ _ _ _ _ _ _ j p
      disjI2 a1(1) [folded ids(2)] a2 [folded ids(1)]]
  have "points_to (cfg_next (rs_config p')) (pad_name [74]) 5000 \<and> points_to (cfg_prev (rs_config j')) (pad_name [66]) 5000
    \<and> points_to (cfg_next (rs_config j')) (pad_name [65]) 5000 \<and> points_to (cfg_prev (rs_config c3)) (pad_name [74]) 5000"
    by (simp add: sel)
  with j p a1(1) a2 show ?thesis unfolding c1_def c_def by blast
qed

text \<open>
  C25: In a ring of one node the joiner's confirmation is enough: the node is its own predecessor, so that
  confirmation counts as given when the join starts, and completing the join makes the joiner
  both its predecessor and its successor.
\<close>
theorem join_into_one_node_ring:
  assumes "node_inv c" "wf_name (pj_node_name pj)" "wf_name (my_name j)" "rs_joined c" "rs_have_token c"
    and "c1 = join_fsm_start_inflight c pj"
    and "same_name (node_name (cfg_prev (rs_config c))) (my_name c)" "same_name (my_name j) (pj_node_name pj)"
    and "handle_join_ack_u c1 (ack_msg j (pj_request_id pj)) w = Some (rc, c2, w')"
  shows "points_to (cfg_prev (rs_config c2)) (pj_node_name pj) (pj_unicast_port pj)
    \<and> points_to (cfg_next (rs_config c2)) (pj_node_name pj) (pj_unicast_port pj)
    \<and> \<not> ji_active (rs_join_inflight c2) \<and> rs_have_token c2"
proof -
  note st = started [OF assms(1,2), folded assms(6)]
  have wf: "wf_name (my_name c)" "wf_name (node_name (cfg_prev (rs_config c)))"
    "length (node_name (cfg_prev (rs_config c))) = 32" "length (node_name (cfg_next (rs_config c))) = 32"
    using assms(1) by (auto simp: node_inv_def wf_name_length dest: data_invD)
  define d where "d = set_inflight (record_ack c1 (pad_name (c_str (my_name j)))) c1"
  have fl: "rs_join_inflight d = (rs_join_inflight c1)\<lparr>ji_got_confirm_prev := True, ji_got_confirm_joiner := True\<rparr>"
    using assms(2,3,7,8) wf st(5) by (simp add: d_def record_ack_def Let_def st)
  have "join_ready d" by (simp add: join_ready_def fl st)
  then have c2: "c2 = join_completed d" using handle_ack_effect [OF assms(9)] st by (simp add: d_def)
  have self: "same_name (ji_expected_prev_name (rs_join_inflight d)) (my_name d)"
    using assms(7) wf by (simp add: fl st) (simp add: d_def st)
  have "rs_config d = rs_config c" "ji_joiner (rs_join_inflight d) = pj" "rs_have_token d"
    using assms(5) by (simp_all add: d_def st fl) (simp add: record_ack_def Let_def st)
  with self wf assms(2) show ?thesis
    by (simp add: c2 join_completed_def Let_def points_to_def set_route_sel)
qed

theorem join_into_one_node_ring_witness:
  "\<exists>c2 w'. handle_join_ack_u (join_fsm_start_inflight ((sample_node 65 65 65 True)\<lparr>rs_have_token := True\<rparr>) sample_joiner)
      (ack_msg (sample_node 74 0 0 False) 0) (fresh_world []) = Some (0, c2, w')
    \<and> points_to (cfg_prev (rs_config c2)) (pad_name [74]) 5000 \<and> points_to (cfg_next (rs_config c2)) (pad_name [74]) 5000"
proof -
  let ?c = "(sample_node 65 65 65 True)\<lparr>rs_have_token := True\<rparr>"
  have n: "node_inv (join_fsm_start_inflight ?c sample_joiner)"
    by (rule start_inflight_keeps [OF sample_inv(2)]) simp_all
  obtain c2 w' where h: "handle_join_ack_u (join_fsm_start_inflight ?c sample_joiner)
      (ack_msg (sample_node 74 0 0 False) (pj_request_id sample_joiner)) (fresh_world []) = Some (0, c2, w')"
    using handle_ack_keeps [OF n] by blast
  from join_into_one_node_ring [OF sample_inv(2) _ _ _ _ refl _ _ h] h show ?thesis by simp
qed

text \<open>
  C29: A coordinator neither forwards the token nor gives up. While a join is in flight the token handler does
  nothing, and a tick without both confirmations keeps the join, its joiner, the routes and the token: after 30
  unanswered rounds it clears its retry counter and goes on. A joiner that has died blocks the ring.
\<close>
theorem coordinator_waits_for_ever:
  assumes "node_inv st" "ji_active (rs_join_inflight st)" "\<not> join_ready st"
  shows "\<exists>st' w'. join_fsm_inflight_tick st w = Some (0, st', w')
    \<and> ji_active (rs_join_inflight st') \<and> \<not> join_ready st' \<and> ji_joiner (rs_join_inflight st') = ji_joiner (rs_join_inflight st)
    \<and> rs_config st' = rs_config st \<and> rs_token_in st' = rs_token_in st \<and> rs_have_token st'
    \<and> handle_token_if_ready st' w' = Some (0, st', w')"
proof -
  from inflight_tick_waiting [OF assms(2,3)] obtain t n w' where
    "join_fsm_inflight_tick st w =
      Some (0, set_inflight ((rs_join_inflight st)\<lparr>ji_last_sent := t, ji_retries := n\<rparr>) st, w')" by blast
  moreover have "rs_have_token st" using assms(1,2) by (simp add: node_inv_parts)
  ultimately show ?thesis using assms(2,3) by (simp add: join_ready_def handle_token_if_ready_def)
qed

theorem coordinator_waits_for_ever_witness:
  "\<exists>st' w'. join_fsm_inflight_tick sample_coord (fresh_world []) = Some (0, st', w')
    \<and> ji_active (rs_join_inflight st') \<and> handle_token_if_ready st' w' = Some (0, st', w')"
  using coordinator_waits_for_ever [OF sample_coord_facts(1,3,4)] by blast

text \<open>
  C18: A repeated JOIN_ACCEPT is harmless. Once the joiner or the predecessor has applied it, a second
  copy changes no route and sends nothing (the lost confirmation is repeated by the timer instead).
\<close>
theorem accept_applied_once:
  assumes "node_inv st" "wf_name (my_name c)" "wf_name (pj_node_name (ji_joiner (rs_join_inflight c)))"
    and "\<not> same_name (my_name c) (pj_node_name (ji_joiner (rs_join_inflight c)))"
    and "handle_join_accept_u st (accept_msg c) w = Some (rc, st1, w1)"
    and "handle_join_accept_u st1 (accept_msg c) w2 = Some (rc', st2, w3)"
  shows "rs_config st2 = rs_config st1 \<and> rs_joined st2 = rs_joined st1 \<and> rs_ack_sender st2 = rs_ack_sender st1 \<and> w3 = w2"
proof -
  let ?a = "build_join_accept_host c"
  let ?mark = "\<lambda>s. s\<lparr>rs_join_state := join_state_mark_completed_and_prune_pending (rs_join_state s)
      (ja_new_name ?a) (request_id (ja_header ?a))\<rparr>"
  have n1: "node_inv st1" using handle_accept_keeps [OF assms(1), of "accept_msg c" w] assms(5) by auto
  have len: "length (node_name (cfg_next (rs_config st))) = 32"
    using assms(1) by (auto simp: node_inv_def wf_name_length dest: data_invD)
  have "\<not> fst (apply_accept_if_relevant (?mark st1) ?a)"
  proof (rule apply_accept_cases [of "?mark st" ?a])
    assume a: "apply_accept_if_relevant (?mark st) ?a = (False, ?mark st)"
    then have "st1 = ?mark st" using handle_accept_effect [OF assms(5,1)] by simp
    with a show ?thesis by (simp add: apply_accept_if_relevant_def Let_def split: if_splits)
  next
    assume a: "apply_accept_if_relevant (?mark st) ?a = (True, (set_next (ja_before_name ?a) (ja_before_unicast_port ?a)
         (set_prev (ja_prev_name ?a) (ja_prev_unicast_port ?a) (?mark st)))
       \<lparr>rs_joined := True, rs_join_request_last_sent := 0, rs_join_request_retries := 0\<rparr>)"
      and me: "same_name (my_name (?mark st)) (ja_new_name ?a)"
    then have "rs_joined st1" "my_name st1 = my_name st" using handle_accept_effect [OF assms(5,1)] by auto
    with me show ?thesis by (simp add: apply_accept_if_relevant_def Let_def)
  next
    assume a: "apply_accept_if_relevant (?mark st) ?a =
        (True, (set_next (ja_new_name ?a) (ja_new_unicast_port ?a) (?mark st))\<lparr>rs_joined := True\<rparr>)"
      and me: "\<not> same_name (my_name (?mark st)) (ja_new_name ?a)"
    then have "my_name st1 = my_name st" "node_name (cfg_next (rs_config st1)) = pad_name (c_str (ja_new_name ?a))"
      using handle_accept_effect [OF assms(5,1)] len by (auto simp: set_route_sel)
    moreover have "\<not> same_name (ja_new_name ?a) (ja_before_name ?a)"
      using assms(2-4) by (auto simp: accept_fields dest: same_name_sym)
    ultimately show ?thesis using me by (simp add: apply_accept_if_relevant_def Let_def accept_fields)
  qed
  moreover from this have "snd (apply_accept_if_relevant (?mark st1) ?a) = ?mark st1"
    using apply_accept_cases [of "?mark st1" ?a] by (metis fst_conv snd_conv)
  ultimately show ?thesis using handle_accept_effect [OF assms(6) n1] by simp
qed

theorem accept_applied_once_witness:
  "\<exists>st1 st2 w1. handle_join_accept_u (sample_node 66 65 65 True) (accept_msg sample_coord) (fresh_world []) = Some (0, st1, w1)
    \<and> handle_join_accept_u st1 (accept_msg sample_coord) w1 = Some (0, st2, w1) \<and> rs_config st2 = rs_config st1"
proof -
  obtain st1 w1 where h: "handle_join_accept_u (sample_node 66 65 65 True) (accept_msg sample_coord) (fresh_world [])
      = Some (0, st1, w1)" "node_inv st1" using handle_accept_keeps [OF sample_inv(1)] by blast
  obtain st2 w2 where h2: "handle_join_accept_u st1 (accept_msg sample_coord) w1 = Some (0, st2, w2)"
    using handle_accept_keeps [OF h(2)] by blast
  from accept_applied_once [OF sample_inv(1) _ _ _ h(1) h2] h h2 show ?thesis
    by (auto simp: sample_coord_facts)
qed

text \<open>
  C19: An acknowledgement that does not belong to the join in flight changes nothing: without an active join, or with
  another request id, the state of the node stays as it was. One from a third node confirms nothing.
\<close>
theorem foreign_ack_confirms_nothing:
  assumes "handle_join_ack_u st msg w = Some (rc, st', w')"
    and "\<not> ji_active (rs_join_inflight st) \<or> ji_request_id (rs_join_inflight st) \<noteq> ntohl (au_request_id (ack_u_of_bytes (um_payload msg)))
      \<or> \<not> join_ready st \<and> (let nm = (au_from_name (ack_u_of_bytes (um_payload msg)))[MAX_NODE_NAME_SIZE - 1 := 0] in
           \<not> same_name nm (ji_expected_prev_name (rs_join_inflight st)) \<and> \<not> same_name nm (node_name (cfg_prev (rs_config st)))
           \<and> \<not> same_name nm (pj_node_name (ji_joiner (rs_join_inflight st))))"
  shows "st' = st"
proof -
  let ?a = "ack_u_of_bytes (um_payload msg)"
  let ?nm = "(au_from_name ?a)[MAX_NODE_NAME_SIZE - 1 := 0]"
  have "(if ji_active (rs_join_inflight st) \<and> ji_request_id (rs_join_inflight st) = ntohl (au_request_id ?a)
         then join_fsm_maybe_complete (set_inflight (record_ack st ?nm) st) w else (st, w)) = (st, w)"
    using assms(2) by (auto simp: record_ack_def Let_def join_fsm_maybe_complete_def try_complete_eq)
  with assms(1) show ?thesis
    unfolding handle_join_ack_u_def Let_def by (auto simp: bind_eq_Some_conv split: if_splits)
qed

theorem foreign_ack_confirms_nothing_witness:
  "\<exists>w'. handle_join_ack_u sample_coord (ack_msg (sample_node 67 0 0 True) 0) (fresh_world []) = Some (0, sample_coord, w')"
proof -
  obtain st' w' where h: "handle_join_ack_u sample_coord (ack_msg (sample_node 67 0 0 True) 0) (fresh_world []) = Some (0, st', w')"
    using handle_ack_keeps [OF sample_coord_facts(1)] by blast
  have e: "ji_expected_prev_name (rs_join_inflight sample_coord) = pad_name [66]"
    using started(4) [OF sample_inv(2), of sample_joiner 65 66 66] by (simp add: sample_coord_def c_str_pad_name)
  have "st' = sample_coord"
    by (rule foreign_ack_confirms_nothing [OF h])
      (simp add: Let_def ack_received sample_coord_facts e c_str_pad_name)
  with h show ?thesis by blast
qed

text \<open>
  C35: Requests to join are spaced. After a tick that sent a request at time \<open>t > 0\<close>, a tick less
  than ten seconds later sends nothing and changes nothing; a node that is in the ring, or has asked 65536 times, sends none either,
  and only the latter is an error.
\<close>
theorem join_requests_are_spaced:
  assumes "join_fsm_request_tick st w = (0, st1, w1)" and "st1 \<noteq> st" and "0 < w_clock w (w_tick w) div 1000000"
    and "w_clock w2 (w_tick w2) div 1000000 < w_clock w (w_tick w) div 1000000 + JOIN_REQUEST_TIMEOUT_S"
  shows "join_fsm_request_tick st1 w2 = (0, st1, tick w2)
    \<and> join_fsm_request_tick (st1\<lparr>rs_joined := True\<rparr>) w2 = (0, st1\<lparr>rs_joined := True\<rparr>, w2)
    \<and> join_fsm_request_tick (st1\<lparr>rs_join_request_retries := JOIN_REQUEST_RETRIES, rs_join_request_last_sent := 0\<rparr>) w2
        = (-1, st1\<lparr>rs_join_request_retries := JOIN_REQUEST_RETRIES, rs_join_request_last_sent := 0\<rparr>, tick w2)"
proof -
  have "st1 = st\<lparr>rs_join_request_last_sent := w_clock w (w_tick w) div 1000000,
      rs_join_request_retries := rs_join_request_retries st + 1\<rparr>" "\<not> rs_joined st"
    using assms(1,2) by (auto simp: join_fsm_request_tick_def time_now_def split: prod.splits if_splits)
  with assms(3,4) show ?thesis by (simp add: join_fsm_request_tick_def time_now_def)
qed

theorem join_requests_are_spaced_witness:
  "let w = (fresh_world [])\<lparr>w_targets := [\<lparr>bt_ifname = [], bt_addr = node_addr 9\<rparr>], w_clock := (\<lambda>_. 5000000)\<rparr>;
       st = sample_node 74 0 0 False; (rc, st1, w1) = join_fsm_request_tick st w
   in rc = 0 \<and> rs_join_request_retries st1 = 1 \<and> join_fsm_request_tick st1 w1 = (0, st1, tick w1)"
proof -
  define w where "w = (fresh_world [])\<lparr>w_targets := [\<lparr>bt_ifname = [], bt_addr = node_addr 9\<rparr>], w_clock := (\<lambda>_. 5000000)\<rparr>"
  define st where "st = sample_node 74 0 0 False"
  obtain rc st1 w1 where t: "join_fsm_request_tick st w = (rc, st1, w1)" by (metis prod_cases3)
  have r: "rc = 0" "st1 = st\<lparr>rs_join_request_last_sent := 5, rs_join_request_retries := 1\<rparr>"
    "w_clock w1 = (\<lambda>_. 5000000)"
    using t by (auto simp: join_fsm_request_tick_def time_now_def broadcast_send_join_request_def
        send_to_all_targets_def sendto_def w_def st_def fresh_world_def sample_node_def init_ring_state_def)
  have "rs_join_request_retries st = 0" by (simp add: st_def sample_node_def init_ring_state_def)
  moreover have "rs_join_request_retries st1 = 1" using r(2) by simp
  ultimately have "st1 \<noteq> st" by fastforce
  from join_requests_are_spaced [OF t [unfolded r(1)] this, of w1] show ?thesis
    unfolding w_def [symmetric] st_def [symmetric] using r by (simp add: t) (simp add: w_def)
qed

end
