(* ===== verification/Join_Theorems.thy ===== *)
theory Join_Theorems
  imports Join_State
begin

text \<open>
  The properties of the join state (\<open>join.c\<close>): what each operation does to the list of waiting nodes and to the
  history of completed joins, the invariant of both tables, and two behaviours of registration a
  reader of \<open>add_pending_join\<close> may not expect.
\<close>

definition refreshed :: "pending_join \<Rightarrow> join_request \<Rightarrow> u32 \<Rightarrow> int \<Rightarrow> pending_join" where
  "refreshed p req ip now = p\<lparr>pj_request_id := request_id (jr_header req), pj_last_seen := now,
     pj_ip := ip, pj_unicast_port := jr_unicast_port req\<rparr>"

definition new_pending :: "join_request \<Rightarrow> u32 \<Rightarrow> int \<Rightarrow> pending_join" where
  "new_pending req ip now = \<lparr>pj_used = True, pj_request_id = request_id (jr_header req),
     pj_node_name = pad_name (c_str (jr_node_name req)), pj_unicast_port = jr_unicast_port req,
     pj_ip = ip, pj_last_seen = now\<rparr>"

lemma if_not_rule: "\<not> P \<Longrightarrow> Q \<Longrightarrow> if P then R else Q"
  by simp

lemma waiting_split:
  assumes "join_inv st" "i < 32"
  shows "waiting st = filter pj_used (take i (js_joins st)) @ (if pj_used (js_joins st ! i) then [js_joins st ! i] else [])
           @ filter pj_used (drop (Suc i) (js_joins st))"
    "waiting (st\<lparr>js_joins := (js_joins st)[i := p]\<rparr>) = filter pj_used (take i (js_joins st))
       @ (if pj_used p then [p] else []) @ filter pj_used (drop (Suc i) (js_joins st))"
  using assms id_take_nth_drop [of i "js_joins st"]
  by (simp_all add: waiting_def join_invD upd_conv_take_nth_drop)
    (metis (full_types) append_Cons append_Nil filter.simps(2) filter_append)

text \<open>A request of the node named \<open>nm\<close>.\<close>

definition request_of :: "bytes \<Rightarrow> join_request" where
  "request_of nm = \<lparr>jr_header = \<lparr>magic = JOIN_MAGIC, msg_type = JOIN_REQUEST, reserved = 0, request_id = 1\<rparr>,
     jr_node_name = pad_name nm, jr_unicast_port = 5000\<rparr>"


definition full_state :: join_state where
  "full_state = zero_join_state\<lparr>js_joins := replicate MAX_PENDING_JOINS (new_pending (request_of [65]) 9 0),
     js_count := 32\<rparr>"

lemma waiting_full_state: "waiting full_state = replicate 32 (new_pending (request_of [65]) 9 0)"
  by (simp add: waiting_def full_state_def new_pending_def)

lemma join_inv_full_state: "join_inv full_state"
  using join_inv_zero by (simp add: join_inv_def full_state_def n_used_def new_pending_def zero_join_state_def zero_completed_def)

text \<open>
  C22: Registering a join request. A full table refuses every request and stays as it is; otherwise
  the call succeeds, and the list of waiting nodes either has the entry of that node refreshed with the
  new id, address, port and time, or a new entry with the canonical copy of the name; every other
  entry keeps its place.
\<close>
theorem add_pending_join_behaviour:
  assumes "join_inv st"
  shows "if length (waiting st) = MAX_PENDING_JOINS then add_pending_join st req ip now = (-1, st)
    else \<exists>st' xs ys. add_pending_join st req ip now = (0, st')
      \<and> (waiting st = xs @ ys \<and> waiting st' = xs @ new_pending req ip now # ys
         \<or> (\<exists>p. waiting st = xs @ p # ys \<and> same_name (pj_node_name p) (jr_node_name req)
                 \<and> waiting st' = xs @ refreshed p req ip now # ys))"
proof (cases "length (waiting st) < 32")
  case True
  show ?thesis
  proof (rule add_pending_join_cases [OF assms True, of req ip now], goal_cases)
    case (1 i p)
    let ?st' = "st\<lparr>js_joins := (js_joins st)[i := refreshed p req ip now]\<rparr>"
    have "add_pending_join st req ip now = (0, ?st')" using 1 by (simp add: refreshed_def)
    moreover have "pj_used (refreshed p req ip now)" using 1 by (simp add: refreshed_def)
    moreover note w = waiting_split(1) [OF assms 1(1)] waiting_split(2) [OF assms 1(1), of "refreshed p req ip now"]
    ultimately show ?case using True 1(2-4)
      by (intro if_not_rule exI [of _ ?st'] exI [of _ "filter pj_used (take i (js_joins st))"]
          exI [of _ "filter pj_used (drop (Suc i) (js_joins st))"]) simp_all
  next
    case (2 i)
    let ?st' = "st\<lparr>js_joins := (js_joins st)[i := new_pending req ip now], js_count := js_count st + 1\<rparr>"
    have "add_pending_join st req ip now = (0, ?st')" using 2 by (simp add: new_pending_def)
    moreover have "waiting ?st' = waiting (st\<lparr>js_joins := (js_joins st)[i := new_pending req ip now]\<rparr>)"
      by (simp add: waiting_def)
    moreover have "pj_used (new_pending req ip now)" by (simp add: new_pending_def)
    moreover note w = waiting_split(1) [OF assms 2(1)] waiting_split(2) [OF assms 2(1), of "new_pending req ip now"]
    ultimately show ?case using True 2(2)
      by (intro if_not_rule exI [of _ ?st'] exI [of _ "filter pj_used (take i (js_joins st))"]
          exI [of _ "filter pj_used (drop (Suc i) (js_joins st))"]) simp_all
  qed
next
  case False
  with assms n_used_le [of pj_used "js_joins st"] have "length (waiting st) = 32"
    by (simp add: waiting_def n_used_def join_invD)
  with assms show ?thesis by (simp add: add_pending_join_full)
qed

theorem add_pending_join_behaviour_witness:
  "length (waiting (snd (add_pending_join zero_join_state (request_of [65]) 9 0))) = 1"
  using add_pending_join_behaviour [OF join_inv_zero, of "request_of [65]" 9 0]
  by (auto simp: waiting_def zero_join_state_def zero_pending_def)






text \<open>
  C15: Taking the oldest request. \<open>pop_oldest_pending_join\<close> fails on an empty table; otherwise it removes exactly
  one entry, whose \<open>last_seen\<close> is least, the first such entry in slot order.
\<close>
theorem pop_takes_the_oldest:
  assumes "join_inv st"
  shows "if waiting st = [] then pop_oldest_pending_join st = (None, st)
    else \<exists>xs e ys st'. pop_oldest_pending_join st = (Some e, st') \<and> waiting st = xs @ e # ys
      \<and> waiting st' = xs @ ys \<and> (\<forall>x\<in>set xs. pj_last_seen e < pj_last_seen x)
      \<and> (\<forall>y\<in>set ys. pj_last_seen e \<le> pj_last_seen y)"
proof (cases "waiting st = []")
  case False
  from jq.pop_oldest [OF assms this] False show ?thesis by (simp only: if_False) blast
qed (simp add: jq.pop_empty [OF assms])

theorem pop_takes_the_oldest_witness:
  "\<exists>e st'. pop_oldest_pending_join full_state = (Some e, st') \<and> length (waiting st') = 31"
proof -
  have "waiting full_state \<noteq> []" by (simp add: waiting_full_state)
  with pop_takes_the_oldest [OF join_inv_full_state] obtain xs e ys st' where
    "pop_oldest_pending_join full_state = (Some e, st')" "waiting full_state = xs @ e # ys" "waiting st' = xs @ ys"
    by auto
  moreover from this(2) have "length (xs @ e # ys) = 32" by (metis waiting_full_state length_replicate)
  ultimately show ?thesis by auto
qed

text \<open>
  \<open>drop_oldest_pending_joins\<close> with the current count, as its callers use it, empties
  the table and returns the number of entries it removed; with a smaller bound it removes exactly that many.
\<close>
lemma drop_oldest_removes:
  assumes "join_inv st" and "drop_oldest_pending_joins st n = (r, st')"
  shows "unat r = min (unat n) (length (waiting st)) \<and> length (waiting st') = length (waiting st) - unat r
    \<and> set (waiting st') \<subseteq> set (waiting st) \<and> (n = js_count st \<longrightarrow> waiting st' = [] \<and> js_count st' = 0)"
proof -
  obtain k where k: "drain pop_oldest_pending_join (unat n) st = (k, st')" "r = of_nat k"
    using assms(2) by (auto simp: drop_oldest_pending_joins_def split: prod.splits)
  note d = jq.drain_props [OF assms(1) k(1)]
  have "length (waiting st) \<le> 32"
    using n_used_le [of pj_used "js_joins st"] assms(1) by (simp add: waiting_def n_used_def join_invD)
  then have "k \<le> 32" unfolding d(2) by (rule min.coboundedI2)
  then have r: "unat r = k" unfolding k(2) by (simp add: unat_of_nat)
  show ?thesis unfolding r
  proof (intro conjI impI)
    show "waiting st' = []" "js_count st' = 0" if "n = js_count st"
      using drop_oldest_all(2,3) [OF assms(1)] assms(2) that by simp_all
  qed (fact d(2-4))+
qed

lemma drop_oldest_removes_witness:
  "\<exists>r st'. drop_oldest_pending_joins full_state 32 = (r, st') \<and> unat r = 32 \<and> waiting st' = []"
proof -
  obtain r st' where d: "drop_oldest_pending_joins full_state 32 = (r, st')" by fastforce
  show ?thesis using d drop_oldest_removes [OF join_inv_full_state d]
    by (simp add: waiting_full_state) (simp add: full_state_def)
qed


text \<open>
  C16: The history of completed joins is a bounded list without shifting errors: recording a node that is
  in it changes its request id in place, a new node is appended, and the oldest entry goes exactly when
  there are 32 already. Afterwards the node counts as completed, and the waiting nodes are untouched.
\<close>
theorem record_completed_refines_list:
  assumes "join_inv st" and "wf_name (pj_node_name j)"
  shows "history (join_state_record_completed st j) = hist_record (pj_request_id j) (pj_node_name j) (history st)
    \<and> (\<forall>req. jr_node_name req = pj_node_name j \<longrightarrow>
         join_state_is_completed (join_state_record_completed st j) req)
    \<and> length (history (join_state_record_completed st j)) \<le> MAX_PENDING_JOINS
    \<and> waiting (join_state_record_completed st j) = waiting st"
proof (intro conjI allI impI)
  show h: "history (join_state_record_completed st j) = hist_record (pj_request_id j) (pj_node_name j) (history st)"
    by (rule history_record [OF assms(1)])
  show "join_state_is_completed (join_state_record_completed st j) req" if "jr_node_name req = pj_node_name j" for req
    using hist_record_mem [OF assms(2)] unfolding join_state_is_completed_def h that .
  show "length (history (join_state_record_completed st j)) \<le> MAX_PENDING_JOINS"
    using join_inv_record [OF assms(1)] by (simp only: history_length join_invD(5))
qed (rule record_waiting(3))

theorem record_completed_refines_list_witness:
  "history (join_state_record_completed zero_join_state (new_pending (request_of [65]) 9 0))
   = [\<lparr>cj_request_id = 1, cj_node_name = pad_name [65]\<rparr>]"
proof -
  have "wf_name (pj_node_name (new_pending (request_of [65]) 9 0))" by (simp add: new_pending_def)
  from record_completed_refines_list [OF join_inv_zero this] show ?thesis
    by (simp add: hist_record_def history_def zero_join_state_def new_pending_def request_of_def c_str_pad_name)
qed


text \<open>
  C14: Every operation of \<open>join.c\<close> keeps the invariant of the join state: 32 slots each, \<open>count\<close> is the
  number of used slots (in particular it never wraps), \<open>completed_count\<close> is at most 32 and every stored name is terminated.
\<close>
theorem join_state_invariant:
  assumes "join_inv st"
  shows "join_inv (snd (add_pending_join st req ip now)) \<and> join_inv (snd (remove_pending_join st nm))
    \<and> join_inv (snd (pop_oldest_pending_join st)) \<and> join_inv (snd (drop_oldest_pending_joins st n))
    \<and> join_inv (join_state_record_completed st j) \<and> join_inv (prune_joins st now ttl)
    \<and> join_inv (join_state_mark_completed_and_prune_pending st nm rid)"
  using assms by (meson inv_intros surjective_pairing)

theorem join_state_invariant_witness: "join_inv (prune_joins zero_join_state 300 200)"
  using join_state_invariant [OF join_inv_zero] by blast


text \<open>
  C32: Pruning removes exactly the entries not heard of for more than \<open>ttl\<close> seconds and keeps the others in order.
\<close>
theorem prune_removes_expired:
  assumes "join_inv st"
  shows "waiting (prune_joins st now ttl) = filter (\<lambda>p. now - pj_last_seen p \<le> ttl) (waiting st)
    \<and> unat (js_count (prune_joins st now ttl)) = length (waiting (prune_joins st now ttl))"
  using waiting_prune [of st now ttl] join_invD(2) [OF join_inv_prune [OF assms]]
  by (simp add: expired_def not_less)

theorem prune_removes_expired_witness:
  "waiting (prune_joins full_state 201 200) = [] \<and> length (waiting (prune_joins full_state 200 200)) = 32"
  using prune_removes_expired [OF join_inv_full_state, of 201 200] prune_removes_expired [OF join_inv_full_state, of 200 200]
  by (simp add: waiting_full_state new_pending_def)

end
