(* ===== verification/Node_Theorems.thy ===== *)
theory Node_Theorems
  imports Join_Protocol Join_Theorems
begin

text \<open>
  Properties of one node: the broadcast messages it sends and handles (\<open>broadcast.c\<close>), the token it receives and forwards
  (\<open>unicast_dispatch.c\<close>, \<open>ring.c\<close>) and the messages of its user (\<open>cli.c\<close>, \<open>writer.c\<close>).
\<close>

section \<open>Broadcast messages\<close>








text \<open>
  C36: Malformed broadcasts have no effect: a datagram shorter than a header, with another magic number, of an
  unknown type, or with a length that is not that of its type is dropped, the handler returns 0 and the node and
  its surroundings stay as they were. Only a failing \<open>recvfrom\<close> is an error.
\<close>
theorem malformed_broadcasts_are_ignored:
  assumes "length d < sizeof_join_header \<or> ntohl (magic (header_of_bytes (take 116 d))) \<noteq> JOIN_MAGIC
    \<or> ntohs (msg_type (header_of_bytes (take 116 d))) \<notin> {JOIN_REQUEST, JOIN_COMMIT} \<or> length d \<noteq> 48"
  shows "handle_broadcast (Some (src, d)) st w = (0, st, w) \<and> handle_broadcast None st w = (-1, st, w)"
  using assms by (auto simp: handle_broadcast_def Let_def broadcast_join_request_def broadcast_join_commit_def)

theorem malformed_broadcasts_are_ignored_witness:
  "handle_broadcast (Some (node_addr 9, [1, 2, 3])) sample_coord (fresh_world []) = (0, sample_coord, fresh_world [])"
proof -
  have "length [1, 2, 3 :: byte] < sizeof_join_header" by simp
  from malformed_broadcasts_are_ignored [OF disjI1 [OF this]] show ?thesis by blast
qed








section \<open>The token\<close>

text \<open>A token that a node sends is the token its successor reads.\<close>

lemma token_received:
  assumes "wf_token t"
  shows "token_of_bytes (um_payload (token_msg t)) = t" "unat (um_payload_len (token_msg t)) = sizeof_token"
    "um_type (token_msg t) = UMSG_TOKEN"
  using token_fmt.umsg_payload [OF assms] token_fmt.umsg_payload_len [OF assms] by (simp_all add: token_msg_def)

text \<open>
  C17: A token is handed over unchanged. The message that \<open>ring_on_token\<close> builds from a token survives the change of byte
  order and the copy through the frame, and the successor, when it is in the ring, holds exactly that token
  afterwards: every field is as it was sent, its topology version becomes the newest known one, and a newer version empties the
  table of waiting nodes. A node that is not in the ring keeps no token: one sent to it is gone.
\<close>
theorem token_is_handed_over:
  assumes "node_inv st" "wf_token t"
  shows "\<exists>wire. build_unicast_wire (token_msg t) = Some wire
    \<and> (let (rc, msg) = read_unicast_wire (umsg_of_bytes (bytes_of_umsg wire)) zero_umsg;
           st' = handle_token_unicast st msg
       in rc = 0 \<and> unicast_dispatch_message st msg w = Some (0, st', w)
        \<and> rs_token_in st' = t \<and> rs_have_token st' = (rs_joined st \<or> rs_have_token st)
        \<and> (if rs_joined st
           then rs_last_seen_topo_version st' = max (tk_topo_version t) (rs_last_seen_topo_version st)
             \<and> (if tk_topo_version t > rs_last_seen_topo_version st then waiting (rs_join_state st') = []
                else rs_join_state st' = rs_join_state st)
           else st' = st\<lparr>rs_token_in := t\<rparr>))"
proof -
  have len: "length (bytes_of_token t) \<le> 512" using token_fmt.length_enc [OF assms(2)] by simp
  from mk_umsg_roundtrip [OF this, of UMSG_TOKEN] obtain wire where
    w: "build_unicast_wire (token_msg t) = Some wire"
      "read_unicast_wire (umsg_of_bytes (bytes_of_umsg wire)) zero_umsg = (0, token_msg t)"
    unfolding token_msg_def by blast
  have inv: "join_inv (rs_join_state st)" using assms(1) by (simp add: node_inv_parts)
  obtain r js where d: "drop_oldest_pending_joins (rs_join_state st) (js_count (rs_join_state st)) = (r, js)" by fastforce
  note dd = drop_oldest_all [OF inv d]
  note h = handle_token_unicast_def [of st "token_msg t", unfolded token_received [OF assms(2)]]
  have "unicast_dispatch_message st (token_msg t) w = Some (0, handle_token_unicast st (token_msg t), w)"
    by (simp add: unicast_dispatch_message_def token_received [OF assms(2)])
  moreover have "rs_token_in (handle_token_unicast st (token_msg t)) = t"
    "rs_have_token (handle_token_unicast st (token_msg t)) = (rs_joined st \<or> rs_have_token st)"
    "rs_joined st \<Longrightarrow> rs_last_seen_topo_version (handle_token_unicast st (token_msg t))
      = max (tk_topo_version t) (rs_last_seen_topo_version st)"
    "rs_joined st \<Longrightarrow> if tk_topo_version t > rs_last_seen_topo_version st
      then waiting (rs_join_state (handle_token_unicast st (token_msg t))) = []
      else rs_join_state (handle_token_unicast st (token_msg t)) = rs_join_state st"
    "\<not> rs_joined st \<Longrightarrow> handle_token_unicast st (token_msg t) = st\<lparr>rs_token_in := t\<rparr>"
    using dd by (auto simp: h Let_def update_topology_on_token_def clear_pending_joins_on_token_def d max_def
        split: prod.splits)
  ultimately show ?thesis using w by auto
qed

theorem token_is_handed_over_witness:
  "\<exists>wire. build_unicast_wire (token_msg (zero_token\<lparr>tk_topo_version := 3\<rparr>)) = Some wire
    \<and> (let st' = handle_token_unicast (sample_node 65 66 66 True)
             (snd (read_unicast_wire (umsg_of_bytes (bytes_of_umsg wire)) zero_umsg))
       in rs_have_token st' \<and> rs_last_seen_topo_version st' = 3)"
proof -
  have "wf_token (zero_token\<lparr>tk_topo_version := 3\<rparr>)" by simp
  from token_is_handed_over [OF sample_inv(1) this, of 65 66 66 True "fresh_world []"] obtain wire where
    wire: "build_unicast_wire (token_msg (zero_token\<lparr>tk_topo_version := 3\<rparr>)) = Some wire"
    and rest: "let (rc, msg) = read_unicast_wire (umsg_of_bytes (bytes_of_umsg wire)) zero_umsg;
         st' = handle_token_unicast (sample_node 65 66 66 True) msg
     in rc = 0 \<and> unicast_dispatch_message (sample_node 65 66 66 True) msg (fresh_world []) = Some (0, st', fresh_world [])
        \<and> rs_token_in st' = zero_token\<lparr>tk_topo_version := 3\<rparr>
        \<and> rs_have_token st' = (rs_joined (sample_node 65 66 66 True) \<or> rs_have_token (sample_node 65 66 66 True))
        \<and> (if rs_joined (sample_node 65 66 66 True)
           then rs_last_seen_topo_version st' = max (tk_topo_version (zero_token\<lparr>tk_topo_version := 3\<rparr>))
                (rs_last_seen_topo_version (sample_node 65 66 66 True))
             \<and> (if tk_topo_version (zero_token\<lparr>tk_topo_version := 3\<rparr>) > rs_last_seen_topo_version (sample_node 65 66 66 True)
                then waiting (rs_join_state st') = []
                else rs_join_state st' = rs_join_state (sample_node 65 66 66 True))
           else st' = (sample_node 65 66 66 True)\<lparr>rs_token_in := zero_token\<lparr>tk_topo_version := 3\<rparr>\<rparr>)" by blast
  obtain rc msg where "read_unicast_wire (umsg_of_bytes (bytes_of_umsg wire)) zero_umsg = (rc, msg)" by fastforce
  with wire rest show ?thesis by (simp add: Let_def max_def)
qed

text \<open>The token a node forwards: a message for the node is taken out, and a pending message of its own goes into a free token.\<close>

definition for_me :: "ring_state \<Rightarrow> bool" where
  "for_me st \<longleftrightarrow> \<not> tk_is_empty (rs_token_in st) \<and> strcmp (tk_receiver (rs_token_in st)) (my_name st) = 0"

definition token_free :: "ring_state \<Rightarrow> bool" where
  "token_free st \<longleftrightarrow> tk_is_empty (rs_token_in st) \<or> for_me st"

definition forwarded :: "ring_state \<Rightarrow> token" where
  "forwarded st =
     (if rs_have_cli_pending st \<and> token_free st
      then (rs_cli_pending st)\<lparr>tk_topo_version := rs_last_seen_topo_version st\<rparr>
      else if for_me st then clear_token (rs_token_in st) else rs_token_in st)"

lemma token_out_eq:
  "token_out st = (forwarded st,
     if rs_have_cli_pending st \<and> token_free st
     then st\<lparr>rs_have_cli_pending := False, rs_cli_pending := clear_token (rs_cli_pending st)\<rparr> else st)"
  by (cases "tk_is_empty (rs_token_in st)"; cases "strcmp (tk_receiver (rs_token_in st)) (my_name st) = 0";
      cases "rs_have_cli_pending st")
    (simp_all add: token_out_def forwarded_def token_free_def for_me_def Let_def clear_token_def)

lemma resolve_quiet:
  assumes "resolve_next_addr r w = (rc, a, w1)"
  shows "send_bit w1 = send_bit w" "copies f w1 = copies f w" "w_script w1 = w_script w" "w_sent w1 = w_sent w"
    "w_pending w1 = w_pending w" "w_send_ok w1 = w_send_ok w" "w_malloc_ok w1 = w_malloc_ok w" "w_peers w1 = w_peers w"
  using assms
  by (auto simp: resolve_next_addr_def Let_def send_bit_def copies_def split: prod.splits if_splits option.splits)

text \<open>
  C8: Forwarding the token. A node keeps the token until its successor has acknowledged it: either the call ends with the token
  given up, and then the message with the forwarded token went to the address of the successor, or it ends
  with the token still held and unchanged. A message for the node itself is taken out of the token, one for another node is forwarded as
  it is, and a pending message of the node is attached exactly when the token is free. That pending
  message is given up in either case, also when the send failed.
\<close>
theorem token_is_forwarded:
  assumes "ring_on_token st w = Some (rc, st', w')" and "rs_have_token st"
  shows "rc = 0 \<and> rs_have_cli_pending st' = (rs_have_cli_pending st \<and> \<not> token_free st)
    \<and> (if rs_have_token st' then rs_token_in st' = rs_token_in st
       else rs_token_in st' = zero_token
         \<and> (\<exists>a w1 wire. resolve_next_addr (cfg_next (rs_config st)) w = (0, a, w1)
              \<and> build_unicast_wire (token_msg (forwarded st)) = Some wire
              \<and> copies (mk_frame MESSAGE (send_bit w a) (bytes_of_umsg wire)) w
                < copies (mk_frame MESSAGE (send_bit w a) (bytes_of_umsg wire)) w'))"
proof -
  define st1 where "st1 = (if rs_have_cli_pending st \<and> token_free st
     then st\<lparr>rs_have_cli_pending := False, rs_cli_pending := clear_token (rs_cli_pending st)\<rparr> else st)"
  have st1: "cfg_next (rs_config st1) = cfg_next (rs_config st)" "rs_have_token st1" "rs_token_in st1 = rs_token_in st"
    "rs_have_cli_pending st1 = (rs_have_cli_pending st \<and> \<not> token_free st)"
    using assms(2) by (auto simp: st1_def)
  obtain r w2 where s: "unicast_send_limited (token_msg (forwarded st)) (cfg_next (rs_config st))
      TOKEN_ACK_TIMEOUT_USEC TOKEN_ACK_MAX_ATTEMPTS w = Some (r, w2)"
    and res: "(rc, st', w') = (if r < 0 then (0, st1, w2) else (0, st1\<lparr>rs_have_token := False, rs_token_in := zero_token\<rparr>, w2))"
    using assms(1) unfolding ring_on_token_def token_out_eq prod.case st1_def [symmetric] st1(1)
    by (auto simp: bind_eq_Some_conv split: if_splits)
  obtain r1 a w1 where rv: "resolve_next_addr (cfg_next (rs_config st)) w = (r1, a, w1)" by (metis prod_cases3)
  have "r1 = 0 \<and> (\<exists>wire. build_unicast_wire (token_msg (forwarded st)) = Some wire
      \<and> copies (mk_frame MESSAGE (send_bit w a) (bytes_of_umsg wire)) w
        < copies (mk_frame MESSAGE (send_bit w a) (bytes_of_umsg wire)) w2)" if ok: "\<not> r < 0"
  proof -
    have "r1 = 0 \<or> r1 = -1" using rv by (auto simp: resolve_next_addr_def Let_def split: prod.splits if_splits option.splits)
    then obtain wire where b: "build_unicast_wire (token_msg (forwarded st)) = Some wire" "r1 = 0"
      "rudp_sendto_with_limits (bytes_of_umsg wire) a TOKEN_ACK_TIMEOUT_USEC TOKEN_ACK_MAX_ATTEMPTS w1 = Some (r, w2)"
      using s ok rv by (auto simp: unicast_send_limited_def split: option.splits)
    with rudp_sendto_meets_spec [OF b(3)] ok resolve_quiet [OF rv] show ?thesis by (auto simp: send_spec_def)
  qed
  with res st1 rv show ?thesis by (auto split: if_splits)
qed

text \<open>A node of the ring resolves its successor, and a token in a world where the successor answers goes out.\<close>

lemma sample_resolve: "b \<noteq> 0 \<Longrightarrow> resolve_next_addr (sample_route b) (fresh_world evs) = (0, node_addr b, fresh_world evs)"
  by (simp add: resolve_next_addr_def fresh_world_def node_addr_def c_str_pad_name)

lemma token_wire:
  assumes "wf_token t"
  shows "\<exists>wire. build_unicast_wire (token_msg t) = Some wire \<and> length (bytes_of_umsg wire) \<le> 65527"
proof -
  have "length (bytes_of_token t) \<le> 512" using token_fmt.length_enc [OF assms] by simp
  from mk_umsg_roundtrip [OF this, of UMSG_TOKEN] obtain wire where
    "build_unicast_wire (token_msg t) = Some wire" unfolding token_msg_def by blast
  then show ?thesis
    by (auto simp: build_unicast_wire_def bytes_of_umsg_def zero_umsg_def overlay_def split: if_splits)
qed

lemma sample_token_sent:
  assumes "wf_token (forwarded st)" "cfg_next (rs_config st) = sample_route b" "b \<noteq> 0"
  shows "\<exists>st' w'. ring_on_token st (fresh_world (Arrived (node_addr b) (mk_frame ACK 0 []) # evs)) = Some (0, st', w') \<and> \<not> rs_have_token st'"
proof -
  obtain wire where "build_unicast_wire (token_msg (forwarded st)) = Some wire" "length (bytes_of_umsg wire) \<le> 65527"
    using token_wire [OF assms(1)] by blast
  moreover from this(2) obtain w' where "rudp_sendto_with_limits (bytes_of_umsg wire) (node_addr b)
      TOKEN_ACK_TIMEOUT_USEC TOKEN_ACK_MAX_ATTEMPTS (fresh_world (Arrived (node_addr b) (mk_frame ACK 0 []) # evs)) = Some (0, w')"
    using send_acked by blast
  ultimately show ?thesis using assms(2,3)
    by (simp add: ring_on_token_def token_out_eq unicast_send_limited_def sample_resolve)
qed

theorem token_is_forwarded_witness:
  "\<exists>st' w'. ring_on_token ((sample_node 65 66 66 True)\<lparr>rs_have_token := True\<rparr>)
      (fresh_world [Arrived (node_addr 66) (mk_frame ACK 0 [])]) = Some (0, st', w')
    \<and> \<not> rs_have_token st' \<and> rs_token_in st' = zero_token"
proof -
  let ?st = "(sample_node 65 66 66 True)\<lparr>rs_have_token := True\<rparr>"
  have "wf_token (forwarded ?st)"
    using sample_inv(2) [of 65 66 66] by (simp add: forwarded_def node_inv_parts)
  from sample_token_sent [OF this, of 66 "[]"] obtain st' w' where
    h: "ring_on_token ?st (fresh_world [Arrived (node_addr 66) (mk_frame ACK 0 [])]) = Some (0, st', w')" "\<not> rs_have_token st'"
    by auto
  with token_is_forwarded [OF h(1)] show ?thesis by auto
qed

text \<open>A send without a limit, to a destination from which nothing comes any more, never returns.\<close>

lemma wait_silent:
  assumes "wait_for_frame a ty s tmo w = (r, w')" and "w_script w = []"
  shows "w_script w' = []" "r \<noteq> -1"
proof -
  obtain b w2 where t: "pending_take_frame a ty s (tick w) = (b, w2)" by fastforce
  have "w_script w2 = []" using pending_take_frame_work [OF t] assms(2) by simp
  with assms t show "w_script w' = []" "r \<noteq> -1"
    by (auto simp: wait_for_frame_def gettimeofday_def split: if_splits)
qed

lemma retry_loop_silent:
  assumes "w_script w = []" "\<forall>k. w_send_ok w k" "\<not> (\<exists>x\<in>frames w. matches dest ACK seq x)"
  shows "retry_loop frame dest seq tmo 0 k w = None"
proof -
  have "m = 0 \<longrightarrow> w_script w = [] \<longrightarrow> (\<forall>k. w_send_ok w k) \<longrightarrow> (\<exists>x\<in>frames w. matches dest ACK seq x)"
    if "retry_loop frame dest seq tmo m k w = Some r" for m k w r
  proof (rule retry_loop.raw_induct [where P = "\<lambda>frame dest seq tmo m k w r. m = 0 \<longrightarrow> w_script w = []
      \<longrightarrow> (\<forall>k. w_send_ok w k) \<longrightarrow> (\<exists>x\<in>frames w. matches dest ACK seq x)", OF _ that], goal_cases)
    case (1 f frame dest seq tmo m k w r)
    show ?case
    proof (intro impI)
      assume m: "m = 0" and scr: "w_script w = []" and ok: "\<forall>k. w_send_ok w k"
      obtain w1 where s: "sendto dest frame w = (True, w1)" using ok by (auto simp: sendto_def)
      obtain v w2 where v: "wait_for_frame dest ACK seq tmo w1 = (v, w2)" by fastforce
      note round = retry_round [OF s v]
      have scr1: "w_script w1 = []" using sendto_frame(3) [OF s] scr by simp
      note silent = wait_silent [OF v scr1]
      show "\<exists>x\<in>frames w. matches dest ACK seq x"
      proof (cases "v = 1")
        case True
        with round(7) show ?thesis by simp
      next
        case False
        with silent(2) wait_rc [OF v] have "v = 0" by auto
        then have "f frame dest seq tmo m (k + 1) w2 = Some r" using 1(2) m by (simp add: s v)
        from 1(1) [OF this] m silent(1) round(2,6) ok show ?thesis by (auto simp: quiet_def same_os_def)
      qed
    qed
  qed
  then show ?thesis using assms by (cases "retry_loop frame dest seq tmo 0 k w") blast+
qed

text \<open>
  C30: A silent successor blocks the node. The token is sent without a limit on the attempts: when nothing arrives on the
  socket any more (and the sends themselves succeed), \<open>ring_on_token\<close> does not return, so the node
  handles no broadcast, no message of its user and no timer from then on.
\<close>
theorem silent_successor_blocks_the_node:
  assumes "w_script w = []" "\<forall>k. w_send_ok w k" "\<forall>k. w_malloc_ok w k"
    and "resolve_next_addr (cfg_next (rs_config st)) w = (0, a, w1)" "fst (get_peer a True w1) \<noteq> None"
    and "wf_token (rs_token_in st)" "wf_token (rs_cli_pending st)"
  shows "ring_on_token st w = None"
proof -
  have wf: "wf_token (forwarded st)" using assms(6,7) by (simp add: forwarded_def)
  have len: "length (bytes_of_token (forwarded st)) \<le> 512" using token_fmt.length_enc [OF wf] by simp
  from mk_umsg_roundtrip [OF this, of UMSG_TOKEN] obtain wire where
    b: "build_unicast_wire (token_msg (forwarded st)) = Some wire" unfolding token_msg_def by blast
  then have small: "\<not> sizeof_header + length (bytes_of_umsg wire) > MAX_FRAME_SIZE"
    by (auto simp: build_unicast_wire_def bytes_of_umsg_def zero_umsg_def overlay_def split: if_splits)
  note rq = resolve_quiet [OF assms(4)]
  obtain i w2 where g: "get_peer a True w1 = (Some i, w2)"
    using assms(5) by (cases "get_peer a True w1") auto
  note gw = get_peer_world [OF g]
  obtain w3 where ml: "malloc w2 = (True, w3)"
    using assms(3) rq(7) gw(4) by (auto simp: malloc_def same_os_def)
  define w4 where "w4 = pending_drop_peer_frames a ACK_ACK (pending_drop_peer_frames a ACK w3)"
  note d = drop_acks [OF w4_def]
  have scr3: "w_script w3 = []" using malloc_frame(4) [OF ml] gw(2) rq(3) assms(1) by simp
  have scr4: "w_script w4 = []" using scr3 by (simp add: w4_def pending_drop_peer_frames_def)
  have ok4: "\<forall>k. w_send_ok w4 k"
    using assms(2) rq(6) gw(4) malloc_frame(1) [OF ml, of "\<lambda>_. False"] d(1) [of "\<lambda>_. False"]
    by (simp add: quiet_def same_os_def)
  have none: "\<not> (\<exists>x\<in>frames w4. matches a ACK s x)" for s using d(4) scr3 by auto
  note silent = retry_loop_silent [OF scr4 ok4 none]
  have "rudp_sendto_with_limits (bytes_of_umsg wire) a TOKEN_ACK_TIMEOUT_USEC TOKEN_ACK_MAX_ATTEMPTS w1 = None"
    using small unfolding rudp_sendto_with_limits_def g prod.case option.case ml Let_def w4_def [symmetric] silent by simp
  then have "unicast_send_limited (token_msg (forwarded st)) (cfg_next (rs_config st))
      TOKEN_ACK_TIMEOUT_USEC TOKEN_ACK_MAX_ATTEMPTS w = None"
    by (simp add: unicast_send_limited_def assms(4) b)
  then show ?thesis unfolding ring_on_token_def token_out_eq by simp
qed

theorem silent_successor_blocks_the_node_witness:
  "ring_on_token ((sample_node 65 66 66 True)\<lparr>rs_have_token := True\<rparr>) (fresh_world []) = None"
proof (rule silent_successor_blocks_the_node)
  let ?st = "(sample_node 65 66 66 True)\<lparr>rs_have_token := True\<rparr>"
  show "resolve_next_addr (cfg_next (rs_config ?st)) (fresh_world []) = (0, node_addr 66, fresh_world [])"
    by (simp add: sample_resolve)
  show "wf_token (rs_token_in ?st)" "wf_token (rs_cli_pending ?st)"
    using sample_inv(2) [of 65 66 66] by (simp_all add: node_inv_parts)
qed (simp_all add: run_rudp)

section \<open>Messages of the local user\<close>

text \<open>
  C31: A message of the local user is lost when the token cannot be sent. It is taken out of the pending slot before the
  token goes out; when the address of the successor cannot be resolved the node keeps its old, free token
  for another attempt, but the message is in neither place any more and nothing was sent.
\<close>
theorem failed_send_loses_user_message:
  assumes "rs_have_token st" "rs_have_cli_pending st" "tk_is_empty (rs_token_in st)"
    and "resolve_next_addr (cfg_next (rs_config st)) w = (-1, a, w1)"
  shows "\<exists>st'. ring_on_token st w = Some (0, st', w1) \<and> rs_have_token st' \<and> rs_token_in st' = rs_token_in st
    \<and> \<not> rs_have_cli_pending st' \<and> tk_data (rs_cli_pending st') = replicate MAX_DATA_SIZE 0 \<and> w_sent w1 = w_sent w"
  using assms resolve_quiet(4) [OF assms(4)]
  by (auto simp: ring_on_token_def token_out_eq token_free_def unicast_send_limited_def clear_token_def)

theorem failed_send_loses_user_message_witness:
  "\<exists>st' w1. ring_on_token ((sample_node 65 66 66 True)\<lparr>rs_have_token := True, rs_token_in := zero_token\<lparr>tk_is_empty := True\<rparr>,
      rs_have_cli_pending := True\<rparr>) ((fresh_world [])\<lparr>w_pton := (\<lambda>_. (0, 0))\<rparr>) = Some (0, st', w1)
    \<and> rs_have_token st' \<and> \<not> rs_have_cli_pending st'"
proof -
  let ?st = "(sample_node 65 66 66 True)\<lparr>rs_have_token := True, rs_token_in := zero_token\<lparr>tk_is_empty := True\<rparr>, rs_have_cli_pending := True\<rparr>"
  let ?w = "(fresh_world [])\<lparr>w_pton := (\<lambda>_. (0, 0))\<rparr>"
  have "\<exists>a w1. resolve_next_addr (cfg_next (rs_config ?st)) ?w = (-1, a, w1)"
    by (simp add: resolve_next_addr_def fresh_world_def)
  then obtain a w1 where "resolve_next_addr (cfg_next (rs_config ?st)) ?w = (-1, a, w1)" by blast
  from failed_send_loses_user_message [OF _ _ _ this] show ?thesis by (simp add: zero_token_def) blast
qed

text \<open>
  C23: A message written by the user arrives whole, and replaces one that still waits. The bytes that the writer program puts
  into the FIFO are read back as a token with the text, receiver and sender it was given (cut to the
  field sizes); while the token the node knows is empty, the read goes over the pending slot without looking whether a message is
  waiting there.
\<close>
theorem user_message_reaches_the_node:
  assumes "writer_main [prog, msg, receiver] (Some sender) fd = Some b" and "wf_token (rs_cli_pending st)"
    and "in_cli inp" "in_fifo inp = Some b" "tk_is_empty (rs_token_in st)"
  shows "\<exists>t. handle_cli_if_ready inp st = (0, st\<lparr>rs_cli_pending := t, rs_have_cli_pending := True\<rparr>)
    \<and> c_str (tk_data t) = c_str msg \<and> c_str (tk_receiver t) = c_str receiver
    \<and> c_str (tk_sender t) = take 31 (c_str sender) \<and> \<not> tk_is_empty t \<and> b = bytes_of_token t"
proof -
  define t where "t = zero_token\<lparr>tk_is_empty := False, tk_topo_version := 0,
                tk_data := strncpy (tk_data zero_token) msg (MAX_DATA_SIZE - 1),
                tk_receiver := strncpy (tk_receiver zero_token) receiver (MAX_NODE_NAME_SIZE - 1),
                tk_sender := strncpy (tk_sender zero_token) sender (MAX_NODE_NAME_SIZE - 1)\<rparr>"
  have wf: "wf_token t" using wf_token_strncpy by (simp add: t_def)
  have len: "length (c_str msg) \<le> 255" "length (c_str receiver) \<le> 31" and b: "b = bytes_of_token t"
    using assms(1) by (auto simp: writer_main_def t_def Let_def strlen_def split: if_splits)
  have "cli_handle_read (in_fifo inp) (rs_cli_pending st) = (0, t)"
    unfolding assms(4) b by (rule cli_read_whole [OF wf assms(2)])
  with assms(3,5) b len show ?thesis
    by (intro exI [of _ t]) (auto simp: handle_cli_if_ready_def t_def zero_token_def c_str_strncpy_zero)
qed


text \<open>What \<open>select\<close> reports in a pass where only the FIFO is ready.\<close>

definition fifo_ready :: "bytes \<Rightarrow> iter_input" where
  "fifo_ready b = \<lparr>in_ret = 1, in_eintr = False, in_timeout_left = \<lparr>tv_sec = 0, tv_usec = 0\<rparr>, in_unicast = False,
     in_broadcast = False, in_cli = True, in_dgram = None, in_fifo = Some b\<rparr>"

theorem user_message_reaches_the_node_witness:
  "\<exists>b t. writer_main [[], [104, 105], [66]] (Some [65]) 3 = Some b
    \<and> handle_cli_if_ready (fifo_ready b) ((sample_node 65 66 66 True)\<lparr>rs_token_in := zero_token\<lparr>tk_is_empty := True\<rparr>, rs_have_cli_pending := True\<rparr>)
      = (0, (sample_node 65 66 66 True)\<lparr>rs_token_in := zero_token\<lparr>tk_is_empty := True\<rparr>, rs_cli_pending := t, rs_have_cli_pending := True\<rparr>)
    \<and> c_str (tk_data t) = [104, 105]"
proof -
  let ?st = "(sample_node 65 66 66 True)\<lparr>rs_token_in := zero_token\<lparr>tk_is_empty := True\<rparr>, rs_have_cli_pending := True\<rparr>"
  obtain b where b: "writer_main [[], [104, 105], [66]] (Some [65]) 3 = Some b"
    by (simp add: writer_main_def strlen_def c_str_id)
  have wf: "wf_token (rs_cli_pending ?st)" using sample_inv(1) [of 65 66 66 True] by (simp add: node_inv_parts)
  from user_message_reaches_the_node [OF b wf, of "fifo_ready b"] b show ?thesis
    by (auto simp: fifo_ready_def c_str_id)
qed

end
