(* ===== verification/Ring_System.thy ===== *)
theory Ring_System
  imports Exchange Node_Theorems
begin

unbundle bit_operations_syntax

text \<open>
  The ring as a whole: the hand-over of the token between two nodes, with \<open>ring_on_token\<close> on one side and the loop of
  \<open>handle_unicast_if_ready\<close> on the other, and a system of any number of nodes in which exactly one holds the token.
\<close>

section \<open>The hand-over of the token\<close>

lemma handle_token_inflight: "rs_join_inflight (handle_token_unicast st msg) = rs_join_inflight st"
  by (simp add: handle_token_unicast_def update_topology_on_token_def clear_pending_joins_on_token_def Let_def split: prod.split)

lemma maybe_complete_idle: "\<not> ji_active (rs_join_inflight st) \<Longrightarrow> join_fsm_maybe_complete st w = (st, w)"
  by (simp add: join_fsm_maybe_complete_def try_complete_eq join_ready_def)

text \<open>The loop over the waiting messages, when the only message around is one token: it is handled once, if at all.\<close>

lemma unicast_loop_once:
  assumes "unicast_loop st w = Some (0, st', w')" and "only_message a s p w" "rudp_inv w" "length p = sizeof_umsg"
    and "read_unicast_wire (umsg_of_bytes p) zero_umsg = (0, msg)" "um_type msg = UMSG_TOKEN" "\<not> ji_active (rs_join_inflight st)"
  shows "rudp_inv w' \<and> (\<exists>xs. w_sent w' = w_sent w @ xs)
    \<and> (if recv_bit w a = s
       then st' = handle_token_unicast st msg \<and> recv_bit w' a = s XOR 1
         \<or> st' = st \<and> w_sent w' = w_sent w
       else st' = st \<and> recv_bit w' a = recv_bit w a)"
  using assms(1-3,7)
proof (induction "work w" arbitrary: st w rule: less_induct)
  case less
  obtain rc b src w1 where r: "rudp_recvfrom sizeof_umsg zero_addr w = (rc, b, src, w1)" by (metis prod_cases4)
  note one = receive_once [OF r less.prems(2,3) assms(4)]
  show ?case
  proof (cases "rc = 0")
    case False
    then have "unicast_recv zero_umsg w = (rc, zero_umsg, w1)" using r by (simp add: unicast_recv_def)
    with less.prems(1) have "rc > 0" "st' = st" "w' = w1"
      using False by (subst (asm) unicast_loop.simps, auto split: if_splits)+
    with one False show ?thesis by auto
  next
    case True
    with one(4) have b: "b = p" "recv_bit w a = s" "recv_bit w1 a = s XOR 1" by auto
    let ?st1 = "handle_token_unicast st msg"
    have recv: "unicast_recv zero_umsg w = (0, msg, w1)"
      using r True b(1) assms(5) by (simp add: unicast_recv_def)
    have disp: "unicast_dispatch_message st msg w1 = Some (0, ?st1, w1)" using assms(6) by (simp add: unicast_dispatch_message_def)
    have idle: "\<not> ji_active (rs_join_inflight ?st1)" using less.prems(4) by (simp add: handle_token_inflight)
    have eq: "unicast_loop st w = (if rudp_has_pending w1 then unicast_loop ?st1 w1 else Some (0, ?st1, w1))"
      by (subst unicast_loop.simps) (simp add: recv disp maybe_complete_idle [OF idle])
    show ?thesis
    proof (cases "rudp_has_pending w1")
      case False
      with eq less.prems(1) have "st' = ?st1" "w' = w1" by simp_all
      with one(1,3) b show ?thesis by auto
    next
      case more: True
      have "work w1 < work w" using receive_work(2) [OF r] True by simp
      from less.hyps [OF this _ one(2,1) idle] eq more less.prems(1) have
        "rudp_inv w'" "\<exists>xs. w_sent w' = w_sent w1 @ xs" "st' = ?st1" "recv_bit w' a = s XOR 1"
        using b(3) flip_differs by auto
      with one(3) b(2) show ?thesis by auto
    qed
  qed
qed

lemma join_begins_token:
  assumes "handle_token_if_ready st w = Some (rc, st', w')" and "node_inv st" "0 < js_count (rs_join_state st)"
  shows "rs_have_token st' = rs_have_token st"
proof (cases "rs_joined st \<and> rs_have_token st \<and> \<not> ji_active (rs_join_inflight st)")
  case False
  with assms(1) show ?thesis by (auto simp: handle_token_if_ready_def split: if_splits)
next
  case True
  have inv: "join_inv (rs_join_state st)" using assms(2) by (simp add: node_inv_parts)
  obtain p js where pop: "pop_oldest_pending_join (rs_join_state st) = (p, js)" by fastforce
  have njs: "node_inv (st\<lparr>rs_join_state := js\<rparr>)"
    using assms(2) join_inv_pop [OF inv pop] by (simp add: node_inv_parts)
  show ?thesis
  proof (cases p)
    case None
    with assms(1,3) True pop show ?thesis by (auto simp: handle_token_if_ready_def)
  next
    case (Some pj)
    let ?st1 = "join_fsm_start_inflight (st\<lparr>rs_join_state := js\<rparr>) pj"
    have n1: "node_inv ?st1"
      using njs True wf_popped(1) [OF inv] pop Some by (intro start_inflight_keeps) auto
    from inflight_tick_keeps [OF n1, of w] obtain st2 w2 where
      t: "join_fsm_inflight_tick ?st1 w = Some (0, st2, w2)" "same_role ?st1 st2" by blast
    then have "st' = st2" using assms(1,3) True pop Some by (simp add: handle_token_if_ready_def)
    with t(2) show ?thesis by (simp add: same_role_def join_fsm_start_inflight_def Let_def)
  qed
qed

text \<open>A node gives its token up only to the transmission, with no join in flight.\<close>

lemma token_given_up:
  assumes "handle_token_if_ready st w = Some (rc, st', w')" and "node_inv st" "rs_have_token st" "\<not> rs_have_token st'"
  shows "ring_on_token st w = Some (0, st', w') \<and> \<not> ji_active (rs_join_inflight st)"
proof -
  have "\<not> 0 < js_count (rs_join_state st)" using join_begins_token [OF assms(1,2)] assms(3,4) by auto
  moreover have "rs_joined st" "\<not> ji_active (rs_join_inflight st)"
    using assms by (auto simp: handle_token_if_ready_def split: if_splits)
  ultimately obtain r st1 w1 where o: "ring_on_token st w = Some (r, st1, w1)"
    "(rc, st', w') = (if r < 0 then (-1, st1, w1) else (0, st1, w1))"
    using assms(1,3) by (auto simp: handle_token_if_ready_def bind_eq_Some_conv split: if_splits)
  with on_token_keeps(1) [OF o(1) assms(2)] \<open>\<not> ji_active (rs_join_inflight st)\<close> show ?thesis by simp
qed

lemma unicast_ready_once:
  assumes "handle_unicast_if_ready inp st w = Some (0, st', w')" and "only_message a s p w" "rudp_inv w" "length p = sizeof_umsg"
    and "read_unicast_wire (umsg_of_bytes p) zero_umsg = (0, msg)" "um_type msg = UMSG_TOKEN" "\<not> ji_active (rs_join_inflight st)"
    and "recv_bit w a = s"
  shows "rudp_inv w' \<and> (\<exists>xs. w_sent w' = w_sent w @ xs)
    \<and> (st' = handle_token_unicast st msg \<and> recv_bit w' a = s XOR 1 \<or> st' = st \<and> w_sent w' = w_sent w)"
  using assms(1,3,8) unicast_loop_once [OF _ assms(2-7)] by (auto simp: handle_unicast_if_ready_def split: if_splits)

text \<open>
  The two sides of a hand-over from the node \<open>i\<close> at the address \<open>a\<close> to the node \<open>j\<close> at \<open>b\<close>: the token handler of one pass of \<open>i\<close>, which ends
  with the token given up, and the handler of unicast messages of a pass of \<open>j\<close>. The receiver is in the ring and
  without the token, agrees on the bit and has no message waiting; its handler does not fail; no datagram outlives the exchange.
\<close>

definition handover :: "iter_input \<Rightarrow> sockaddr_in \<Rightarrow> sockaddr_in \<Rightarrow> ring_state \<times> world \<Rightarrow> ring_state \<times> world
    \<Rightarrow> ring_state \<times> world \<Rightarrow> ring_state \<times> world \<Rightarrow> sock_event list \<Rightarrow> sock_event list \<Rightarrow> bool" where
  "handover inp a b i j i' j' si sj \<longleftrightarrow>
     rs_have_token (fst i) \<and> \<not> rs_have_token (fst i')
     \<and> handle_token_if_ready (fst i) ((snd i)\<lparr>w_script := si\<rparr>) = Some (0, i')
     \<and> fst (snd (resolve_next_addr (cfg_next (rs_config (fst i))) ((snd i)\<lparr>w_script := si\<rparr>))) = b
     \<and> rs_joined (fst j) \<and> \<not> rs_have_token (fst j)
     \<and> handle_unicast_if_ready inp (fst j) ((snd j)\<lparr>w_script := sj\<rparr>) = Some (0, j')
     \<and> send_bit (snd i) b = recv_bit (snd j) a \<and> \<not> rudp_has_pending (snd j)
     \<and> carried a b (snd i) (snd i') sj \<and> carried b a (snd j) (snd j') si"

lemma token_sent:
  assumes "ring_on_token st w = Some (0, st', w')" and "rs_have_token st" "\<not> rs_have_token st'"
  obtains addr w1 wire where "resolve_next_addr (cfg_next (rs_config st)) w = (0, addr, w1)"
    "build_unicast_wire (token_msg (forwarded st)) = Some wire"
    "rudp_sendto_with_limits (bytes_of_umsg wire) addr TOKEN_ACK_TIMEOUT_USEC TOKEN_ACK_MAX_ATTEMPTS w1 = Some (0, w')"
    "st' = (if rs_have_cli_pending st \<and> token_free st
       then st\<lparr>rs_have_cli_pending := False, rs_cli_pending := clear_token (rs_cli_pending st)\<rparr> else st)
       \<lparr>rs_have_token := False, rs_token_in := zero_token\<rparr>"
proof -
  define st1 where "st1 = (if rs_have_cli_pending st \<and> token_free st
     then st\<lparr>rs_have_cli_pending := False, rs_cli_pending := clear_token (rs_cli_pending st)\<rparr> else st)"
  have st1: "cfg_next (rs_config st1) = cfg_next (rs_config st)" "rs_have_token st1" using assms(2) by (auto simp: st1_def)
  obtain r w2 where s: "unicast_send_limited (token_msg (forwarded st)) (cfg_next (rs_config st))
      TOKEN_ACK_TIMEOUT_USEC TOKEN_ACK_MAX_ATTEMPTS w = Some (r, w2)"
    and res: "(0, st', w') = (if r < 0 then (0, st1, w2) else (0 :: int, st1\<lparr>rs_have_token := False, rs_token_in := zero_token\<rparr>, w2))"
    using assms(1) unfolding ring_on_token_def token_out_eq prod.case st1_def [symmetric] st1(1)
    by (auto simp: bind_eq_Some_conv split: if_splits)
  with assms(3) st1(2) have r: "\<not> r < 0" "w' = w2" "st' = st1\<lparr>rs_have_token := False, rs_token_in := zero_token\<rparr>"
    by (auto split: if_splits)
  obtain r1 addr w1 where rv: "resolve_next_addr (cfg_next (rs_config st)) w = (r1, addr, w1)" by (metis prod_cases3)
  have "r1 = 0 \<or> r1 = -1" using rv by (auto simp: resolve_next_addr_def Let_def split: prod.splits if_splits option.splits)
  with s rv r(1) obtain wire where wire: "r1 = 0" "build_unicast_wire (token_msg (forwarded st)) = Some wire"
    "rudp_sendto_with_limits (bytes_of_umsg wire) addr TOKEN_ACK_TIMEOUT_USEC TOKEN_ACK_MAX_ATTEMPTS w1 = Some (r, w')"
    unfolding r(2) by (auto simp: unicast_send_limited_def split: option.splits)
  moreover from rudp_sendto_meets_spec [OF this(3)] r(1) have "r = 0" by (auto simp: send_spec_def)
  ultimately show ?thesis using that rv r(3) unfolding st1_def by blast
qed

lemma token_taken:
  assumes "wf_token t" and "rs_joined st"
  shows "rs_have_token (handle_token_unicast st (token_msg t))" "rs_token_in (handle_token_unicast st (token_msg t)) = t"
  using assms by (auto simp: handle_token_unicast_def token_received [OF assms(1)] Let_def update_topology_on_token_def
      clear_pending_joins_on_token_def split: prod.splits)

lemma forwarded_wf: "node_inv st \<Longrightarrow> wf_token (forwarded st)"
  by (simp add: forwarded_def node_inv_parts)

lemma handover_spec:
  assumes "handover inp a b i j i' j' si sj" and "node_inv (fst i)" "node_inv (fst j)" "rudp_inv (snd i)" "rudp_inv (snd j)"
  shows "fst j' = handle_token_unicast (fst j) (token_msg (forwarded (fst i)))"
    "send_bit (snd i') b = recv_bit (snd j') a" "rudp_inv (snd i')" "rudp_inv (snd j')"
proof -
  let ?wi = "(snd i)\<lparr>w_script := si\<rparr>" and ?wj = "(snd j)\<lparr>w_script := sj\<rparr>" and ?s = "send_bit (snd i) b"
  have h: "rs_have_token (fst i)" "\<not> rs_have_token (fst i')" "handle_token_if_ready (fst i) ?wi = Some (0, fst i', snd i')"
    "fst (snd (resolve_next_addr (cfg_next (rs_config (fst i))) ?wi)) = b" "rs_joined (fst j)"
    "\<not> rs_have_token (fst j)" "handle_unicast_if_ready inp (fst j) ?wj = Some (0, fst j', snd j')"
    "?s = recv_bit (snd j) a" "\<not> rudp_has_pending (snd j)" "carried a b (snd i) (snd i') sj" "carried b a (snd j) (snd j') si"
    using assms(1) by (simp_all add: handover_def)
  have idle: "\<not> ji_active (rs_join_inflight (fst j))" using h(6) assms(3) by (simp add: node_inv_parts)
  from token_sent [OF conjunct1 [OF token_given_up [OF h(3) assms(2) h(1,2)]] h(1,2)] obtain w1 wire where
    res: "resolve_next_addr (cfg_next (rs_config (fst i))) ?wi = (0, b, w1)"
    and wire: "build_unicast_wire (token_msg (forwarded (fst i))) = Some wire"
    and send: "rudp_sendto_with_limits (bytes_of_umsg wire) b TOKEN_ACK_TIMEOUT_USEC TOKEN_ACK_MAX_ATTEMPTS w1 = Some (0, snd i')"
    using h(4) by (metis fst_conv snd_conv)
  let ?p = "bytes_of_umsg wire" and ?msg = "token_msg (forwarded (fst i))"
  note rq = resolve_quiet [OF res]
  note wf = forwarded_wf [OF assms(2)]
  have "length (bytes_of_token (forwarded (fst i))) \<le> 512" using token_fmt.length_enc [OF wf] by simp
  from mk_umsg_roundtrip [OF this, of UMSG_TOKEN] wire
  have read: "read_unicast_wire (umsg_of_bytes ?p) zero_umsg = (0, ?msg)" by (simp add: token_msg_def)
  have len: "length ?p = sizeof_umsg"
    using wire by (auto simp: build_unicast_wire_def bytes_of_umsg_def zero_umsg_def overlay_def split: if_splits)
  have spec: "send_spec ?p b w1 0 (snd i')" by (rule rudp_sendto_meets_spec [OF send])
  then obtain xs where xs: "w_sent (snd i') = w_sent (snd i) @ xs" "\<forall>x\<in>set xs. send_traffic b ?p ?s x"
    and bit: "send_bit (snd i') b = ?s XOR 1" and ack: "arrivals si \<noteq> {}"
    using rq(1,3,4) by (auto simp: send_spec_def)
  have "rudp_inv w1" using world_step_resolve [OF res] assms(4) by (simp add: world_step_def)
  with spec show "rudp_inv (snd i')" by (simp add: send_spec_def)
  have only: "only_message a ?s ?p ?wj"
    using only_message_carried [OF h(9,10) xs] len by simp
  from unicast_ready_once [OF h(7) only _ len read token_received(3) [OF wf] idle] assms(5) h(8) obtain ys where
    "rudp_inv (snd j')" and ys: "w_sent (snd j') = w_sent (snd j) @ ys"
    and out: "fst j' = handle_token_unicast (fst j) ?msg \<and> recv_bit (snd j') a = ?s XOR 1
      \<or> fst j' = fst j \<and> w_sent (snd j') = w_sent (snd j)" by auto
  then show "rudp_inv (snd j')" by simp
  have "ys \<noteq> []" using ack acked_by [OF h(11) ys] by blast
  with out ys have "fst j' = handle_token_unicast (fst j) ?msg" "recv_bit (snd j') a = ?s XOR 1" by auto
  with bit show "fst j' = handle_token_unicast (fst j) ?msg" "send_bit (snd i') b = recv_bit (snd j') a" by auto
qed

text \<open>
  C2: The token is handed over exactly once. When a node gives its token up to a successor in the ring, over a network where no datagram
  outlives the exchange, the successor holds the token the sender forwarded, whatever was lost, duplicated or reordered on the way: it has
  handled the message once, and the sender holds none. Both agree on the bit of the next exchange.
\<close>
theorem token_is_handed_over_once:
  assumes "handover inp a b i j i' j' si sj" and "node_inv (fst i)" "node_inv (fst j)" "rudp_inv (snd i)" "rudp_inv (snd j)"
  shows "\<not> rs_have_token (fst i') \<and> rs_have_token (fst j') \<and> rs_token_in (fst j') = forwarded (fst i)
    \<and> fst j' = handle_token_unicast (fst j) (token_msg (forwarded (fst i))) \<and> send_bit (snd i') b = recv_bit (snd j') a"
  using handover_spec [OF assms] token_taken [OF forwarded_wf [OF assms(2)]] assms(1) by (simp add: handover_def)

section \<open>The system\<close>













section \<open>A ring of two nodes\<close>

lemma fresh_script [simp]: "(fresh_world evs)\<lparr>w_script := evs'\<rparr> = fresh_world evs'"
  by (simp add: fresh_world_def)

lemma fresh_bits [simp]: "send_bit (fresh_world evs) x = 0" "recv_bit (fresh_world evs) x = 0" "w_sent (fresh_world evs) = []"
  "\<not> rudp_has_pending (fresh_world evs)"
  by (simp_all add: send_bit_def recv_bit_def peer_bit_def rudp_has_pending_def run_rudp)

lemma message_sent:
  assumes "rudp_sendto_with_limits p b tmo m (fresh_world evs) = Some (0, w')"
  shows "(b, mk_frame MESSAGE 0 p) \<in> set (w_sent w')"
proof -
  let ?f = "mk_frame MESSAGE 0 p"
  from rudp_sendto_meets_spec [OF assms] have spec: "\<forall>x\<in>set (w_sent w'). send_traffic b p 0 x"
    "copies ?f (fresh_world evs) < copies ?f w'" by (auto simp: send_spec_def)
  from spec(2) have "filter (\<lambda>x. snd x = ?f) (w_sent w') \<noteq> []" by (auto simp: copies_def)
  then obtain x where x: "x \<in> set (w_sent w')" "snd x = ?f" by (auto simp: filter_empty_conv)
  with spec(1) have "send_traffic b p 0 x" by blast
  with x(2) have "x = (b, ?f)" by (auto simp: send_traffic_def is_ack_def mk_frame_differ)
  with x(1) show ?thesis by simp
qed

text \<open>A message that arrives at a fresh node, whole and alone.\<close>

lemma sample_received:
  assumes "length p = 516"
  shows "\<exists>w'. rudp_recvfrom 516 zero_addr (fresh_world [Arrived (node_addr n) (mk_frame MESSAGE 0 p)]) = (0, p, node_addr n, w')
    \<and> (node_addr n, mk_frame ACK 0 []) \<in> set (w_sent w') \<and> \<not> rudp_has_pending w'"
proof -
  have pay: "buf_read (buf_write b (0 # 0 # 0 # 0 # 0 # 0 # 0 # 0 # p)) 8 516 = p" for b
    using assms by (subst buf_read_write) (simp_all add: field_def)
  have seq: "buf_write b (0 # 0 # 0 # 0 # 0 # 0 # 0 # 0 # p) 4 = 0" for b by (simp add: buf_write_def)
  show ?thesis
    using assms by (simp add: recvfrom_loop.simps pay seq Let_def mk_frame_def get_peer_def
      pending_take_frame_def pending_take_message_any_def send_ack_frame_def sendto_def gettimeofday_def wait_for_frame_def
      receive_message_frame_def flip_expected_bit_def rudp_recvfrom_def numeral_3_eq_3 fresh_world_def node_addr_def
      rudp_has_pending_def)
qed

definition sample_holder :: "ring_state \<times> world" where
  "sample_holder = ((sample_node 65 66 66 True)\<lparr>rs_have_token := True\<rparr>, fresh_world [])"

definition sample_other :: "ring_state \<times> world" where
  "sample_other = (sample_node 66 65 65 True, fresh_world [])"

definition socket_ready :: iter_input where
  "socket_ready = \<lparr>in_ret = 1, in_eintr = False, in_timeout_left = \<lparr>tv_sec = 0, tv_usec = 0\<rparr>, in_unicast = True,
     in_broadcast = False, in_cli = False, in_dgram = None, in_fifo = None\<rparr>"

lemma sample_pair:
  "node_inv (fst sample_holder)" "node_inv (fst sample_other)" "rudp_inv (snd sample_holder)" "rudp_inv (snd sample_other)"
  "rs_have_token (fst sample_holder)" "\<not> rs_have_token (fst sample_other)"
  by (simp_all add: sample_holder_def sample_other_def sample_inv rudp_inv_fresh)

lemma sample_taken:
  assumes "wf_token t" "build_unicast_wire (token_msg t) = Some wire"
  shows "\<exists>j' wj. handle_unicast_if_ready socket_ready (fst sample_other)
        (fresh_world [Arrived (node_addr 65) (mk_frame MESSAGE 0 (bytes_of_umsg wire))]) = Some (0, j', wj)
    \<and> rs_have_token j' \<and> (node_addr 65, mk_frame ACK 0 []) \<in> set (w_sent wj)"
proof -
  let ?p = "bytes_of_umsg wire" and ?j = "sample_node 66 65 65 True"
  have len: "length ?p = 516"
    using assms(2) by (auto simp: build_unicast_wire_def bytes_of_umsg_def zero_umsg_def overlay_def split: if_splits)
  obtain wj where recv: "rudp_recvfrom 516 zero_addr (fresh_world [Arrived (node_addr 65) (mk_frame MESSAGE 0 ?p)]) = (0, ?p, node_addr 65, wj)"
    "(node_addr 65, mk_frame ACK 0 []) \<in> set (w_sent wj)" "\<not> rudp_has_pending wj" using sample_received [OF len] by blast
  have "length (bytes_of_token t) \<le> 512" using token_fmt.length_enc [OF assms(1)] by simp
  from mk_umsg_roundtrip [OF this, of UMSG_TOKEN] assms(2)
  have read: "read_unicast_wire (umsg_of_bytes ?p) zero_umsg = (0, token_msg t)" by (simp add: token_msg_def)
  have "\<not> ji_active (rs_join_inflight (handle_token_unicast ?j (token_msg t)))" by (simp add: handle_token_inflight zero_inflight_def)
  then have "handle_unicast_if_ready socket_ready (fst sample_other) (fresh_world [Arrived (node_addr 65) (mk_frame MESSAGE 0 ?p)])
      = Some (0, handle_token_unicast ?j (token_msg t), wj)"
    using recv read by (simp add: handle_unicast_if_ready_def socket_ready_def sample_other_def)
      (simp add: unicast_loop.simps unicast_recv_def unicast_dispatch_message_def token_received [OF assms(1)] maybe_complete_idle)
  with recv(2) token_taken(1) [OF assms(1), of ?j] show ?thesis by simp
qed

lemma sample_handover:
  "\<exists>i' j' si sj. handover socket_ready (node_addr 65) (node_addr 66) sample_holder sample_other i' j' si sj"
proof -
  let ?st = "fst sample_holder"
  let ?si = "[Arrived (node_addr 66) (mk_frame ACK 0 [])]"
  have wf: "wf_token (forwarded ?st)" by (rule forwarded_wf [OF sample_pair(1)])
  obtain st' w' where on: "ring_on_token ?st (fresh_world ?si) = Some (0, st', w')" "\<not> rs_have_token st'"
    using sample_token_sent [OF wf, of 66 "[]"] by (auto simp: sample_holder_def)
  have tok: "handle_token_if_ready ?st (fresh_world ?si) = Some (0, st', w')"
    using on by (simp add: handle_token_if_ready_def zero_inflight_def zero_join_state_def sample_holder_def)
  from token_sent [OF on(1) sample_pair(5) on(2)] obtain wire where
    wire: "build_unicast_wire (token_msg (forwarded ?st)) = Some wire"
    and send: "rudp_sendto_with_limits (bytes_of_umsg wire) (node_addr 66) TOKEN_ACK_TIMEOUT_USEC TOKEN_ACK_MAX_ATTEMPTS
        (fresh_world ?si) = Some (0, w')"
    by (auto simp: sample_resolve sample_holder_def)
  from sample_taken [OF wf wire] obtain j' wj where
    "handle_unicast_if_ready socket_ready (fst sample_other) (fresh_world [Arrived (node_addr 65) (mk_frame MESSAGE 0 (bytes_of_umsg wire))])
      = Some (0, j', wj)" "(node_addr 65, mk_frame ACK 0 []) \<in> set (w_sent wj)" by blast
  with tok on(2) message_sent [OF send] have "handover socket_ready (node_addr 65) (node_addr 66) sample_holder sample_other
      (st', w') (j', wj) ?si [Arrived (node_addr 65) (mk_frame MESSAGE 0 (bytes_of_umsg wire))]"
    by (simp add: handover_def sample_holder_def sample_other_def sample_resolve carried_def)
  then show ?thesis by blast
qed

theorem token_is_handed_over_once_witness:
  "\<exists>i' j' si sj. handover socket_ready (node_addr 65) (node_addr 66) sample_holder sample_other i' j' si sj
    \<and> \<not> rs_have_token (fst i') \<and> rs_have_token (fst j')"
proof -
  obtain i' j' si sj where h: "handover socket_ready (node_addr 65) (node_addr 66) sample_holder sample_other i' j' si sj"
    using sample_handover by blast
  with token_is_handed_over_once [OF h sample_pair(1-4)] show ?thesis by blast
qed


section \<open>Two tokens\<close>

text \<open>A send to the node \<open>n\<close> whose message is acknowledged, in a world where every transmission after it fails.\<close>

lemma acked_send_fails:
  assumes "length b \<le> 65527"
  shows "\<exists>w'. rudp_sendto_with_limits b (node_addr n) tmo m
      ((fresh_world [Arrived (node_addr n) (mk_frame ACK 0 [])])\<lparr>w_send_ok := (\<lambda>k. k < 2)\<rparr>) = Some (-1, w')
    \<and> (node_addr n, mk_frame MESSAGE 0 b) \<in> set (w_sent w')"
  using assms by (cases "tmo > 0") (simp_all add: run_rudp rudp_sendto_with_limits_def retry_loop.simps)

text \<open>
  C26: Two nodes can hold the token. The message of the holder arrives, the successor takes the token and acknowledges it, and the
  acknowledgement arrives; but then the transmission of an ACK_ACK fails. The send counts as failed, so the holder keeps its token too.
\<close>
theorem token_can_be_doubled:
  "\<exists>st' w' f j' wj. ring_on_token (fst sample_holder)
      ((fresh_world [Arrived (node_addr 66) (mk_frame ACK 0 [])])\<lparr>w_send_ok := (\<lambda>k. k < 2)\<rparr>) = Some (0, st', w')
    \<and> rs_have_token st' \<and> (node_addr 66, f) \<in> set (w_sent w')
    \<and> handle_unicast_if_ready socket_ready (fst sample_other) (fresh_world [Arrived (node_addr 65) f]) = Some (0, j', wj)
    \<and> rs_have_token j' \<and> (node_addr 65, mk_frame ACK 0 []) \<in> set (w_sent wj)"
proof -
  let ?st = "fst sample_holder"
  let ?w = "(fresh_world [Arrived (node_addr 66) (mk_frame ACK 0 [])])\<lparr>w_send_ok := (\<lambda>k. k < 2)\<rparr>"
  have wf: "wf_token (forwarded ?st)" by (rule forwarded_wf [OF sample_pair(1)])
  obtain wire where wire: "build_unicast_wire (token_msg (forwarded ?st)) = Some wire" using token_wire [OF wf] by blast
  let ?f = "mk_frame MESSAGE 0 (bytes_of_umsg wire)"
  have len: "length (bytes_of_umsg wire) = 516"
    using wire by (auto simp: build_unicast_wire_def bytes_of_umsg_def zero_umsg_def overlay_def split: if_splits)
  obtain w' where s: "rudp_sendto_with_limits (bytes_of_umsg wire) (node_addr 66) TOKEN_ACK_TIMEOUT_USEC TOKEN_ACK_MAX_ATTEMPTS ?w
      = Some (-1, w')" "(node_addr 66, ?f) \<in> set (w_sent w')" using acked_send_fails [of "bytes_of_umsg wire" 66] len by fastforce
  have res: "resolve_next_addr (sample_route 66) ?w = (0, node_addr 66, ?w)"
    by (simp add: resolve_next_addr_def fresh_world_def node_addr_def c_str_pad_name)
  have on: "\<exists>st'. ring_on_token ?st ?w = Some (0, st', w') \<and> rs_have_token st'"
    using s(1) wire by (simp add: ring_on_token_def token_out_eq unicast_send_limited_def res sample_holder_def)
  from sample_taken [OF wf wire] obtain j' wj where
    "handle_unicast_if_ready socket_ready (fst sample_other) (fresh_world [Arrived (node_addr 65) ?f]) = Some (0, j', wj)"
    "rs_have_token j'" "(node_addr 65, mk_frame ACK 0 []) \<in> set (w_sent wj)" by blast
  with on s(2) show ?thesis by blast
qed

end
