(* ===== verification/Startup.thy ===== *)
theory Startup
  imports Node_Props
begin

text \<open>
  How a node starts: the socket of \<open>unicast.c\<close>, the FIFO of \<open>cli.c\<close>, \<open>ring_initialize\<close> of \<open>ring.c\<close> and \<open>main\<close> of
  \<open>core.c\<close>. What the system answers to the calls on the way is the record \<open>startup\<close>.
\<close>

record startup =
  su_unicast_fd :: int \<comment> \<open>\<open>socket\<close> for the unicast socket\<close>
  su_bind :: "sockaddr_in \<Rightarrow> bool" \<comment> \<open>\<open>bind\<close> of that socket\<close>
  su_broadcast_fd :: int \<comment> \<open>\<open>socket\<close> for the broadcast socket\<close>
  su_opt_broadcast :: bool
  su_opt_reuse :: bool
  su_bind_broadcast :: bool
  su_interfaces :: "ifaddr list option" \<comment> \<open>\<open>getifaddrs\<close>\<close>
  su_mkfifo_ok :: bool
  su_fifo_exists :: bool \<comment> \<open>\<open>errno == EEXIST\<close> after a failing \<open>mkfifo\<close>\<close>
  su_fifo_fd :: int \<comment> \<open>\<open>open\<close> of the FIFO\<close>
  su_urandom :: "u32 option"
  su_time :: "int \<times> int" \<comment> \<open>\<open>gettimeofday\<close> in \<open>gen_request_id\<close>\<close>
  su_pid :: u32
  su_timeout :: timeval \<comment> \<open>the uninitialised variable of \<open>ring_run\<close>\<close>

record descriptors =
  unicast_socket :: int
  broadcast_socket :: int
  cli_fd :: int

section \<open>Sockets and the FIFO\<close>

definition unicast_setup_socket :: "int \<Rightarrow> (sockaddr_in \<Rightarrow> bool) \<Rightarrow> route \<Rightarrow> int" where
  "unicast_setup_socket sock_fd bind_ok current =
     (if sock_fd = -1 then -1
      else let host_addr = \<lparr>sin_family = AF_INET, sin_port = htons (unicast_port current), sin_addr = 0\<rparr> in
        if \<not> bind_ok host_addr then -1 else sock_fd)"

definition cli_setup_reader :: "bool \<Rightarrow> bool \<Rightarrow> int \<Rightarrow> int" where
  "cli_setup_reader mkfifo_ok eexist fd =
     (if \<not> mkfifo_ok \<and> \<not> eexist then -1 else if fd < 0 then -1 else fd)"

definition cli_setup_writer :: "bool \<Rightarrow> bool \<Rightarrow> int \<Rightarrow> int" where
  "cli_setup_writer mkfifo_ok eexist fd =
     (if \<not> mkfifo_ok \<and> \<not> eexist then -1 else if fd < 0 then -1 else fd)"

section \<open>The node\<close>

text \<open>The descriptors are written only after everything has succeeded.\<close>

definition ring_initialize ::
    "startup \<Rightarrow> (string \<Rightarrow> bytes option) \<Rightarrow> route_config \<Rightarrow> descriptors \<Rightarrow> bool \<Rightarrow> world
      \<Rightarrow> int \<times> route_config \<times> descriptors \<times> world" where
  "ring_initialize su env config ds joined w =
     (case fill_config_from_env env config joined of
        None \<Rightarrow> (-1, config, ds, w)
      | Some config \<Rightarrow>
          let ufd = unicast_setup_socket (su_unicast_fd su) (su_bind su) (cfg_current config) in
          if ufd < 0 then (-1, config, ds, w)
          else case broadcast_setup_socket (su_broadcast_fd su) (su_opt_broadcast su) (su_opt_reuse su)
                      (su_bind_broadcast su) (su_interfaces su) (cfg_current config) w of
            (bfd, w1) \<Rightarrow>
              if bfd < 0 then (-1, config, ds, w1)
              else let cfd = cli_setup_reader (su_mkfifo_ok su) (su_fifo_exists su) (su_fifo_fd su) in
                if cfd < 0 then (-1, config, ds, w1)
                else (0, config, \<lparr>unicast_socket = ufd, broadcast_socket = bfd, cli_fd = cfd\<rparr>, w1))"

text \<open>
  \<open>main\<close> up to the end of the passes it is given: it has ended with an exit code, or still runs. \<open>None\<close> is a pass that does
  not return.
\<close>

datatype core_result = Exit_success | Exit_failure | Running ring_state timeval world

definition core_main ::
    "startup \<Rightarrow> (string \<Rightarrow> bytes option) \<Rightarrow> bytes list \<Rightarrow> iter_input list \<Rightarrow> world \<Rightarrow> core_result option" where
  "core_main su env argv inps w =
     (if length argv \<noteq> 2 then Some Exit_failure
      else
        let joined = (c_int (atoi (argv ! 1)) \<noteq> 0);
            config = \<lparr>cfg_current = zero_route, cfg_prev = zero_route, cfg_next = zero_route\<rparr>;
            ds = \<lparr>unicast_socket = 0, broadcast_socket = 0, cli_fd = 0\<rparr> in
        case ring_initialize su env config ds joined w of
          (rc, config, ds, w1) \<Rightarrow>
            if rc < 0 then Some Exit_failure
            else
              let fresh_id = gen_request_id (su_urandom su) (fst (su_time su)) (snd (su_time su)) (su_pid su);
                  should_start = (env ''SHOULD_START'' \<noteq> None) in
              (case ring_run config (broadcast_socket ds) joined fresh_id should_start (su_timeout su) inps w1 of
                 None \<Rightarrow> None
               | Some (Continue st t w') \<Rightarrow> Some (Running st t w')
               | Some (Return rc st w') \<Rightarrow> Some (if rc < 0 then Exit_failure else Exit_success)))"

section \<open>Lemmas\<close>

lemma setup_nonneg:
  "0 \<le> unicast_setup_socket fd bind_ok r \<Longrightarrow> unicast_setup_socket fd bind_ok r = fd"
  "0 \<le> cli_setup_reader a b fd \<Longrightarrow> cli_setup_reader a b fd = fd"
  by (auto simp: unicast_setup_socket_def cli_setup_reader_def Let_def split: if_splits)

text \<open>The broadcast targets of a configured port.\<close>

definition targets_of :: "u16 \<Rightarrow> broadcast_target list \<Rightarrow> bool" where
  "targets_of port ts \<longleftrightarrow> length ts \<le> 16
     \<and> (\<forall>t\<in>set ts. sin_family (bt_addr t) = AF_INET \<and> sin_port (bt_addr t) = htons port)"

lemma target_of_addr: "target_of port ifa = Some t \<Longrightarrow> sin_family (bt_addr t) = AF_INET \<and> sin_port (bt_addr t) = htons port"
  by (auto simp: target_of_def mk_target_def split: option.splits if_splits)

lemma in_map_filter: "t \<in> set (List.map_filter g xs) \<Longrightarrow> \<exists>x. g x = Some t"
  by (auto simp: List.map_filter_def)

lemma collected_targets: "targets_of port (collect_loop port 16 ifas [])"
  using collect_loop_spec [of "[]" 16 port ifas]
  by (auto simp: targets_of_def dest!: in_set_takeD in_map_filter dest: target_of_addr)

lemma setup_broadcast:
  assumes "broadcast_setup_socket fd a b c ifas cur w = (rc, w')"
  shows "0 \<le> rc \<Longrightarrow> rc = fd \<and> targets_of (broadcast_port cur) (w_targets w')" "w' = w\<lparr>w_targets := w_targets w'\<rparr>"
  using assms collected_targets [of "broadcast_port cur"]
  by (auto simp: broadcast_setup_socket_def broadcast_collect_targets_def Let_def split: if_splits option.splits)

lemma rudp_inv_targets [simp]: "rudp_inv (w\<lparr>w_targets := ts\<rparr>) = rudp_inv w"
  by (simp add: rudp_inv_def)

text \<open>The number of a join request is never 0, the value that stands for no request.\<close>

lemma gen_request_id_nonzero: "gen_request_id u s us pid \<noteq> 0"
  by (auto simp: gen_request_id_def Let_def split: option.split)

end
