(* ===== verification/Spec2Isabelle.thy ===== *)
theory Spec2Isabelle
  imports Ring_System Startup
begin

text \<open>
  A verification of the token ring over UDP in \<open>src/src\<close>.

  \<^bold>\<open>The program.\<close> Every node of the ring runs \<open>core.c\<close>: it reads its configuration from the environment, opens a
  unicast socket, a broadcast socket and a FIFO (\<open>ring_initialize\<close>) and enters the event loop \<open>ring_run\<close> of \<open>ring.c\<close>. A token goes round the ring;
  it carries at most one message of a user, who hands it to the local node with \<open>writer.c\<close>. A node outside the ring broadcasts JOIN_REQUEST until a node
  with the token takes it in: that node sends JOIN_ACCEPT to the joiner and to its own predecessor, waits for both JOIN_ACKs, makes the joiner its
  predecessor and broadcasts JOIN_COMMIT (\<open>join_fsm.c\<close>, \<open>unicast_dispatch.c\<close>, \<open>broadcast.c\<close>, the tables in \<open>join.c\<close>). All unicast messages
  (\<open>unicast.c\<close>) go through the stop-and-wait protocol of \<open>rudp.c\<close>.

  \<^bold>\<open>The theories\<close>, in the order of the program's layers; definitions keep the names of the C functions.
  \<^item> \<open>Prelude\<close>: searches over arrays, and the interfaces (locales) \<open>slot_array\<close> and \<open>transition_system\<close>.
  \<^item> \<open>CRuntime\<close>: bytes, integers in memory and in network order, C strings, \<open>atoi\<close>. The target is a little-endian 64-bit Linux.
  \<^item> \<open>Wire\<close>: the constants of \<open>consts.h\<close>, every structure of the headers as a record, its byte image and back. The locale \<open>wire_format\<close> and its
    extension \<open>unicast_payload\<close> are interpreted for each structure that travels.
  \<^item> \<open>Node_World\<close>: the static variables of \<open>rudp.c\<close> and \<open>broadcast.c\<close> and the operating system as one record.
  \<^item> \<open>Rudp\<close>: \<open>rudp.c\<close>. \<open>Rudp_Props\<close>: the invariant \<open>rudp_inv\<close> of its two tables and the specifications \<open>send_spec\<close> and \<open>recv_spec\<close> that
    sending and receiving meet. \<open>Sample_World\<close>: a concrete world. \<open>Rudp_Theorems\<close>: the properties of one end.
  \<^item> \<open>Unicast\<close>, \<open>Broadcast_Net\<close>, \<open>Join_State\<close>, \<open>Cli\<close>: \<open>unicast.c\<close>; \<open>broadcast_targets.c\<close> and the sending half of \<open>broadcast.c\<close>;
    \<open>join.c\<close>; \<open>cli.c\<close> and \<open>writer.c\<close>. \<open>Join_State\<close> states the locale \<open>join_queue\<close> and interprets it on the table of waiting nodes.
    \<open>Join_Theorems\<close>: the properties of the tables.
  \<^item> \<open>Ring_State\<close>, \<open>Join_Fsm\<close>, \<open>Dispatch\<close>, \<open>Broadcast\<close>, \<open>Ring\<close>: \<open>ring_state_t\<close> and the functions over it, up to one pass of the
    loop (\<open>ring_iter\<close>) and the loop (\<open>ring_run\<close>). \<open>Startup\<close>: the set-up and \<open>main\<close>.
  \<^item> \<open>Node_Props\<close>: the invariant of a node, \<open>node_inv\<close>, kept by every handler, and which handlers return. \<open>Join_Protocol\<close>: the join
    across three nodes. \<open>Node_Theorems\<close>: broadcasts, the token and user messages at one node.
  \<^item> \<open>Exchange\<close>: two ends of the reliable UDP and the network between them. \<open>Ring_System\<close>: the hand-over of the token, and
    a system of any number of nodes. This theory: properties of the whole program.

  \<^bold>\<open>How the state is modelled.\<close> A handler is a function from the \<open>ring_state\<close> and the \<open>world\<close> to a return value and both anew; every
  \<open>return -1\<close> and every early return is a branch. What the system answers is data of the world: \<open>w_script\<close> lists what each poll of the unicast
  socket yields (a datagram, nothing, a failure), the clock, the fate of each transmission and allocation and the contents of uninitialised
  buffers are functions of a counter that every call advances. The theorems hold for all of them. What \<open>select\<close> and the other two descriptors yield in a pass
  is an \<open>iter_input\<close>. Sequence numbers, ports, counters and versions are words of the width of the source and wrap.

  \<^bold>\<open>Loops.\<close> \<open>retry_loop\<close> may run for ever (the token is sent without a limit), so it is a partial function and so are the handlers above it: \<open>None\<close> is a
  call that does not return. A script is finite, and an exhausted one is a silent socket. \<open>send_returns_within_limit\<close> and \<open>handlers_return\<close> show that nothing
  but the token transmission can wait for ever, \<open>silent_successor_blocks_the_node\<close> that this one does. \<open>recvfrom_loop\<close> terminates by the measure
  \<open>work\<close>, the messages buffered and the events left. No fuel is used.

  \<^bold>\<open>What is shown.\<close> (1) The reliable UDP: a send flips one bit, on an acknowledgement only; a receive delivers an awaited message only; together they implement a
  queue over a lossy, duplicating and reordering network (\<open>reliable_udp_is_a_queue\<close>), provided no datagram outlives its exchange and no
  message stays in the buffer, and three theorems show what is lost otherwise. (2) The tables: their counters, the order of
  service, the history as a bounded list. (3) The join: both confirmations, in either order, splice the joiner into the ring, repeated
  and foreign messages do no harm. (4) The token: handed over once and unchanged, one in the whole ring; at most one node
  coordinates a join. (5) The node: its invariant in every run of the program, the timeout of \<open>select\<close>, the start.

  \<^bold>\<open>Not modelled.\<close> \<open>logger.c\<close> (output only); the duration of \<open>sleep\<close> and \<open>usleep\<close>; the bytes that \<open>wait_for_frame\<close> copies out, which no caller
  reads; the undefined behaviour of reading past the end of a received name without a terminator, where the model reads a NUL; signals. The fields
  \<open>token_epoch\<close> and \<open>last_token_seen\<close> exist but no code uses them.
\<close>

section \<open>Configuration and targets\<close>


text \<open>The names and ports of three nodes, and the environment of a node in the ring.\<close>

definition sample_config :: route_config where
  "sample_config = \<lparr>cfg_current = sample_route 65, cfg_prev = sample_route 66, cfg_next = sample_route 67\<rparr>"

lemma sample_config_wf: "wf_config sample_config"
  using sample_inv(1) [of 65 66 67 True] by (simp add: node_inv_parts sample_config_def)

definition sample_env :: "string \<Rightarrow> bytes option" where
  "sample_env = [''NODE_NAME'' \<mapsto> [65], ''NODE_UNI_PORT'' \<mapsto> [53, 48], ''NODE_BROAD_PORT'' \<mapsto> [54],
     ''PREV_NODE_NAME'' \<mapsto> [66], ''PREV_NODE_UNI_PORT'' \<mapsto> [55], ''NEXT_NODE_NAME'' \<mapsto> [67], ''NEXT_NODE_UNI_PORT'' \<mapsto> [56]]"


text \<open>
  C38: The broadcast targets are exactly the usable interfaces, in the order of the system: up, with broadcast, with an IPv4 address, and with a
  broadcast address of their own or a netmask to compute one from; at most as many as fit.
\<close>
theorem targets_are_the_usable_interfaces:
  "broadcast_collect_targets (Some ifas) port cap =
    (let out = take cap (List.map_filter (target_of port) ifas) in (int (length out), out))
   \<and> broadcast_collect_targets None port cap = (-1, [])"
  using collect_loop_spec [of "[]" cap port ifas] by (simp add: broadcast_collect_targets_def Let_def)

lemma wf_token_msg:
  assumes "wf_token t"
  shows "wf_umsg (token_msg t)" "unat (um_payload_len (token_msg t)) = sizeof_token"
  using token_fmt.length_enc [OF assms] token_fmt.umsg_payload_len [OF assms]
  by (simp_all add: token_msg_def mk_umsg_def wf_umsg_def zero_umsg_def)

text \<open>
  C39: A unicast message survives the wire. What \<open>build_unicast_wire\<close> makes of a message of at most 512 bytes is read back with
  the same type, length and payload, the unused bytes of the payload being zero; a longer message is refused before it is sent,
  and one that claims a longer payload is refused when it is received.
\<close>
theorem unicast_message_round_trip:
  assumes "wf_umsg msg"
  shows "if unat (um_payload_len msg) \<le> MAX_UNICAST_PAYLOAD
    then \<exists>wire. build_unicast_wire msg = Some wire \<and> read_unicast_wire (umsg_of_bytes (bytes_of_umsg wire)) zero_umsg =
      (0, msg\<lparr>um_payload := overlay (replicate 512 0) (take (unat (um_payload_len msg)) (um_payload msg))\<rparr>)
    else build_unicast_wire msg = None
      \<and> fst (read_unicast_wire (msg\<lparr>um_payload_len := htons (um_payload_len msg)\<rparr>) zero_umsg) = -1"
  using unicast_roundtrip [OF _ assms] by (auto simp: build_unicast_wire_def read_unicast_wire_def Let_def)

theorem unicast_message_round_trip_witness:
  "\<exists>wire. build_unicast_wire (token_msg zero_token) = Some wire
    \<and> fst (read_unicast_wire (umsg_of_bytes (bytes_of_umsg wire)) zero_umsg) = 0"
proof -
  have "wf_umsg (token_msg zero_token)" "unat (um_payload_len (token_msg zero_token)) \<le> MAX_UNICAST_PAYLOAD"
    using wf_token_msg [OF wf_zero(2)] by simp_all
  with unicast_message_round_trip [OF this(1)] show ?thesis by auto
qed

section \<open>The node as a whole\<close>

text \<open>The invariant of a node, spelled out.\<close>

definition node_consistent :: "ring_state \<Rightarrow> bool" where
  "node_consistent st \<longleftrightarrow>
     (ji_active (rs_join_inflight st) \<longrightarrow> rs_joined st \<and> rs_have_token st) \<and> (rs_have_token st \<longrightarrow> rs_joined st)
     \<and> join_inv (rs_join_state st) \<and> wf_config (rs_config st)
     \<and> ji_retries (rs_join_inflight st) \<in> {0..JOIN_ACCEPT_RETRIES} \<and> as_retries (rs_ack_sender st) \<in> {0..JOIN_ACK_MAX_RETRIES}
     \<and> rs_join_request_retries st \<in> {0..JOIN_REQUEST_RETRIES}"

lemma node_consistent_inv: "node_inv st \<Longrightarrow> node_consistent st"
  by (simp add: node_consistent_def node_inv_parts wf_inflight_def wf_ack_sender_def)

text \<open>Every result of \<open>ring_run\<close> satisfies the invariants, the final one included.\<close>

definition result_ok :: "iter_result \<Rightarrow> bool" where
  "result_ok r \<longleftrightarrow> (case r of Continue st t w \<Rightarrow> node_inv st \<and> rudp_inv w | Return rc st w \<Rightarrow> node_inv st \<and> rudp_inv w)"

lemma ring_loop_result:
  "ring_loop inps st t w = Some r \<Longrightarrow> node_inv st \<Longrightarrow> rudp_inv w \<Longrightarrow> result_ok r"
proof (induction inps arbitrary: st t w)
  case (Cons inp inps)
  from Cons.prems(1) obtain r1 where r1: "ring_iter inp st t w = Some r1"
    "(case r1 of Continue st1 t1 w1 \<Rightarrow> ring_loop inps st1 t1 w1 | Return rc st1 w1 \<Rightarrow> Some (Return rc st1 w1)) = Some r"
    by (auto simp: bind_eq_Some_conv)
  from ring_iter_keeps [OF r1(1) Cons.prems(2)] have inv: "result_inv w r1" .
  show ?case
  proof (cases r1)
    case (Continue st1 t1 w1)
    with r1(2) inv Cons.prems(3) show ?thesis by (intro Cons.IH [of st1 t1 w1]) (auto simp: result_inv_def world_step_def)
  next
    case (Return rc st1 w1)
    with r1(2) inv Cons.prems(3) show ?thesis by (auto simp: result_inv_def world_step_def result_ok_def)
  qed
qed (auto simp: result_ok_def)

lemma ring_run_result:
  assumes "ring_run config s joined fresh_id should_start t0 inps w = Some r" and "wf_config config" "rudp_inv w"
  shows "result_ok r"
proof -
  obtain rc st1 w1 where i: "init_join_request_if_needed fresh_id
      ((init_ring_state config joined)\<lparr>rs_broadcast_socket := s\<rparr>) w = (rc, st1, w1)" by (metis prod_cases3)
  from initial_keeps [OF assms(2) i] assms(3)
  have inv: "node_inv (maybe_send_initial_token should_start st1)" "node_inv st1" "rudp_inv w1"
    by (auto simp: world_step_def)
  show ?thesis
  proof (cases "rc < 0")
    case True
    with assms(1) i inv show ?thesis by (auto simp: ring_run_def Let_def result_ok_def)
  next
    case False
    with assms(1) i have "ring_loop inps (maybe_send_initial_token should_start st1) t0 w1 = Some r"
      by (simp add: ring_run_def Let_def)
    then show ?thesis using inv(1,3) by (rule ring_loop_result)
  qed
qed

text \<open>
  C5: A running node stays consistent, whatever it receives and however the system answers. After any number of passes, also after the one in which
  the loop ends, a node with a join in flight is in the ring and holds the token, only a node in the ring holds one, the
  tables of the join state agree with their counters, names are terminated, the three retry counters are in their bounds, and
  the tables of the reliable UDP keep their invariant.
\<close>
theorem running_node_is_consistent:
  assumes "ring_run config s joined fresh_id should_start t0 inps w = Some r" and "wf_config config" "rudp_inv w"
  shows "case r of Continue st t w' \<Rightarrow> node_consistent st \<and> rudp_inv w'
    | Return rc st w' \<Rightarrow> node_consistent st \<and> rudp_inv w'"
proof -
  have "result_ok r"
    using ring_run_result [OF assms] by simp
  then show ?thesis by (auto simp: result_ok_def node_consistent_inv split: iter_result.splits)
qed

text \<open>A pass in which \<open>select\<close> is interrupted.\<close>

definition interrupted :: iter_input where
  "interrupted = \<lparr>in_ret = -1, in_eintr = True, in_timeout_left = \<lparr>tv_sec = 0, tv_usec = 0\<rparr>, in_unicast = False,
     in_broadcast = False, in_cli = False, in_dgram = None, in_fifo = None\<rparr>"

theorem running_node_is_consistent_witness:
  "\<exists>st t w'. ring_run sample_config 4 True 1 True \<lparr>tv_sec = 0, tv_usec = 0\<rparr> [interrupted, interrupted] (fresh_world [])
      = Some (Continue st t w') \<and> rs_have_token st \<and> node_consistent st \<and> rudp_inv w'"
proof -
  have "\<exists>st t w'. ring_run sample_config 4 True 1 True \<lparr>tv_sec = 0, tv_usec = 0\<rparr> [interrupted, interrupted] (fresh_world [])
      = Some (Continue st t w') \<and> rs_have_token st"
    by (simp add: ring_run_def init_join_request_if_needed_def init_ring_state_def maybe_send_initial_token_def ring_iter_def
        join_ack_sender_tick_def zero_ack_sender_def time_now_def set_select_timeout_def zero_inflight_def
        join_fsm_request_tick_def join_fsm_inflight_tick_def interrupted_def Let_def split: prod.split)
  then obtain st t w' where r: "ring_run sample_config 4 True 1 True \<lparr>tv_sec = 0, tv_usec = 0\<rparr> [interrupted, interrupted] (fresh_world [])
      = Some (Continue st t w')" "rs_have_token st" by blast
  from running_node_is_consistent [OF r(1) sample_config_wf rudp_inv_fresh] r show ?thesis by auto
qed




lemma filled_config_wf: "wf_config c \<Longrightarrow> fill_config_from_env env c joined = Some c' \<Longrightarrow> wf_config c'"
  by (auto simp: fill_config_from_env_def Let_def route_name_def wf_config_def wf_route_def wf_copy_name wf_name_length
      split: option.splits if_splits)


section \<open>The program\<close>

lemma initialize_spec:
  assumes "ring_initialize su env config ds joined w = (rc, config', ds', w')" and "wf_config config"
  shows "if rc = 0
    then wf_config config' \<and> unicast_socket ds' \<ge> 0 \<and> broadcast_socket ds' \<ge> 0 \<and> cli_fd ds' \<ge> 0
      \<and> ds' = \<lparr>unicast_socket = su_unicast_fd su, broadcast_socket = su_broadcast_fd su, cli_fd = su_fifo_fd su\<rparr>
      \<and> targets_of (broadcast_port (cfg_current config')) (w_targets w') \<and> w' = w\<lparr>w_targets := w_targets w'\<rparr>
    else rc = -1 \<and> ds' = ds"
proof (cases "fill_config_from_env env config joined")
  case None
  with assms(1) show ?thesis by (simp add: ring_initialize_def)
next
  case (Some c)
  let ?u = "unicast_setup_socket (su_unicast_fd su) (su_bind su) (cfg_current c)"
  let ?f = "cli_setup_reader (su_mkfifo_ok su) (su_fifo_exists su) (su_fifo_fd su)"
  obtain b w1 where b: "broadcast_setup_socket (su_broadcast_fd su) (su_opt_broadcast su) (su_opt_reuse su)
      (su_bind_broadcast su) (su_interfaces su) (cfg_current c) w = (b, w1)" by fastforce
  have "(rc, config', ds', w') = (if ?u < 0 then (-1, c, ds, w) else if b < 0 then (-1, c, ds, w1)
      else if ?f < 0 then (-1, c, ds, w1) else (0, c, \<lparr>unicast_socket = ?u, broadcast_socket = b, cli_fd = ?f\<rparr>, w1))"
    using assms(1) unfolding ring_initialize_def Some option.case b prod.case Let_def by simp
  then consider "rc = -1" "ds' = ds"
    | "rc = 0" "config' = c" "0 \<le> ?u" "0 \<le> b" "0 \<le> ?f" "w' = w1"
      "ds' = \<lparr>unicast_socket = ?u, broadcast_socket = b, cli_fd = ?f\<rparr>"
    by (auto split: if_splits)
  then show ?thesis
  proof cases
    case 2
    have "wf_config c" using filled_config_wf [OF assms(2) Some] .
    with 2 setup_broadcast [OF b] setup_nonneg show ?thesis by simp
  qed simp
qed

text \<open>
  C40: A node that starts has what it needs. \<open>ring_initialize\<close> succeeds with a usable configuration, three valid descriptors and
  at most 16 broadcast targets, all of them IPv4 addresses with the broadcast port of the node, and changes nothing else; when it fails the descriptors
  are as they were.
\<close>
theorem started_node_is_usable:
  assumes "ring_initialize su env config ds joined w = (rc, config', ds', w')" and "wf_config config"
  shows "if rc = 0
    then wf_config config' \<and> unicast_socket ds' \<ge> 0 \<and> broadcast_socket ds' \<ge> 0 \<and> cli_fd ds' \<ge> 0
      \<and> ds' = \<lparr>unicast_socket = su_unicast_fd su, broadcast_socket = su_broadcast_fd su, cli_fd = su_fifo_fd su\<rparr>
      \<and> targets_of (broadcast_port (cfg_current config')) (w_targets w') \<and> w' = w\<lparr>w_targets := w_targets w'\<rparr>
    else rc = -1 \<and> ds' = ds"
  using assms by (rule initialize_spec)

text \<open>A machine on which everything works, and has one interface.\<close>

definition sample_startup :: startup where
  "sample_startup = \<lparr>su_unicast_fd = 3, su_bind = (\<lambda>_. True), su_broadcast_fd = 4, su_opt_broadcast = True, su_opt_reuse = True,
     su_bind_broadcast = True, su_interfaces = Some [\<lparr>ifa_name = [101], ifa_flags = 3, ifa_addr = Some (node_addr 65),
       ifa_broadaddr = Some (node_addr 255), ifa_netmask = None\<rparr>], su_mkfifo_ok = False, su_fifo_exists = True, su_fifo_fd = 5,
     su_urandom = None, su_time = (7, 8), su_pid = 9, su_timeout = \<lparr>tv_sec = 0, tv_usec = 0\<rparr>\<rparr>"

lemma sample_initialize:
  assumes "ring_initialize sample_startup sample_env config ds True w = (rc, config', ds', w')"
  shows "rc = 0"
  using assms by (auto simp: ring_initialize_def sample_startup_def sample_env_def fill_config_from_env_def Let_def
      unicast_setup_socket_def broadcast_setup_socket_def broadcast_collect_targets_def cli_setup_reader_def split: if_splits)

theorem started_node_is_usable_witness:
  "\<exists>config' ds' w'. ring_initialize sample_startup sample_env sample_config \<lparr>unicast_socket = 0, broadcast_socket = 0, cli_fd = 0\<rparr>
      True (fresh_world []) = (0, config', ds', w') \<and> cli_fd ds' = 5 \<and> wf_config config'"
proof -
  obtain rc config' ds' w' where r: "ring_initialize sample_startup sample_env sample_config
      \<lparr>unicast_socket = 0, broadcast_socket = 0, cli_fd = 0\<rparr> True (fresh_world []) = (rc, config', ds', w')" by (metis prod_cases4)
  have "su_fifo_fd sample_startup = 5" by (simp add: sample_startup_def)
  with started_node_is_usable [OF r sample_config_wf] sample_initialize [OF r] r show ?thesis by simp
qed







end
